theory Spec2Isabelle
  imports
    Complex_Main
    "HOL-Library.Char_ord"
    "HOL-Library.List_Lexorder"
    "HOL-Library.Product_Lexorder"
begin

text \<open>
  A model of the Firestore storage adapter of the Mastra framework: the generic record
  codec and table operations, and the domains that store threads, messages, resources,
  scores, evals, traces, AI spans and workflow snapshots in a document store. Each
  operation of the adapter is a function of the same name that takes the store and
  returns its result, or the error it raises, with the store it leaves. The properties
  proved are in the last section; each is stated for the functions translated from the
  TypeScript source.
\<close>

section \<open>JavaScript values\<close>

text \<open>
  The adapter is TypeScript: its records are JavaScript objects. A number is a double; the
  finite ones are carried as reals (the adapter copies numbers and multiplies one by 1000,
  nothing else), the three others are constructors of their own. A \<open>Date\<close> holds its time
  value in milliseconds, \<open>None\<close> for an Invalid Date. \<open>Timestamp\<close> is the backend's native
  timestamp object, with its two fields \<open>_seconds\<close> and \<open>_nanoseconds\<close>. An object is the
  list of its own enumerable properties in the order of \<open>Object.entries\<close>; its keys are
  distinct.
\<close>

datatype jsnum = Finite real | NaN | PosInf | NegInf

datatype jsval =
    Undefined
  | Null
  | Bool bool
  | Num jsnum
  | Str string
  | Date "int option"
  | Timestamp int int
  | Arr "jsval list"
  | Obj "(string \<times> jsval) list"

type_synonym doc = "(string \<times> jsval) list"

datatype error =
    Error string
  | TypeError string
  | RangeError string
  | BackendError string

text \<open>
  What the JavaScript runtime does and the repository does not define is a parameter:
  \<open>toISOString\<close> of a valid date, the \<open>Date\<close> constructor on a string or an object, and
  the conversion of a string or an object to a number.
\<close>

record js_runtime =
  rt_toISOString :: "int \<Rightarrow> string"
  rt_Date :: "jsval \<Rightarrow> int option"
  rt_Number :: "jsval \<Rightarrow> jsnum"

fun truthy :: "jsval \<Rightarrow> bool" where
  "truthy Undefined = False"
| "truthy Null = False"
| "truthy (Bool b) = b"
| "truthy (Num n) = (case n of Finite r \<Rightarrow> r \<noteq> 0 | NaN \<Rightarrow> False | _ \<Rightarrow> True)"
| "truthy (Str s) = (s \<noteq> [])"
| "truthy _ = True"

definition js_or :: "jsval \<Rightarrow> jsval \<Rightarrow> jsval" where
  \<comment> \<open>\<^verbatim>\<open>a || b\<close>\<close>
  "js_or a b = (if truthy a then a else b)"

fun typeof_object :: "jsval \<Rightarrow> bool" where
  \<comment> \<open>\<^verbatim>\<open>typeof v === "object"\<close>, which holds of \<^verbatim>\<open>null\<close> too\<close>
  "typeof_object Null = True"
| "typeof_object (Date t) = True"
| "typeof_object (Timestamp s n) = True"
| "typeof_object (Arr xs) = True"
| "typeof_object (Obj kvs) = True"
| "typeof_object _ = False"

fun instanceof_Date :: "jsval \<Rightarrow> bool" where
  "instanceof_Date (Date t) = True"
| "instanceof_Date _ = False"

definition get :: "doc \<Rightarrow> string \<Rightarrow> jsval" where
  \<comment> \<open>\<^verbatim>\<open>data.k\<close>: \<^verbatim>\<open>undefined\<close> for a property the object does not have\<close>
  "get d k = (case map_of d k of Some v \<Rightarrow> v | None \<Rightarrow> Undefined)"

fun obj_set :: "string \<Rightarrow> 'v \<Rightarrow> (string \<times> 'v) list \<Rightarrow> (string \<times> 'v) list" where
  \<comment> \<open>\<^verbatim>\<open>o[k] = v\<close>: an existing property keeps its place, a new one goes last\<close>
  "obj_set k v [] = [(k, v)]"
| "obj_set k v ((k', v') # kvs) =
     (if k = k' then (k, v) # kvs else (k', v') # obj_set k v kvs)"

definition spread :: "(string \<times> 'v) list \<Rightarrow> (string \<times> 'v) list \<Rightarrow> (string \<times> 'v) list" where
  \<comment> \<open>\<^verbatim>\<open>{ ...a, ...b }\<close>\<close>
  "spread a b = fold (\<lambda>(k, v) o'. obj_set k v o') b a"

fun has_in :: "string \<Rightarrow> jsval \<Rightarrow> bool" where
  \<comment> \<open>\<^verbatim>\<open>k in v\<close> for an object \<open>v\<close> and a key that no prototype defines\<close>
  "has_in k (Obj kvs) = (k \<in> fst ` set kvs)"
| "has_in k (Timestamp s n) = (k = ''_seconds'' \<or> k = ''_nanoseconds'')"
| "has_in k _ = False"

fun get_prop :: "jsval \<Rightarrow> string \<Rightarrow> jsval" where
  \<comment> \<open>\<^verbatim>\<open>v.k\<close> for an object \<open>v\<close>\<close>
  "get_prop (Obj kvs) k = get kvs k"
| "get_prop (Timestamp s n) k =
     (if k = ''_seconds'' then Num (Finite (of_int s))
      else if k = ''_nanoseconds'' then Num (Finite (of_int n))
      else Undefined)"
| "get_prop (Arr xs) k = (if k = ''length'' then Num (Finite (of_nat (length xs))) else Undefined)"
| "get_prop _ k = Undefined"

fun to_number :: "js_runtime \<Rightarrow> jsval \<Rightarrow> jsnum" where
  "to_number rt Undefined = NaN"
| "to_number rt Null = Finite 0"
| "to_number rt (Bool b) = Finite (if b then 1 else 0)"
| "to_number rt (Num n) = n"
| "to_number rt (Date t) = (case t of Some ms \<Rightarrow> Finite (of_int ms) | None \<Rightarrow> NaN)"
| "to_number rt v = rt_Number rt v"

fun times_1000 :: "jsnum \<Rightarrow> jsnum" where
  \<comment> \<open>\<^verbatim>\<open>n * 1000\<close>, without the rounding of a double\<close>
  "times_1000 (Finite r) = Finite (r * 1000)"
| "times_1000 n = n"

definition time_clip :: "jsnum \<Rightarrow> int option" where
  \<comment> \<open>the time value of \<^verbatim>\<open>new Date(n)\<close>: truncated, and invalid beyond 8.64e15 ms\<close>
  "time_clip n =
     (case n of
        Finite r \<Rightarrow>
          if \<bar>r\<bar> \<le> 8640000000000000 then Some (if 0 \<le> r then \<lfloor>r\<rfloor> else \<lceil>r\<rceil>) else None
      | _ \<Rightarrow> None)"

fun new_Date :: "js_runtime \<Rightarrow> jsval \<Rightarrow> jsval" where
  "new_Date rt (Num n) = Date (time_clip n)"
| "new_Date rt (Date t) = Date t"
| "new_Date rt Undefined = Date None"
| "new_Date rt Null = Date (Some 0)"
| "new_Date rt (Bool b) = Date (Some (if b then 1 else 0))"
| "new_Date rt v = Date (rt_Date rt v)"

fun json_clone :: "(int \<Rightarrow> string) \<Rightarrow> jsval \<Rightarrow> jsval" where
  \<comment> \<open>\<^verbatim>\<open>JSON.parse(JSON.stringify(v))\<close>: a date becomes its ISO string, a property that is
      \<^verbatim>\<open>undefined\<close> is left out, an array element that is \<^verbatim>\<open>undefined\<close> and a number
      that is not finite become \<^verbatim>\<open>null\<close>\<close>
  "json_clone fmt Undefined = Null"
| "json_clone fmt Null = Null"
| "json_clone fmt (Bool b) = Bool b"
| "json_clone fmt (Num n) = (case n of Finite r \<Rightarrow> Num (Finite r) | _ \<Rightarrow> Null)"
| "json_clone fmt (Str s) = Str s"
| "json_clone fmt (Date t) = (case t of Some ms \<Rightarrow> Str (fmt ms) | None \<Rightarrow> Null)"
| "json_clone fmt (Timestamp s n) =
     Obj [(''_seconds'', Num (Finite (of_int s))), (''_nanoseconds'', Num (Finite (of_int n)))]"
| "json_clone fmt (Arr xs) = Arr (map (json_clone fmt) xs)"
| "json_clone fmt (Obj kvs) =
     Obj (map (\<lambda>(k, v). (k, json_clone fmt v)) (filter (\<lambda>(k, v). v \<noteq> Undefined) kvs))"

section \<open>The generic record codec (StoreOperationsFirestore)\<close>

definition serialize_field :: "js_runtime \<Rightarrow> jsval \<Rightarrow> jsval" where
  "serialize_field rt v =
     (if instanceof_Date v then v
      else if v = Null \<or> v = Undefined then Null
      else if typeof_object v then json_clone (rt_toISOString rt) v
      else v)"

definition serializeRecord :: "js_runtime \<Rightarrow> doc \<Rightarrow> doc" where
  "serializeRecord rt r =
     fold (\<lambda>(key, v) serialized. obj_set key (serialize_field rt v) serialized) r []"

definition deserialize_field :: "js_runtime \<Rightarrow> jsval \<Rightarrow> jsval" where
  "deserialize_field rt v =
     (if truthy v \<and> typeof_object v \<and> has_in ''_seconds'' v
      then new_Date rt (Num (times_1000 (to_number rt (get_prop v ''_seconds''))))
      else v)"

definition deserializeRecord :: "js_runtime \<Rightarrow> doc option \<Rightarrow> doc" where
  \<comment> \<open>\<open>None\<close> is \<^verbatim>\<open>undefined\<close> data\<close>
  "deserializeRecord rt data =
     (case data of
        None \<Rightarrow> []
      | Some d \<Rightarrow> fold (\<lambda>(key, v) deserialized. obj_set key (deserialize_field rt v) deserialized) d [])"

definition hasColumn :: "string \<Rightarrow> string \<Rightarrow> error + bool" where
  "hasColumn table column = Inl (Error ''Method not implemented.'')"

section \<open>The store (FirestoreStore)\<close>

record supports =
  selectByIncludeResourceScope :: bool
  resourceWorkingMemory :: bool
  supports_hasColumn :: bool
  supports_createTable :: bool
  supports_deleteMessages :: bool
  aiTracing :: bool
  supports_getScoresBySpan :: bool

definition FirestoreStore_supports :: supports where
  "FirestoreStore_supports =
     \<lparr> selectByIncludeResourceScope = True,
       resourceWorkingMemory = True,
       supports_hasColumn = True,
       supports_createTable = True,
       supports_deleteMessages = True,
       aiTracing = True,
       supports_getScoresBySpan = True \<rparr>"

section \<open>The document store\<close>

text \<open>
  The backend and its client library are collaborators of the adapter. The store keeps, for
  each collection, the documents under their ids. The client is taken with its default
  settings.

  \<^item> A document reference is made from a path, which the client checks: it is a non-empty
    string without \<^verbatim>\<open>//\<close> that names a document of the collection or of one of its
    subcollections. The backend refuses an id that is \<^verbatim>\<open>.\<close> or \<^verbatim>\<open>..\<close>, that has the
    reserved form \<^verbatim>\<open>__x__\<close> or that is longer than 1500 bytes; the model refuses it when the
    reference is made, which in every operation is right before its first round trip.
  \<^item> A write is checked before anything is stored: data that holds \<^verbatim>\<open>undefined\<close>, an
    invalid date, a date outside the range of a native timestamp, an array directly inside
    an array, a field name that is empty, reserved or longer than 1500 bytes, or that nests
    deeper than 20 levels, is refused and the call raises. The stored form of accepted
    data has every date as a native timestamp of whole seconds and nanoseconds.
  \<^item> A write with \<^verbatim>\<open>merge\<close> replaces the leaves of the data it is given and keeps every
    other field of the stored document, also inside nested maps.
  \<^item> A query names its fields by field paths, which the client checks; a dot in a path
    steps into a nested map. A query filters, orders (a document without the ordering
    field is not matched, ties follow the document id), skips \<open>offset\<close> documents and
    returns \<open>limit\<close> at most.
  \<^item> Every round trip is recorded in \<open>calls\<close>. A round trip that the client lets through
    is taken to succeed (the size limits of the backend and its indexes are not modelled);
    the clock's \<^verbatim>\<open>new Date()\<close> is the parameter \<open>now\<close> of an operation.
\<close>

subsection \<open>Paths\<close>

fun split_on :: "char \<Rightarrow> string \<Rightarrow> string list" where
  \<comment> \<open>\<^verbatim>\<open>s.split(c)\<close>\<close>
  "split_on c [] = [[]]"
| "split_on c (x # xs) =
     (if x = c then [] # split_on c xs
      else (case split_on c xs of seg # segs \<Rightarrow> (x # seg) # segs | [] \<Rightarrow> [[x]]))"

fun has_double_slash :: "string \<Rightarrow> bool" where
  "has_double_slash (a # b # s) = ((a = CHR ''/'' \<and> b = CHR ''/'') \<or> has_double_slash (b # s))"
| "has_double_slash s = False"

definition path_join :: "string \<Rightarrow> string list \<Rightarrow> string" where
  "path_join c segs = foldl (\<lambda>p seg. p @ ''/'' @ seg) c segs"

definition reserved_name :: "string \<Rightarrow> bool" where
  \<comment> \<open>the names of the form \<^verbatim>\<open>__x__\<close> are the backend's own\<close>
  "reserved_name s = (4 \<le> length s \<and> take 2 s = ''__'' \<and> take 2 (rev s) = ''__'')"

definition name_ok :: "string \<Rightarrow> bool" where
  \<comment> \<open>a field name or a segment of a path: not empty, not reserved, 1500 bytes at most\<close>
  "name_ok s = (s \<noteq> [] \<and> \<not> reserved_name s \<and> length s \<le> 1500)"

definition id_ok :: "string \<Rightarrow> bool" where
  \<comment> \<open>a document or collection id\<close>
  "id_ok s = (name_ok s \<and> s \<noteq> ''.'' \<and> s \<noteq> ''..'')"

definition doc_ref :: "string \<Rightarrow> jsval \<Rightarrow> error + string \<times> string" where
  \<comment> \<open>\<^verbatim>\<open>collection(c).doc(v)\<close>: the collection and the id of the document the path names.
      The segments of the path are its non-empty parts between slashes; with the
      collection they must make an even number of components.\<close>
  "doc_ref c v =
     (case v of
        Str s \<Rightarrow>
          if s = [] then Inl (Error ''Value for argument documentPath is not a valid resource path. Path must be a non-empty string.'')
          else if has_double_slash s
          then Inl (Error ''Value for argument documentPath is not a valid resource path. Paths must not contain //.'')
          else (let segs = filter (\<lambda>seg. seg \<noteq> []) (split_on (CHR ''/'') s)
                in if even (length segs)
                   then Inl (Error ''Value for argument documentPath must point to a document. Your path does not contain an even number of components.'')
                   else if \<not> list_all id_ok segs then Inl (BackendError ''INVALID_ARGUMENT'')
                   else Inr (path_join c (butlast segs), last segs))
      | _ \<Rightarrow> Inl (Error ''Value for argument documentPath is not a valid resource path. Path must be a non-empty string.''))"

definition valid_field_path :: "string \<Rightarrow> bool" where
  \<comment> \<open>a field path given as a string: no empty segment between dots, none of the
      characters \<^verbatim>\<open>* ~ / [ ]\<close>\<close>
  "valid_field_path f =
     (list_all (\<lambda>seg. seg \<noteq> []) (split_on (CHR ''.'') f) \<and> list_all (\<lambda>c. c \<notin> set ''*~/[]'') f)"

fun lookup_path :: "doc \<Rightarrow> string list \<Rightarrow> jsval option" where
  "lookup_path d [] = None"
| "lookup_path d [k] = map_of d k"
| "lookup_path d (k # ks) =
     (case map_of d k of Some (Obj kvs) \<Rightarrow> lookup_path kvs ks | _ \<Rightarrow> None)"

definition field_of :: "doc \<Rightarrow> string \<Rightarrow> jsval option" where
  \<comment> \<open>the field of a stored document that a field path names\<close>
  "field_of d f = lookup_path d (split_on (CHR ''.'') f)"

subsection \<open>Data that a write accepts\<close>

fun storable_at :: "nat \<Rightarrow> jsval \<Rightarrow> bool" where
  \<comment> \<open>\<open>n\<close> is the number of levels of nesting still allowed below the value. The seconds of
      a native timestamp lie between the years 1 and 9999.\<close>
  "storable_at n Undefined = False"
| "storable_at n (Date t) =
     (case t of
        Some ms \<Rightarrow> - 62135596800 \<le> ms div 1000 \<and> ms div 1000 \<le> 253402300799
      | None \<Rightarrow> False)"
| "storable_at n (Arr xs) =
     ((xs = [] \<or> 0 < n)
      \<and> list_all (\<lambda>x. (case x of Arr ys \<Rightarrow> False | _ \<Rightarrow> True) \<and> storable_at (n - 1) x) xs)"
| "storable_at n (Obj kvs) =
     ((kvs = [] \<or> 0 < n) \<and> list_all (\<lambda>(k, v). name_ok k \<and> storable_at (n - 1) v) kvs)"
| "storable_at n v = True"

definition storable_doc :: "doc \<Rightarrow> bool" where
  "storable_doc d = list_all (\<lambda>(k, v). name_ok k \<and> storable_at 20 v) d"

definition invalid_data :: error where
  "invalid_data = Error ''Value for argument data is not a valid Firestore document.''"

definition invalid_query :: error where
  "invalid_query = Error ''Value for argument of the query is not valid.''"

fun fs_encode :: "jsval \<Rightarrow> jsval" where
  \<comment> \<open>the stored form of a value that a write accepts; the seconds of a timestamp are the
      floor of the milliseconds over 1000\<close>
  "fs_encode (Date t) =
     (case t of Some ms \<Rightarrow> Timestamp (ms div 1000) ((ms mod 1000) * 1000000) | None \<Rightarrow> Date None)"
| "fs_encode (Arr xs) = Arr (map fs_encode xs)"
| "fs_encode (Obj kvs) = Obj (map (\<lambda>(k, v). (k, fs_encode v)) kvs)"
| "fs_encode v = v"

definition encode_doc :: "doc \<Rightarrow> doc" where
  "encode_doc d = map (\<lambda>(k, v). (k, fs_encode v)) d"

fun merge_val :: "jsval \<Rightarrow> jsval \<Rightarrow> jsval"
  and merge_fields :: "doc \<Rightarrow> doc \<Rightarrow> doc" where
  \<comment> \<open>a write with merge: the field mask of the write is the leaves of the new data (an
      empty map is a leaf), so a map is merged into a stored map field by field and every
      other value replaces what is stored\<close>
  "merge_val old (Obj new) =
     (case old of
        Obj o' \<Rightarrow> if new = [] then Obj [] else Obj (merge_fields o' new)
      | _ \<Rightarrow> Obj new)"
| "merge_val old Undefined = Undefined"
| "merge_val old Null = Null"
| "merge_val old (Bool b) = Bool b"
| "merge_val old (Num n) = Num n"
| "merge_val old (Str s) = Str s"
| "merge_val old (Date t) = Date t"
| "merge_val old (Timestamp s n) = Timestamp s n"
| "merge_val old (Arr xs) = Arr xs"
| "merge_fields old [] = old"
| "merge_fields old ((k, v) # new) =
     merge_fields (obj_set k (case map_of old k of Some ov \<Rightarrow> merge_val ov v | None \<Rightarrow> v) old) new"

subsection \<open>Queries\<close>

datatype direction = Asc | Desc

datatype filter_op = Eq | Ge | Le | In_op

record query =
  q_collection :: string
  q_filters :: "(string \<times> filter_op \<times> jsval) list"
  q_orderBy :: "(string \<times> direction) option"
  q_offset :: "int option"
  q_limit :: "int option"

datatype batch_write =
    WSet string string doc
  | WDelete string string

datatype call =
    DocGet string string
  | DocSet string string doc
  | DocSetMerge string string doc
  | DocUpdate string string doc
  | DocDelete string string
  | QueryGet query
  | QueryCount query
  | Commit "batch_write list"

record firestore =
  collections :: "string \<Rightarrow> (string \<times> doc) list"
  calls :: "call list"
  next_auto :: nat

fun fs_type :: "jsval \<Rightarrow> nat" where
  \<comment> \<open>the backend orders values of different types by type: null, booleans, numbers,
      timestamps, strings, arrays, maps\<close>
  "fs_type Null = 0"
| "fs_type (Bool b) = 1"
| "fs_type (Num n) = 2"
| "fs_type (Timestamp s n) = 3"
| "fs_type (Str s) = 4"
| "fs_type (Arr xs) = 5"
| "fs_type (Obj kvs) = 6"
| "fs_type _ = 7"

fun fs_key :: "jsval \<Rightarrow> nat \<times> nat \<times> real \<times> string" where
  \<comment> \<open>the sort key of a value, compared lexicographically: its type, then NaN below
      every number, numbers and timestamps by value, strings by their characters; the order
      among arrays and among maps is not modelled\<close>
  "fs_key (Bool b) = (1, 0, (if b then 1 else 0), [])"
| "fs_key (Num n) =
     (case n of NaN \<Rightarrow> (2, 0, 0, []) | NegInf \<Rightarrow> (2, 1, 0, [])
      | Finite r \<Rightarrow> (2, 2, r, []) | PosInf \<Rightarrow> (2, 3, 0, []))"
| "fs_key (Timestamp s n) = (3, 0, of_int (s * 1000000000 + n), [])"
| "fs_key (Str s) = (4, 0, 0, s)"
| "fs_key v = (fs_type v, 0, 0, [])"

definition order_key :: "doc \<Rightarrow> string \<Rightarrow> nat \<times> nat \<times> real \<times> string" where
  \<comment> \<open>the sort key of a document under an ordering by the field\<close>
  "order_key d f = fs_key (case field_of d f of Some v \<Rightarrow> v | None \<Rightarrow> Undefined)"

fun sat :: "doc \<Rightarrow> string \<times> filter_op \<times> jsval \<Rightarrow> bool" where
  \<comment> \<open>a document satisfies a filter: a range filter matches values of the bound's type\<close>
  "sat d (f, Eq, v) = (field_of d f = Some (fs_encode v))"
| "sat d (f, Ge, v) =
     (case field_of d f of
        Some w \<Rightarrow> fs_type w = fs_type (fs_encode v) \<and> fs_key (fs_encode v) \<le> fs_key w
      | None \<Rightarrow> False)"
| "sat d (f, Le, v) =
     (case field_of d f of
        Some w \<Rightarrow> fs_type w = fs_type (fs_encode v) \<and> fs_key w \<le> fs_key (fs_encode v)
      | None \<Rightarrow> False)"
| "sat d (f, In_op, v) =
     (case v of
        Arr vs \<Rightarrow> (case field_of d f of Some w \<Rightarrow> w \<in> set (map fs_encode vs) | None \<Rightarrow> False)
      | _ \<Rightarrow> False)"

fun filter_ok :: "string \<times> filter_op \<times> jsval \<Rightarrow> bool" where
  \<comment> \<open>what \<^verbatim>\<open>where(f, op, v)\<close> accepts: a field path, a value that can be sent, and for
      \<^verbatim>\<open>in\<close> a non-empty array\<close>
  "filter_ok (f, In_op, v) =
     (valid_field_path f \<and> storable_at 20 v \<and> (case v of Arr (x # xs) \<Rightarrow> True | _ \<Rightarrow> False))"
| "filter_ok (f, opr, v) = (valid_field_path f \<and> storable_at 20 v)"

definition query_ok :: "query \<Rightarrow> bool" where
  "query_ok q =
     (list_all filter_ok (q_filters q)
      \<and> (case q_orderBy q of Some (f, dir) \<Rightarrow> valid_field_path f | None \<Rightarrow> True))"

definition order_docs ::
  "(string \<times> direction) option \<Rightarrow> (string \<times> doc) list \<Rightarrow> (string \<times> doc) list" where
  \<comment> \<open>with no ordering the documents come by id; an ordering keeps the documents that
      have the field, sorts them by it, then by id, and reverses the whole for \<open>Desc\<close>\<close>
  "order_docs ob ds =
     (case ob of
        None \<Rightarrow> sort_key fst ds
      | Some (f, dir) \<Rightarrow>
          (let asc = sort_key (\<lambda>(i, d). (order_key d f, i))
                       (filter (\<lambda>(i, d). field_of d f \<noteq> None) ds)
           in case dir of Asc \<Rightarrow> asc | Desc \<Rightarrow> rev asc))"

definition matching :: "firestore \<Rightarrow> query \<Rightarrow> (string \<times> doc) list" where
  \<comment> \<open>the documents a query matches, in order, before offset and limit\<close>
  "matching db q =
     order_docs (q_orderBy q)
       (filter (\<lambda>(i, d). list_all (sat d) (q_filters q)) (collections db (q_collection q)))"

subsection \<open>Round trips to the backend\<close>

definition log_call :: "call \<Rightarrow> firestore \<Rightarrow> firestore" where
  "log_call c db = db\<lparr>calls := calls db @ [c]\<rparr>"

definition store_doc :: "string \<Rightarrow> string \<Rightarrow> doc \<Rightarrow> firestore \<Rightarrow> firestore" where
  "store_doc c i d db = db\<lparr>collections := (collections db)(c := obj_set i d (collections db c))\<rparr>"

definition remove_doc :: "string \<Rightarrow> string \<Rightarrow> firestore \<Rightarrow> firestore" where
  "remove_doc c i db =
     db\<lparr>collections := (collections db)(c := filter (\<lambda>(j, d). j \<noteq> i) (collections db c))\<rparr>"

definition doc_get :: "string \<Rightarrow> string \<Rightarrow> firestore \<Rightarrow> doc option \<times> firestore" where
  \<comment> \<open>\<^verbatim>\<open>docRef.get()\<close>: \<open>None\<close> when the snapshot does not exist\<close>
  "doc_get c i db = (map_of (collections db c) i, log_call (DocGet c i) db)"

definition doc_set :: "string \<Rightarrow> string \<Rightarrow> doc \<Rightarrow> firestore \<Rightarrow> (error + unit) \<times> firestore" where
  \<comment> \<open>\<^verbatim>\<open>docRef.set(d)\<close>\<close>
  "doc_set c i d db =
     (if storable_doc d then (Inr (), log_call (DocSet c i d) (store_doc c i (encode_doc d) db))
      else (Inl invalid_data, db))"

definition doc_set_merge :: "string \<Rightarrow> string \<Rightarrow> doc \<Rightarrow> firestore \<Rightarrow> (error + unit) \<times> firestore" where
  \<comment> \<open>\<^verbatim>\<open>docRef.set(d, { merge: true })\<close>\<close>
  "doc_set_merge c i d db =
     (if storable_doc d
      then (Inr (),
            log_call (DocSetMerge c i d)
              (store_doc c i
                 (merge_fields (case map_of (collections db c) i of Some old \<Rightarrow> old | None \<Rightarrow> [])
                    (encode_doc d))
                 db))
      else (Inl invalid_data, db))"

definition doc_update :: "string \<Rightarrow> string \<Rightarrow> doc \<Rightarrow> firestore \<Rightarrow> (error + unit) \<times> firestore" where
  \<comment> \<open>\<^verbatim>\<open>docRef.update(d)\<close> with plain field names: the named fields are replaced\<close>
  "doc_update c i d db =
     (if \<not> storable_doc d then (Inl invalid_data, db)
      else (case map_of (collections db c) i of
              None \<Rightarrow> (Inl (BackendError ''NOT_FOUND''), log_call (DocUpdate c i d) db)
            | Some old \<Rightarrow>
                (Inr (), log_call (DocUpdate c i d) (store_doc c i (spread old (encode_doc d)) db))))"

definition doc_delete :: "string \<Rightarrow> string \<Rightarrow> firestore \<Rightarrow> firestore" where
  "doc_delete c i db = log_call (DocDelete c i) (remove_doc c i db)"

definition auto_id :: "firestore \<Rightarrow> string \<times> firestore" where
  \<comment> \<open>\<^verbatim>\<open>collection(c).doc()\<close>: a generated id, the next of a supply\<close>
  "auto_id db = (''auto-'' @ replicate (next_auto db) (CHR ''i''), db\<lparr>next_auto := Suc (next_auto db)\<rparr>)"

definition batch_set :: "string \<Rightarrow> string \<Rightarrow> doc \<Rightarrow> batch_write list \<Rightarrow> error + batch_write list" where
  \<comment> \<open>\<^verbatim>\<open>batch.set(docRef, d)\<close>: the data is checked when the write joins the batch\<close>
  "batch_set c i d batch = (if storable_doc d then Inr (batch @ [WSet c i d]) else Inl invalid_data)"

fun apply_write :: "batch_write \<Rightarrow> firestore \<Rightarrow> firestore" where
  "apply_write (WSet c i d) db = store_doc c i (encode_doc d) db"
| "apply_write (WDelete c i) db = remove_doc c i db"

definition commit :: "batch_write list \<Rightarrow> firestore \<Rightarrow> firestore" where
  \<comment> \<open>\<^verbatim>\<open>batch.commit()\<close>: the writes of the batch, in order, as one round trip\<close>
  "commit ws db = log_call (Commit ws) (fold apply_write ws db)"

definition collection_ref :: "string \<Rightarrow> query" where
  "collection_ref c =
     \<lparr> q_collection = c, q_filters = [], q_orderBy = None, q_offset = None, q_limit = None \<rparr>"

definition q_where :: "string \<Rightarrow> filter_op \<Rightarrow> jsval \<Rightarrow> query \<Rightarrow> query" where
  "q_where f opr v q = q\<lparr>q_filters := q_filters q @ [(f, opr, v)]\<rparr>"

definition orderBy :: "string \<Rightarrow> direction \<Rightarrow> query \<Rightarrow> query" where
  "orderBy f dir q = q\<lparr>q_orderBy := Some (f, dir)\<rparr>"

definition offset :: "int \<Rightarrow> query \<Rightarrow> query" where
  "offset n q = q\<lparr>q_offset := Some n\<rparr>"

definition limit :: "int \<Rightarrow> query \<Rightarrow> query" where
  "limit n q = q\<lparr>q_limit := Some n\<rparr>"

definition window :: "int option \<Rightarrow> int option \<Rightarrow> 'a list \<Rightarrow> 'a list" where
  "window off lmt ds =
     (let ds' = (case off of Some n \<Rightarrow> drop (nat n) ds | None \<Rightarrow> ds)
      in case lmt of Some n \<Rightarrow> take (nat n) ds' | None \<Rightarrow> ds')"

definition negative :: "int option \<Rightarrow> bool" where
  "negative n = (case n of Some k \<Rightarrow> k < 0 | None \<Rightarrow> False)"

definition query_get :: "query \<Rightarrow> firestore \<Rightarrow> (error + (string \<times> doc) list) \<times> firestore" where
  \<comment> \<open>\<^verbatim>\<open>query.get()\<close>. A filter or an ordering that the client refuses raises when the
      query is built, which in every operation is before its first round trip; the backend
      refuses a negative offset or limit.\<close>
  "query_get q db =
     (if \<not> query_ok q then (Inl invalid_query, db)
      else if negative (q_offset q) \<or> negative (q_limit q)
      then (Inl (BackendError ''INVALID_ARGUMENT''), log_call (QueryGet q) db)
      else (Inr (window (q_offset q) (q_limit q) (matching db q)), log_call (QueryGet q) db))"

definition query_count :: "query \<Rightarrow> firestore \<Rightarrow> (error + int) \<times> firestore" where
  \<comment> \<open>\<^verbatim>\<open>query.count().get()\<close> of a query with no offset and no limit\<close>
  "query_count q db =
     (if \<not> query_ok q then (Inl invalid_query, db)
      else (Inr (int (length (matching db q))), log_call (QueryCount q) db))"

function slices :: "nat \<Rightarrow> nat \<Rightarrow> 'a list \<Rightarrow> 'a list list" where
  \<comment> \<open>the slices \<^verbatim>\<open>xs.slice(i, i + n)\<close> that the loop
      \<^verbatim>\<open>for (let i = 0; i < xs.length; i += n)\<close> visits; \<open>n\<close> is 500 or 10 in the source\<close>
  "slices n i xs =
     (if i < length xs \<and> 0 < n then take n (drop i xs) # slices n (i + n) xs else [])"
  by pat_completeness auto
termination
  by (relation "measure (\<lambda>(n, i, xs). length xs - i)") auto

declare slices.simps [simp del]

fun map_result :: "('a \<Rightarrow> error + 'b) \<Rightarrow> 'a list \<Rightarrow> error + 'b list" where
  \<comment> \<open>\<^verbatim>\<open>xs.map(f)\<close> for an \<open>f\<close> that may raise: the first error ends the call\<close>
  "map_result f [] = Inr []"
| "map_result f (x # xs) =
     (case f x of
        Inl e \<Rightarrow> Inl e
      | Inr y \<Rightarrow> (case map_result f xs of Inl e \<Rightarrow> Inl e | Inr ys \<Rightarrow> Inr (y # ys)))"

text \<open>The table names are constants of the host framework.\<close>

definition TABLE_THREADS :: string where "TABLE_THREADS = ''mastra_threads''"
definition TABLE_MESSAGES :: string where "TABLE_MESSAGES = ''mastra_messages''"
definition TABLE_RESOURCES :: string where "TABLE_RESOURCES = ''mastra_resources''"
definition TABLE_SCORERS :: string where "TABLE_SCORERS = ''mastra_scorers''"
definition TABLE_TRACES :: string where "TABLE_TRACES = ''mastra_traces''"
definition TABLE_AI_SPANS :: string where "TABLE_AI_SPANS = ''mastra_ai_spans''"
definition TABLE_WORKFLOW_SNAPSHOT :: string where "TABLE_WORKFLOW_SNAPSHOT = ''mastra_workflow_snapshot''"
definition TABLE_EVALS :: string where "TABLE_EVALS = ''mastra_evals''"

definition toDate_or_new :: "js_runtime \<Rightarrow> jsval \<Rightarrow> error + jsval" where
  \<comment> \<open>\<^verbatim>\<open>v?.toDate?.() || new Date(v)\<close>. A timestamp has the method (it rounds the
      nanoseconds to milliseconds) and a date object is always truthy; a map with a stored
      field \<^verbatim>\<open>toDate\<close> has a property of that name that cannot be called.\<close>
  "toDate_or_new rt v =
     (case v of
        Timestamp s n \<Rightarrow> Inr (Date (Some (s * 1000 + (n + 500000) div 1000000)))
      | Obj kvs \<Rightarrow>
          if get kvs ''toDate'' = Undefined \<or> get kvs ''toDate'' = Null then Inr (new_Date rt v)
          else Inl (TypeError ''toDate is not a function'')
      | _ \<Rightarrow> Inr (new_Date rt v))"

record page_info =
  pg_page :: int
  pg_perPage :: int
  pg_total :: int
  pg_hasMore :: bool

section \<open>The domains\<close>

definition and_then :: "error + 'a \<Rightarrow> ('a \<Rightarrow> error + 'b) \<Rightarrow> error + 'b" where
  "and_then r f = (case r of Inl e \<Rightarrow> Inl e | Inr x \<Rightarrow> f x)"

definition dflt :: "'a \<Rightarrow> 'a option \<Rightarrow> 'a" where
  \<comment> \<open>a destructuring default: it applies to \<^verbatim>\<open>undefined\<close>\<close>
  "dflt d v = (case v of None \<Rightarrow> d | Some x \<Rightarrow> x)"

definition where_if :: "string \<Rightarrow> string option \<Rightarrow> query \<Rightarrow> query" where
  \<comment> \<open>\<^verbatim>\<open>if (s) { query = query.where(f, "==", s) }\<close> for an optional string \<open>s\<close>\<close>
  "where_if f s q =
     (case s of None \<Rightarrow> q | Some x \<Rightarrow> if x \<noteq> [] then q_where f Eq (Str x) q else q)"

text \<open>
  The count, the window and the page information are the same lines in every paginated
  listing of the source (\<open>executePaginatedQuery\<close>, \<open>getEvals\<close>,
  \<open>getThreadsByResourceIdPaginated\<close>, \<open>getMessagesPaginated\<close>, \<open>getTracesPaginated\<close>);
  the listings differ in the query, the decoder and the defaults.
\<close>

definition paginate ::
  "(doc option \<Rightarrow> error + doc) \<Rightarrow> query \<Rightarrow> int \<Rightarrow> int \<Rightarrow> firestore
   \<Rightarrow> (error + doc list \<times> page_info) \<times> firestore" where
  "paginate deserialize query page perPage db =
     (case query_count query db of
        (Inl e, db1) \<Rightarrow> (Inl e, db1)
      | (Inr totalCount, db1) \<Rightarrow>
          (let off = (page - 1) * perPage;
               (snapshot, db2) = query_get (limit perPage (offset off query)) db1
           in case snapshot of
                Inl e \<Rightarrow> (Inl e, db2)
              | Inr docs \<Rightarrow>
                  (case map_result (\<lambda>(i, d). deserialize (Some d)) docs of
                     Inl e \<Rightarrow> (Inl e, db2)
                   | Inr rows \<Rightarrow>
                       (Inr (rows,
                          \<lparr> pg_page = page, pg_perPage = perPage, pg_total = totalCount,
                            pg_hasMore = (totalCount > off + perPage) \<rparr>),
                        db2))))"

subsection \<open>Scores\<close>

definition serializeScore :: "doc \<Rightarrow> doc" where
  "serializeScore score =
     [(''id'', get score ''id''),
      (''scorerId'', get score ''scorerId''),
      (''entityId'', get score ''entityId''),
      (''entityType'', get score ''entityType''),
      (''source'', get score ''source''),
      (''runId'', get score ''runId''),
      (''traceId'', get score ''traceId''),
      (''spanId'', get score ''spanId''),
      (''score'', get score ''score''),
      (''metadata'', js_or (get score ''metadata'') (Obj [])),
      (''createdAt'', get score ''createdAt''),
      (''updatedAt'', get score ''updatedAt'')]"

definition deserializeScore :: "js_runtime \<Rightarrow> doc option \<Rightarrow> error + doc" where
  "deserializeScore rt data =
     (case data of
        None \<Rightarrow> Inl (Error ''Score data is undefined'')
      | Some d \<Rightarrow>
          and_then (toDate_or_new rt (get d ''createdAt'')) (\<lambda>createdAt.
          and_then (toDate_or_new rt (get d ''updatedAt'')) (\<lambda>updatedAt.
            Inr [(''id'', get d ''id''),
                 (''scorerId'', get d ''scorerId''),
                 (''entityId'', get d ''entityId''),
                 (''entityType'', get d ''entityType''),
                 (''source'', get d ''source''),
                 (''runId'', get d ''runId''),
                 (''traceId'', get d ''traceId''),
                 (''spanId'', get d ''spanId''),
                 (''score'', get d ''score''),
                 (''metadata'', js_or (get d ''metadata'') (Obj [])),
                 (''createdAt'', createdAt),
                 (''updatedAt'', updatedAt),
                 (''output'', js_or (get d ''output'') (Obj [])),
                 (''input'', js_or (get d ''input'') (Obj [])),
                 (''entity'', js_or (get d ''entity'') (Obj [])),
                 (''scorer'', js_or (get d ''scorer'') (Obj []))])))"

definition saveScore :: "int \<Rightarrow> doc \<Rightarrow> firestore \<Rightarrow> (error + doc) \<times> firestore" where
  \<comment> \<open>\<open>now\<close> is the clock's \<^verbatim>\<open>new Date()\<close>, in milliseconds\<close>
  "saveScore now score db =
     (let (docId, db1) = auto_id db;
          scoreData = spread score
            [(''id'', Str docId), (''createdAt'', Date (Some now)), (''updatedAt'', Date (Some now))]
      in case doc_set TABLE_SCORERS docId (serializeScore scoreData) db1 of
           (Inl e, db2) \<Rightarrow> (Inl e, db2)
         | (Inr u, db2) \<Rightarrow> (Inr scoreData, db2))"

definition executePaginatedQuery ::
  "js_runtime \<Rightarrow> query \<Rightarrow> int option \<Rightarrow> int option \<Rightarrow> firestore
   \<Rightarrow> (error + doc list \<times> page_info) \<times> firestore" where
  "executePaginatedQuery rt query page perPage db =
     paginate (deserializeScore rt) (orderBy ''createdAt'' Desc query) (dflt 1 page) (dflt 20 perPage) db"

definition getScoresByScorerId ::
  "js_runtime \<Rightarrow> string \<Rightarrow> string option \<Rightarrow> string option \<Rightarrow> string option
   \<Rightarrow> int option \<Rightarrow> int option \<Rightarrow> firestore \<Rightarrow> (error + doc list \<times> page_info) \<times> firestore" where
  "getScoresByScorerId rt scorerId entityId entityType source page perPage db =
     (let q = q_where ''scorerId'' Eq (Str scorerId) (collection_ref TABLE_SCORERS);
          q = where_if ''entityId'' entityId q;
          q = where_if ''entityType'' entityType q;
          q = where_if ''source'' source q
      in executePaginatedQuery rt q page perPage db)"

definition getScoresByRunId ::
  "js_runtime \<Rightarrow> string \<Rightarrow> int option \<Rightarrow> int option \<Rightarrow> firestore
   \<Rightarrow> (error + doc list \<times> page_info) \<times> firestore" where
  "getScoresByRunId rt runId page perPage db =
     executePaginatedQuery rt (q_where ''runId'' Eq (Str runId) (collection_ref TABLE_SCORERS))
       page perPage db"

definition getScoresByEntityId ::
  "js_runtime \<Rightarrow> string \<Rightarrow> string \<Rightarrow> int option \<Rightarrow> int option \<Rightarrow> firestore
   \<Rightarrow> (error + doc list \<times> page_info) \<times> firestore" where
  "getScoresByEntityId rt entityId entityType page perPage db =
     (let q = q_where ''entityId'' Eq (Str entityId) (collection_ref TABLE_SCORERS);
          q = where_if ''entityType'' (Some entityType) q
      in executePaginatedQuery rt q page perPage db)"

definition getScoresBySpan ::
  "js_runtime \<Rightarrow> string \<Rightarrow> string \<Rightarrow> int option \<Rightarrow> int option \<Rightarrow> firestore
   \<Rightarrow> (error + doc list \<times> page_info) \<times> firestore" where
  "getScoresBySpan rt traceId spanId page perPage db =
     executePaginatedQuery rt
       (q_where ''spanId'' Eq (Str spanId)
          (q_where ''traceId'' Eq (Str traceId) (collection_ref TABLE_SCORERS)))
       page perPage db"

subsection \<open>Legacy evals\<close>

definition toISOString :: "js_runtime \<Rightarrow> jsval \<Rightarrow> error + jsval" where
  \<comment> \<open>of a \<open>Date\<close>: an Invalid Date raises\<close>
  "toISOString rt v =
     (case v of
        Date (Some ms) \<Rightarrow> Inr (Str (rt_toISOString rt ms))
      | _ \<Rightarrow> Inl (RangeError ''Invalid time value''))"

definition deserializeEval :: "js_runtime \<Rightarrow> doc option \<Rightarrow> error + doc" where
  "deserializeEval rt data =
     (case data of
        None \<Rightarrow> Inl (Error ''Eval data is undefined'')
      | Some d \<Rightarrow>
          and_then (toDate_or_new rt (get d ''createdAt'')) (\<lambda>date.
          and_then (toISOString rt date) (\<lambda>createdAt.
            Inr [(''agentName'', get d ''agentName''),
                 (''input'', get d ''input''),
                 (''output'', get d ''output''),
                 (''result'', js_or (js_or (get d ''result'') (get d ''score'')) (Obj [])),
                 (''metricName'', js_or (get d ''metricName'') (Str ''unknown'')),
                 (''instructions'', js_or (get d ''instructions'') (Str [])),
                 (''runId'', js_or (get d ''runId'') (Str [])),
                 (''globalRunId'', js_or (get d ''globalRunId'') (Str [])),
                 (''testInfo'', get d ''testInfo''),
                 (''createdAt'', createdAt)])))"

definition evals_query :: "string option \<Rightarrow> string option \<Rightarrow> query" where
  "evals_query agentName type =
     (let q = collection_ref TABLE_EVALS;
          q = where_if ''agentName'' agentName q;
          q = where_if ''type'' type q
      in orderBy ''createdAt'' Desc q)"

definition getEvals ::
  "js_runtime \<Rightarrow> string option \<Rightarrow> string option \<Rightarrow> int option \<Rightarrow> int option \<Rightarrow> firestore
   \<Rightarrow> (error + doc list \<times> page_info) \<times> firestore" where
  "getEvals rt agentName type page perPage db =
     paginate (deserializeEval rt) (evals_query agentName type) (dflt 1 page) (dflt 20 perPage) db"

subsection \<open>Traces\<close>

definition serializeTrace :: "int \<Rightarrow> doc \<Rightarrow> doc" where
  "serializeTrace now trace =
     spread trace [(''timestamp'', js_or (get trace ''timestamp'') (Date (Some now)))]"

definition deserializeTrace :: "js_runtime \<Rightarrow> doc option \<Rightarrow> error + doc" where
  "deserializeTrace rt data =
     (case data of
        None \<Rightarrow> Inl (Error ''Trace data is undefined'')
      | Some d \<Rightarrow>
          and_then (toDate_or_new rt (get d ''createdAt'')) (\<lambda>createdAt.
          and_then (toDate_or_new rt (get d ''startTime'')) (\<lambda>startTime.
          and_then (toDate_or_new rt (get d ''endTime'')) (\<lambda>endTime.
            Inr [(''id'', get d ''id''),
                 (''parentSpanId'', get d ''parentSpanId''),
                 (''name'', get d ''name''),
                 (''traceId'', get d ''traceId''),
                 (''attributes'', get d ''attributes''),
                 (''links'', get d ''links''),
                 (''createdAt'', createdAt),
                 (''scope'', get d ''scope''),
                 (''kind'', get d ''kind''),
                 (''status'', get d ''status''),
                 (''events'', js_or (get d ''events'') (Arr [])),
                 (''other'', js_or (get d ''other'') (Arr [])),
                 (''startTime'', startTime),
                 (''endTime'', endTime)]))))"

definition traces_query :: "jsval \<Rightarrow> jsval \<Rightarrow> query" where
  "traces_query fromDate toDate =
     (let q = collection_ref TABLE_TRACES;
          q = (if truthy fromDate then q_where ''timestamp'' Ge fromDate q else q);
          q = (if truthy toDate then q_where ''timestamp'' Le toDate q else q)
      in orderBy ''timestamp'' Desc q)"

definition getTracesPaginated ::
  "js_runtime \<Rightarrow> int option \<Rightarrow> int option \<Rightarrow> jsval \<Rightarrow> jsval \<Rightarrow> firestore
   \<Rightarrow> (error + doc list \<times> page_info) \<times> firestore" where
  \<comment> \<open>no default: with \<open>page\<close> or \<open>perPage\<close> \<^verbatim>\<open>undefined\<close> the offset is \<^verbatim>\<open>NaN\<close>, which
      \<^verbatim>\<open>query.offset\<close> refuses after the count has been fetched\<close>
  "getTracesPaginated rt page perPage fromDate toDate db =
     (case (page, perPage) of
        (Some p, Some pp) \<Rightarrow> paginate (deserializeTrace rt) (traces_query fromDate toDate) p pp db
      | _ \<Rightarrow>
          (case query_count (traces_query fromDate toDate) db of
             (Inl e, db1) \<Rightarrow> (Inl e, db1)
           | (Inr totalCount, db1) \<Rightarrow>
               (Inl (Error ''Value for argument offset is not a valid integer.''), db1)))"

subsection \<open>Generic operations\<close>

definition own_id :: "doc \<Rightarrow> string option" where
  \<comment> \<open>\<^verbatim>\<open>record.id && typeof record.id === "string"\<close>\<close>
  "own_id r = (case get r ''id'' of Str s \<Rightarrow> if s \<noteq> [] then Some s else None | _ \<Rightarrow> None)"

definition insert_record ::
  "js_runtime \<Rightarrow> string \<Rightarrow> doc \<Rightarrow> firestore \<Rightarrow> (error + unit) \<times> firestore" where
  \<comment> \<open>\<open>StoreOperationsFirestore.insert\<close>; \<^verbatim>\<open>add\<close> is a \<^verbatim>\<open>set\<close> under a generated id\<close>
  "insert_record rt tableName r db =
     (case own_id r of
        Some i \<Rightarrow>
          (case doc_ref tableName (Str i) of
             Inl e \<Rightarrow> (Inl e, db)
           | Inr (c, j) \<Rightarrow> doc_set c j (serializeRecord rt r) db)
      | None \<Rightarrow> (let (i, db1) = auto_id db in doc_set tableName i (serializeRecord rt r) db1))"

fun batchInsert_batch ::
  "js_runtime \<Rightarrow> string \<Rightarrow> doc list \<Rightarrow> batch_write list \<Rightarrow> firestore
   \<Rightarrow> (error + batch_write list) \<times> firestore" where
  "batchInsert_batch rt tableName [] batch db = (Inr batch, db)"
| "batchInsert_batch rt tableName (r # rs) batch db =
     (case own_id r of
        Some i \<Rightarrow>
          (case doc_ref tableName (Str i) of
             Inl e \<Rightarrow> (Inl e, db)
           | Inr (c, j) \<Rightarrow>
               (case batch_set c j (serializeRecord rt r) batch of
                  Inl e \<Rightarrow> (Inl e, db)
                | Inr batch' \<Rightarrow> batchInsert_batch rt tableName rs batch' db))
      | None \<Rightarrow>
          (let (i, db1) = auto_id db
           in case batch_set tableName i (serializeRecord rt r) batch of
                Inl e \<Rightarrow> (Inl e, db1)
              | Inr batch' \<Rightarrow> batchInsert_batch rt tableName rs batch' db1))"

fun batchInsert_loop ::
  "js_runtime \<Rightarrow> string \<Rightarrow> doc list list \<Rightarrow> firestore \<Rightarrow> (error + unit) \<times> firestore" where
  "batchInsert_loop rt tableName [] db = (Inr (), db)"
| "batchInsert_loop rt tableName (batchRecords # rest) db =
     (case batchInsert_batch rt tableName batchRecords [] db of
        (Inl e, db1) \<Rightarrow> (Inl e, db1)
      | (Inr batch, db1) \<Rightarrow> batchInsert_loop rt tableName rest (commit batch db1))"

definition batchInsert ::
  "js_runtime \<Rightarrow> string \<Rightarrow> doc list \<Rightarrow> firestore \<Rightarrow> (error + unit) \<times> firestore" where
  "batchInsert rt tableName records db = batchInsert_loop rt tableName (slices 500 0 records) db"

definition keys_query :: "string \<Rightarrow> (string \<times> string) list \<Rightarrow> query" where
  \<comment> \<open>one equality filter for each entry of \<open>keys\<close>\<close>
  "keys_query tableName keys =
     fold (\<lambda>(key, v) q. q_where key Eq (Str v) q) keys (collection_ref tableName)"

definition load ::
  "js_runtime \<Rightarrow> string \<Rightarrow> (string \<times> string) list \<Rightarrow> firestore \<Rightarrow> (error + doc option) \<times> firestore" where
  \<comment> \<open>the result is the record or \<^verbatim>\<open>null\<close>\<close>
  "load rt tableName keys db =
     (case (case map_of keys ''id'' of Some i \<Rightarrow> if i \<noteq> [] then Some i else None | None \<Rightarrow> None) of
        Some i \<Rightarrow>
          (case doc_ref tableName (Str i) of
             Inl e \<Rightarrow> (Inl e, db)
           | Inr (c, j) \<Rightarrow>
               (let (snap, db1) = doc_get c j db
                in case snap of
                     None \<Rightarrow> (Inr None, db1)
                   | Some data \<Rightarrow> (Inr (Some (deserializeRecord rt (Some data))), db1)))
      | None \<Rightarrow>
          (let query = keys_query tableName keys;
               (snapshot, db1) = query_get (limit 1 query) db
           in case snapshot of
                Inl e \<Rightarrow> (Inl e, db1)
              | Inr [] \<Rightarrow> (Inr None, db1)
              | Inr ((i, data) # others) \<Rightarrow> (Inr (Some (deserializeRecord rt (Some data))), db1)))"

subsection \<open>Traces: the batch insert\<close>

fun batchTraceInsert_batch ::
  "int \<Rightarrow> doc list \<Rightarrow> batch_write list \<Rightarrow> firestore \<Rightarrow> (error + batch_write list) \<times> firestore" where
  "batchTraceInsert_batch now [] batch db = (Inr batch, db)"
| "batchTraceInsert_batch now (r # rs) batch db =
     (if truthy (get r ''id'')
      then (case doc_ref TABLE_TRACES (get r ''id'') of
              Inl e \<Rightarrow> (Inl e, db)
            | Inr (c, j) \<Rightarrow>
                (case batch_set c j (serializeTrace now r) batch of
                   Inl e \<Rightarrow> (Inl e, db)
                 | Inr batch' \<Rightarrow> batchTraceInsert_batch now rs batch' db))
      else (let (i, db1) = auto_id db
            in case batch_set TABLE_TRACES i (serializeTrace now r) batch of
                 Inl e \<Rightarrow> (Inl e, db1)
               | Inr batch' \<Rightarrow> batchTraceInsert_batch now rs batch' db1))"

fun batchTraceInsert_loop :: "int \<Rightarrow> doc list list \<Rightarrow> firestore \<Rightarrow> (error + unit) \<times> firestore" where
  "batchTraceInsert_loop now [] db = (Inr (), db)"
| "batchTraceInsert_loop now (batchRecords # rest) db =
     (case batchTraceInsert_batch now batchRecords [] db of
        (Inl e, db1) \<Rightarrow> (Inl e, db1)
      | (Inr batch, db1) \<Rightarrow> batchTraceInsert_loop now rest (commit batch db1))"

definition batchTraceInsert :: "int \<Rightarrow> doc list \<Rightarrow> firestore \<Rightarrow> (error + unit) \<times> firestore" where
  "batchTraceInsert now records db =
     (if length records = 0 then (Inr (), db)
      else batchTraceInsert_loop now (slices 500 0 records) db)"

subsection \<open>Observability\<close>

definition createAISpan ::
  "js_runtime \<Rightarrow> int \<Rightarrow> doc \<Rightarrow> firestore \<Rightarrow> (error + unit) \<times> firestore" where
  "createAISpan rt now aispan db =
     insert_record rt TABLE_AI_SPANS
       (spread aispan [(''createdAt'', js_or (get aispan ''createdAt'') (Date (Some now)))]) db"

definition updateAISpan ::
  "js_runtime \<Rightarrow> int \<Rightarrow> string \<Rightarrow> string \<Rightarrow> doc \<Rightarrow> firestore \<Rightarrow> (error + unit) \<times> firestore" where
  "updateAISpan rt now spanId traceId updates db =
     (let (loaded, db1) = load rt TABLE_AI_SPANS [(''spanId'', spanId), (''traceId'', traceId)] db
      in case loaded of
           Inl e \<Rightarrow> (Inl e, db1)
         | Inr None \<Rightarrow> (Inl (Error (''Span '' @ spanId @ '' in trace '' @ traceId @ '' not found'')), db1)
         | Inr (Some existingSpan) \<Rightarrow>
             (let updatedSpan =
                    spread (spread existingSpan updates)
                      [(''spanId'', Str spanId), (''traceId'', Str traceId), (''updatedAt'', Date (Some now))]
              in insert_record rt TABLE_AI_SPANS updatedSpan db1))"

definition js_slice :: "'a list \<Rightarrow> int \<Rightarrow> int \<Rightarrow> 'a list" where
  \<comment> \<open>\<^verbatim>\<open>Array.prototype.slice(start, end)\<close>: a negative index counts from the end\<close>
  "js_slice xs start end' =
     (let len = int (length xs);
          k = (if start < 0 then max (len + start) 0 else min start len);
          final = (if end' < 0 then max (len + end') 0 else min end' len)
      in take (nat (final - k)) (drop (nat k) xs))"

definition call_slice :: "jsval \<Rightarrow> int \<Rightarrow> int \<Rightarrow> error + jsval" where
  \<comment> \<open>\<^verbatim>\<open>spans.slice(a, b)\<close>: a stored record has no method of that name\<close>
  "call_slice spans a b =
     (case spans of
        Arr xs \<Rightarrow> Inr (Arr (js_slice xs a b))
      | _ \<Rightarrow> Inl (TypeError ''spans.slice is not a function''))"

definition js_gt :: "js_runtime \<Rightarrow> jsval \<Rightarrow> int \<Rightarrow> bool" where
  \<comment> \<open>\<^verbatim>\<open>v > n\<close> for an integer \<open>n\<close>\<close>
  "js_gt rt v n =
     (case to_number rt v of Finite r \<Rightarrow> of_int n < r | PosInf \<Rightarrow> True | _ \<Rightarrow> False)"

record ai_traces_page =
  ap_spans :: jsval
  ap_page :: int
  ap_perPage :: int
  ap_total :: jsval
  ap_hasMore :: bool

record ai_filters =
  f_name :: "string option"
  f_spanType :: "string option"
  f_entityId :: "string option"
  f_entityType :: "string option"

definition ai_keys :: "ai_filters option \<Rightarrow> (string \<times> string) list" where
  "ai_keys filters =
     (case filters of
        None \<Rightarrow> []
      | Some f \<Rightarrow>
          (let keys = [];
               keys = (case f_name f of Some x \<Rightarrow> obj_set ''name'' x keys | None \<Rightarrow> keys);
               keys = (case f_spanType f of Some x \<Rightarrow> obj_set ''spanType'' x keys | None \<Rightarrow> keys);
               keys = (case f_entityId f of Some x \<Rightarrow> obj_set ''entityId'' x keys | None \<Rightarrow> keys);
               keys = (case f_entityType f of Some x \<Rightarrow> obj_set ''entityType'' x keys | None \<Rightarrow> keys)
           in keys))"

definition pagination_page :: "(int option \<times> int option) option \<Rightarrow> int" where
  \<comment> \<open>\<open>page\<close> of \<^verbatim>\<open>const { page = 1, perPage = 20 } = pagination || {}\<close>\<close>
  "pagination_page pagination = (case pagination of Some (p, pp) \<Rightarrow> dflt 1 p | None \<Rightarrow> 1)"

definition pagination_perPage :: "(int option \<times> int option) option \<Rightarrow> int" where
  "pagination_perPage pagination = (case pagination of Some (p, pp) \<Rightarrow> dflt 20 pp | None \<Rightarrow> 20)"

definition getAITracesPaginated ::
  "js_runtime \<Rightarrow> ai_filters option \<Rightarrow> (int option \<times> int option) option \<Rightarrow> firestore
   \<Rightarrow> (error + ai_traces_page) \<times> firestore" where
  "getAITracesPaginated rt filters pagination db =
     (let page = pagination_page pagination;
          perPage = pagination_perPage pagination;
          (loaded, db1) = load rt TABLE_AI_SPANS (ai_keys filters) db
      in case loaded of
           Inl e \<Rightarrow> (Inl e, db1)
         | Inr allSpans \<Rightarrow>
             (let spans = (case allSpans of Some r \<Rightarrow> Obj r | None \<Rightarrow> Arr []);
                  totalCount = get_prop spans ''length'';
                  off = (page - 1) * perPage
              in case call_slice spans off (off + perPage) of
                   Inl e \<Rightarrow> (Inl e, db1)
                 | Inr paginatedSpans \<Rightarrow>
                     (Inr \<lparr> ap_spans = paginatedSpans, ap_page = page, ap_perPage = perPage,
                            ap_total = totalCount, ap_hasMore = js_gt rt totalCount (off + perPage) \<rparr>,
                      db1)))"

subsection \<open>Memory: threads, messages, resources\<close>

datatype message_format = V1 | V2

definition serializeThread :: "doc \<Rightarrow> doc" where
  "serializeThread thread =
     [(''id'', get thread ''id''),
      (''resourceId'', get thread ''resourceId''),
      (''title'', get thread ''title''),
      (''metadata'', js_or (get thread ''metadata'') (Obj [])),
      (''createdAt'', get thread ''createdAt''),
      (''updatedAt'', get thread ''updatedAt'')]"

definition deserializeThread :: "js_runtime \<Rightarrow> doc option \<Rightarrow> error + doc" where
  "deserializeThread rt data =
     (case data of
        None \<Rightarrow> Inl (Error ''Thread data is undefined'')
      | Some d \<Rightarrow>
          and_then (toDate_or_new rt (get d ''createdAt'')) (\<lambda>createdAt.
          and_then (toDate_or_new rt (get d ''updatedAt'')) (\<lambda>updatedAt.
            Inr [(''id'', get d ''id''),
                 (''resourceId'', get d ''resourceId''),
                 (''title'', get d ''title''),
                 (''metadata'', js_or (get d ''metadata'') (Obj [])),
                 (''createdAt'', createdAt),
                 (''updatedAt'', updatedAt)])))"

definition serializeMessage :: "doc \<Rightarrow> doc" where
  "serializeMessage message = spread message [(''createdAt'', get message ''createdAt'')]"

definition deserializeMessage :: "js_runtime \<Rightarrow> doc option \<Rightarrow> message_format \<Rightarrow> error + doc" where
  \<comment> \<open>the format only picks the static type of the result\<close>
  "deserializeMessage rt data format =
     (case data of
        None \<Rightarrow> Inl (Error ''Message data is undefined'')
      | Some d \<Rightarrow>
          and_then (toDate_or_new rt (get d ''createdAt'')) (\<lambda>createdAt.
            (let baseMessage = spread d [(''createdAt'', createdAt)]
             in if format = V1 then Inr baseMessage else Inr baseMessage)))"

definition serializeResource :: "doc \<Rightarrow> doc" where
  "serializeResource resource =
     [(''id'', get resource ''id''),
      (''workingMemory'', js_or (get resource ''workingMemory'') (Str [])),
      (''metadata'', js_or (get resource ''metadata'') (Obj [])),
      (''createdAt'', get resource ''createdAt''),
      (''updatedAt'', get resource ''updatedAt'')]"

definition deserializeResource :: "js_runtime \<Rightarrow> doc option \<Rightarrow> error + doc" where
  "deserializeResource rt data =
     (case data of
        None \<Rightarrow> Inl (Error ''Resource data is undefined'')
      | Some d \<Rightarrow>
          and_then (toDate_or_new rt (get d ''createdAt'')) (\<lambda>createdAt.
          and_then (toDate_or_new rt (get d ''updatedAt'')) (\<lambda>updatedAt.
            Inr [(''id'', get d ''id''),
                 (''workingMemory'', js_or (get d ''workingMemory'') (Str [])),
                 (''metadata'', js_or (get d ''metadata'') (Obj [])),
                 (''createdAt'', createdAt),
                 (''updatedAt'', updatedAt)])))"

definition threads_query :: "string \<Rightarrow> string option \<Rightarrow> string option \<Rightarrow> query" where
  "threads_query resourceId orderBy' sortDirection =
     (let ob = dflt ''createdAt'' orderBy';
          sd = dflt ''ASC'' sortDirection;
          q = q_where ''resourceId'' Eq (Str resourceId) (collection_ref TABLE_THREADS)
      in if ob \<noteq> [] \<and> sd \<noteq> [] then orderBy ob (if sd = ''ASC'' then Asc else Desc) q else q)"

definition getThreadsByResourceIdPaginated ::
  "js_runtime \<Rightarrow> string \<Rightarrow> int option \<Rightarrow> int option \<Rightarrow> string option \<Rightarrow> string option
   \<Rightarrow> firestore \<Rightarrow> (error + doc list \<times> page_info) \<times> firestore" where
  "getThreadsByResourceIdPaginated rt resourceId page perPage orderBy' sortDirection db =
     paginate (deserializeThread rt) (threads_query resourceId orderBy' sortDirection)
       (dflt 1 page) (dflt 20 perPage) db"

definition saveThread :: "int \<Rightarrow> doc \<Rightarrow> firestore \<Rightarrow> (error + doc) \<times> firestore" where
  "saveThread now thread db =
     (case doc_ref TABLE_THREADS (get thread ''id'') of
        Inl e \<Rightarrow> (Inl e, db)
      | Inr (c, i) \<Rightarrow>
          (let threadData = spread thread
                 [(''createdAt'', js_or (get thread ''createdAt'') (Date (Some now))),
                  (''updatedAt'', Date (Some now))]
           in case doc_set c i (serializeThread threadData) db of
                (Inl e, db1) \<Rightarrow> (Inl e, db1)
              | (Inr u, db1) \<Rightarrow> (Inr threadData, db1)))"

definition updateThread ::
  "js_runtime \<Rightarrow> int \<Rightarrow> string \<Rightarrow> jsval \<Rightarrow> jsval \<Rightarrow> firestore \<Rightarrow> (error + doc) \<times> firestore" where
  "updateThread rt now id' title metadata db =
     (case doc_ref TABLE_THREADS (Str id') of
        Inl e \<Rightarrow> (Inl e, db)
      | Inr (c, i) \<Rightarrow>
          (let (snap, db1) = doc_get c i db
           in case snap of
                None \<Rightarrow> (Inl (Error (''Thread '' @ id' @ '' not found'')), db1)
              | Some existing \<Rightarrow>
                  (let updates = [(''title'', title), (''metadata'', metadata),
                                  (''updatedAt'', Date (Some now))];
                       (r, db2) = doc_update c i updates db1
                   in case r of
                        Inl e \<Rightarrow> (Inl e, db2)
                      | Inr u \<Rightarrow>
                          (let (updatedDoc, db3) = doc_get c i db2
                           in (deserializeThread rt updatedDoc, db3)))))"

definition deleteThread :: "string \<Rightarrow> firestore \<Rightarrow> (error + unit) \<times> firestore" where
  "deleteThread threadId db =
     (case doc_ref TABLE_THREADS (Str threadId) of
        Inl e \<Rightarrow> (Inl e, db)
      | Inr (c, i) \<Rightarrow>
          (let db1 = doc_delete c i db;
               messagesQuery = q_where ''threadId'' Eq (Str threadId) (collection_ref TABLE_MESSAGES);
               (messagesSnapshot, db2) = query_get messagesQuery db1
           in case messagesSnapshot of
                Inl e \<Rightarrow> (Inl e, db2)
              | Inr docs \<Rightarrow>
                  (let batch = fold (\<lambda>(i, d) b. b @ [WDelete TABLE_MESSAGES i]) docs []
                   in if length docs > 0 then (Inr (), commit batch db2) else (Inr (), db2))))"

definition ids_query :: "string list \<Rightarrow> query" where
  \<comment> \<open>\<^verbatim>\<open>collection(TABLE_MESSAGES).where("id", "in", batchIds)\<close>\<close>
  "ids_query batchIds = q_where ''id'' In_op (Arr (map Str batchIds)) (collection_ref TABLE_MESSAGES)"

fun getMessagesById_loop ::
  "js_runtime \<Rightarrow> message_format \<Rightarrow> string list list \<Rightarrow> doc list \<Rightarrow> firestore
   \<Rightarrow> (error + doc list) \<times> firestore" where
  "getMessagesById_loop rt format [] messages db = (Inr messages, db)"
| "getMessagesById_loop rt format (batchIds # rest) messages db =
     (let query = ids_query batchIds;
          (snapshot, db1) = query_get query db
      in case snapshot of
           Inl e \<Rightarrow> (Inl e, db1)
         | Inr docs \<Rightarrow>
             (case map_result (\<lambda>(i, d). deserializeMessage rt (Some d) format) docs of
                Inl e \<Rightarrow> (Inl e, db1)
              | Inr batchMessages \<Rightarrow> getMessagesById_loop rt format rest (messages @ batchMessages) db1))"

definition getMessagesById ::
  "js_runtime \<Rightarrow> string list \<Rightarrow> message_format option \<Rightarrow> firestore \<Rightarrow> (error + doc list) \<times> firestore" where
  "getMessagesById rt messageIds format db =
     (if length messageIds = 0 then (Inr [], db)
      else getMessagesById_loop rt (dflt V2 format) (slices 10 0 messageIds) [] db)"

record select_by =
  sb_include :: "string list option"
  sb_pagination :: "(int option \<times> int option) option"

definition messages_page :: "select_by option \<Rightarrow> int" where
  \<comment> \<open>\<open>page\<close> of \<^verbatim>\<open>const { page = 1, perPage = 20 } = pagination || {}\<close>\<close>
  "messages_page selectBy =
     pagination_page (case selectBy of Some s \<Rightarrow> sb_pagination s | None \<Rightarrow> None)"

definition messages_perPage :: "select_by option \<Rightarrow> int" where
  "messages_perPage selectBy =
     pagination_perPage (case selectBy of Some s \<Rightarrow> sb_pagination s | None \<Rightarrow> None)"

definition messages_query :: "string \<Rightarrow> select_by option \<Rightarrow> query" where
  "messages_query threadId selectBy =
     (let q = q_where ''threadId'' Eq (Str threadId) (collection_ref TABLE_MESSAGES);
          q = (case selectBy of
                 Some s \<Rightarrow>
                   (case sb_include s of
                      Some incl \<Rightarrow> fold (\<lambda>i q'. q_where ''id'' Eq (Str i) q') incl q
                    | None \<Rightarrow> q)
               | None \<Rightarrow> q)
      in orderBy ''createdAt'' Asc q)"

definition getMessagesPaginated ::
  "js_runtime \<Rightarrow> string \<Rightarrow> select_by option \<Rightarrow> message_format option \<Rightarrow> firestore
   \<Rightarrow> (error + doc list \<times> page_info) \<times> firestore" where
  "getMessagesPaginated rt threadId selectBy format db =
     paginate (\<lambda>data. deserializeMessage rt data (dflt V2 format)) (messages_query threadId selectBy)
       (messages_page selectBy) (messages_perPage selectBy) db"

fun saveMessages_batch :: "int \<Rightarrow> doc list \<Rightarrow> batch_write list \<Rightarrow> error + batch_write list" where
  "saveMessages_batch now [] batch = Inr batch"
| "saveMessages_batch now (message # rest) batch =
     (case doc_ref TABLE_MESSAGES (get message ''id'') of
        Inl e \<Rightarrow> Inl e
      | Inr (c, i) \<Rightarrow>
          (let messageData = spread message
                 [(''createdAt'', js_or (get message ''createdAt'') (Date (Some now)))]
           in case batch_set c i (serializeMessage messageData) batch of
                Inl e \<Rightarrow> Inl e
              | Inr batch' \<Rightarrow> saveMessages_batch now rest batch'))"

definition saveMessages :: "int \<Rightarrow> doc list \<Rightarrow> firestore \<Rightarrow> (error + doc list) \<times> firestore" where
  "saveMessages now messages db =
     (if length messages = 0 then (Inr [], db)
      else (case saveMessages_batch now messages [] of
              Inl e \<Rightarrow> (Inl e, db)
            | Inr batch \<Rightarrow> (Inr messages, commit batch db)))"

fun deleteMessages_batch :: "string list \<Rightarrow> batch_write list \<Rightarrow> error + batch_write list" where
  "deleteMessages_batch [] batch = Inr batch"
| "deleteMessages_batch (id' # rest) batch =
     (case doc_ref TABLE_MESSAGES (Str id') of
        Inl e \<Rightarrow> Inl e
      | Inr (c, i) \<Rightarrow> deleteMessages_batch rest (batch @ [WDelete c i]))"

fun deleteMessages_loop :: "string list list \<Rightarrow> firestore \<Rightarrow> (error + unit) \<times> firestore" where
  "deleteMessages_loop [] db = (Inr (), db)"
| "deleteMessages_loop (batchIds # rest) db =
     (case deleteMessages_batch batchIds [] of
        Inl e \<Rightarrow> (Inl e, db)
      | Inr batch \<Rightarrow> deleteMessages_loop rest (commit batch db))"

definition deleteMessages :: "string list \<Rightarrow> firestore \<Rightarrow> (error + unit) \<times> firestore" where
  "deleteMessages messageIds db =
     (if length messageIds = 0 then (Inr (), db)
      else deleteMessages_loop (slices 500 0 messageIds) db)"

definition saveResource :: "int \<Rightarrow> doc \<Rightarrow> firestore \<Rightarrow> (error + doc) \<times> firestore" where
  "saveResource now resource db =
     (case doc_ref TABLE_RESOURCES (get resource ''id'') of
        Inl e \<Rightarrow> (Inl e, db)
      | Inr (c, i) \<Rightarrow>
          (let resourceData = spread resource
                 [(''createdAt'', js_or (get resource ''createdAt'') (Date (Some now))),
                  (''updatedAt'', Date (Some now))]
           in case doc_set c i (serializeResource resourceData) db of
                (Inl e, db1) \<Rightarrow> (Inl e, db1)
              | (Inr u, db1) \<Rightarrow> (Inr resourceData, db1)))"

definition updateResource ::
  "js_runtime \<Rightarrow> int \<Rightarrow> string \<Rightarrow> jsval \<Rightarrow> jsval \<Rightarrow> firestore \<Rightarrow> (error + doc) \<times> firestore" where
  "updateResource rt now resourceId workingMemory metadata db =
     (case doc_ref TABLE_RESOURCES (Str resourceId) of
        Inl e \<Rightarrow> (Inl e, db)
      | Inr (c, i) \<Rightarrow>
          (let (snap, db1) = doc_get c i db
           in case snap of
                None \<Rightarrow> (Inl (Error (''Resource '' @ resourceId @ '' not found'')), db1)
              | Some existing \<Rightarrow>
                  (let updates = [(''updatedAt'', Date (Some now))];
                       updates = (if workingMemory \<noteq> Undefined
                                  then obj_set ''workingMemory'' workingMemory updates else updates);
                       updates = (if metadata \<noteq> Undefined
                                  then obj_set ''metadata'' metadata updates else updates);
                       (r, db2) = doc_update c i updates db1
                   in case r of
                        Inl e \<Rightarrow> (Inl e, db2)
                      | Inr u \<Rightarrow>
                          (let (updatedDoc, db3) = doc_get c i db2
                           in (deserializeResource rt updatedDoc, db3)))))"

subsection \<open>Workflows\<close>

definition deserializeWorkflowRunState :: "js_runtime \<Rightarrow> doc option \<Rightarrow> error + doc" where
  "deserializeWorkflowRunState rt data =
     (case data of
        None \<Rightarrow> Inl (Error ''Workflow run state data is undefined'')
      | Some d \<Rightarrow>
          and_then (toDate_or_new rt (get d ''timestamp'')) (\<lambda>timestamp.
            Inr [(''runId'', get d ''runId''),
                 (''status'', get d ''status''),
                 (''result'', get d ''result''),
                 (''runtimeContext'', js_or (get d ''runtimeContext'') (Obj [])),
                 (''error'', get d ''error''),
                 (''suspendedPaths'', js_or (get d ''suspendedPaths'') (Obj [])),
                 (''waitingPaths'', js_or (get d ''waitingPaths'') (Obj [])),
                 (''timestamp'', timestamp),
                 (''value'', js_or (get d ''value'') (Obj [])),
                 (''context'', js_or (get d ''context'') (Obj [])),
                 (''serializedStepGraph'', js_or (get d ''serializedStepGraph'') (Arr [])),
                 (''activePaths'', js_or (get d ''activePaths'') (Arr []))]))"

definition snapshot_id :: "string \<Rightarrow> string \<Rightarrow> string" where
  "snapshot_id workflowName runId = workflowName @ ''_'' @ runId"



record workflow_state_opts =
  ws_status :: jsval
  ws_result :: jsval
  ws_error :: jsval
  ws_suspendedPaths :: jsval
  ws_waitingPaths :: jsval

definition updateWorkflowState ::
  "js_runtime \<Rightarrow> int \<Rightarrow> string \<Rightarrow> string \<Rightarrow> workflow_state_opts \<Rightarrow> firestore
   \<Rightarrow> (error + doc option) \<times> firestore" where
  \<comment> \<open>\<open>Inr None\<close> is the result \<^verbatim>\<open>undefined\<close>\<close>
  "updateWorkflowState rt now workflowName runId opts db =
     (case doc_ref TABLE_WORKFLOW_SNAPSHOT (Str (snapshot_id workflowName runId)) of
        Inl e \<Rightarrow> (Inl e, db)
      | Inr (c, i) \<Rightarrow>
          (let (snap, db1) = doc_get c i db
           in case snap of
                None \<Rightarrow> (Inr None, db1)
              | Some existing \<Rightarrow>
                  (let updates = [(''status'', ws_status opts), (''updatedAt'', Date (Some now))];
                       updates = (if ws_result opts \<noteq> Undefined
                                  then obj_set ''result'' (ws_result opts) updates else updates);
                       updates = (if ws_error opts \<noteq> Undefined
                                  then obj_set ''error'' (ws_error opts) updates else updates);
                       updates = (if ws_suspendedPaths opts \<noteq> Undefined
                                  then obj_set ''suspendedPaths'' (ws_suspendedPaths opts) updates
                                  else updates);
                       updates = (if ws_waitingPaths opts \<noteq> Undefined
                                  then obj_set ''waitingPaths'' (ws_waitingPaths opts) updates
                                  else updates);
                       (r, db2) = doc_update c i updates db1
                   in case r of
                        Inl e \<Rightarrow> (Inl e, db2)
                      | Inr u \<Rightarrow>
                          (let (updatedDoc, db3) = doc_get c i db2
                           in (map_sum id Some (deserializeWorkflowRunState rt updatedDoc), db3)))))"

section \<open>Notions of the statements\<close>

subsection \<open>Records the codec supports\<close>

fun plain_json :: "jsval \<Rightarrow> bool" where
  "plain_json (Arr xs) = list_all plain_json xs"
| "plain_json (Obj kvs) = list_all (\<lambda>(k, v). plain_json v) kvs"
| "plain_json (Num n) = (case n of Finite r \<Rightarrow> True | _ \<Rightarrow> False)"
| "plain_json Null = True"
| "plain_json (Bool b) = True"
| "plain_json (Str s) = True"
| "plain_json _ = False"



subsection \<open>Pages and their order\<close>

definition page_ok :: "doc list \<Rightarrow> page_info \<Rightarrow> int \<Rightarrow> int \<Rightarrow> int \<Rightarrow> bool" where
  \<comment> \<open>the page information of a page of \<open>rows\<close>, of a listing that counts \<open>n\<close> records\<close>
  "page_ok rows info page perPage n =
     (int (length rows) \<le> perPage
      \<and> pg_page info = page \<and> pg_perPage info = perPage \<and> pg_total info = n
      \<and> pg_hasMore info = (n > (page - 1) * perPage + perPage))"

definition satisfying :: "firestore \<Rightarrow> query \<Rightarrow> (string \<times> doc) list" where
  \<comment> \<open>the records of the query's table that satisfy every filter of the query\<close>
  "satisfying db q =
     filter (\<lambda>(i, d). list_all (sat d) (q_filters q)) (collections db (q_collection q))"

definition counted :: "firestore \<Rightarrow> query \<Rightarrow> int" where
  \<comment> \<open>the number of those that have the field the query is ordered by\<close>
  "counted db q =
     int (length (filter (\<lambda>(i, d). case q_orderBy q of
                                      Some (f, dir) \<Rightarrow> field_of d f \<noteq> None
                                    | None \<Rightarrow> True)
                    (satisfying db q)))"

definition page_of ::
  "(doc option \<Rightarrow> error + doc) \<Rightarrow> (string \<times> doc) list \<Rightarrow> int \<Rightarrow> int \<Rightarrow> doc list \<Rightarrow> bool" where
  \<comment> \<open>\<open>rows\<close> is the decoded window of the page in the matched documents\<close>
  "page_of deser docs page perPage rows =
     (map_result (\<lambda>(i, d). deser (Some d)) (take (nat perPage) (drop (nat ((page - 1) * perPage)) docs))
      = Inr rows)"

definition asc_by :: "string \<Rightarrow> (string \<times> doc) list \<Rightarrow> bool" where
  \<comment> \<open>the documents are in ascending order of the field\<close>
  "asc_by f ds = sorted_wrt (\<lambda>a b. order_key (snd a) f \<le> order_key (snd b) f) ds"

definition desc_by :: "string \<Rightarrow> (string \<times> doc) list \<Rightarrow> bool" where
  \<comment> \<open>the documents are in descending order of the field\<close>
  "desc_by f ds = sorted_wrt (\<lambda>a b. order_key (snd b) f \<le> order_key (snd a) f) ds"

subsection \<open>Batches\<close>

fun commit_sizes :: "call list \<Rightarrow> nat list" where
  \<comment> \<open>the number of writes of each batch committed, in the order of the commits\<close>
  "commit_sizes [] = []"
| "commit_sizes (Commit ws # cs) = length ws # commit_sizes cs"
| "commit_sizes (c # cs) = commit_sizes cs"

definition thread_messages :: "string \<Rightarrow> firestore \<Rightarrow> (string \<times> doc) list" where
  \<comment> \<open>the stored messages of a thread\<close>
  "thread_messages threadId db =
     filter (\<lambda>(i, d). map_of d ''threadId'' = Some (Str threadId)) (collections db TABLE_MESSAGES)"

definition insertable :: "js_runtime \<Rightarrow> string \<Rightarrow> doc \<Rightarrow> bool" where
  \<comment> \<open>a record whose encoded form a write accepts, under a generated id or a valid id of
      its own without a slash\<close>
  "insertable rt t r =
     (storable_doc (serializeRecord rt r)
      \<and> (case own_id r of Some i \<Rightarrow> id_ok i \<and> CHR ''/'' \<notin> set i | None \<Rightarrow> True))"

subsection \<open>Messages by id\<close>

definition matched_messages :: "firestore \<Rightarrow> string list list \<Rightarrow> (string \<times> doc) list" where
  \<comment> \<open>what the queries of the chunks match, one query per chunk\<close>
  "matched_messages db chunks = concat (map (\<lambda>c. matching db (ids_query c)) chunks)"

definition messages_with_id :: "firestore \<Rightarrow> string list \<Rightarrow> (string \<times> doc) set" where
  \<comment> \<open>the stored messages whose field \<open>id\<close> is one of the ids\<close>
  "messages_with_id db ids =
     set (filter (\<lambda>(i, d). list_ex (\<lambda>m. map_of d ''id'' = Some (Str m)) ids)
            (collections db TABLE_MESSAGES))"

subsection \<open>Writes\<close>

fun message_write :: "int \<Rightarrow> doc \<Rightarrow> batch_write \<Rightarrow> bool" where
  \<comment> \<open>the write \<open>saveMessages\<close> issues for a message: to the document the message's id
      names, with a creation time and with the caller's \<open>updatedAt\<close> or none\<close>
  "message_write now m (WSet c i d) =
     (doc_ref TABLE_MESSAGES (get m ''id'') = Inr (c, i)
      \<and> get d ''createdAt'' = js_or (get m ''createdAt'') (Date (Some now))
      \<and> get d ''updatedAt'' = get m ''updatedAt'')"
| "message_write now m w = False"



subsection \<open>Example stores\<close>

definition demo_db :: firestore where
  \<comment> \<open>a store with a few records in every table\<close>
  "demo_db =
     \<lparr> collections = (\<lambda>c.
         if c = ''mastra_scorers'' then
           [(''s1'', [(''runId'', Str ''r''), (''createdAt'', Timestamp 10 0), (''updatedAt'', Timestamp 10 0)]),
            (''s2'', [(''runId'', Str ''r''), (''createdAt'', Timestamp 30 0), (''updatedAt'', Timestamp 30 0)]),
            (''s3'', [(''runId'', Str ''r''), (''createdAt'', Timestamp 20 0), (''updatedAt'', Timestamp 20 0)])]
         else if c = ''mastra_evals'' then
           [(''e1'', [(''agentName'', Str ''a''), (''createdAt'', Timestamp 10 0)]),
            (''e2'', [(''agentName'', Str ''a''), (''createdAt'', Timestamp 20 0)])]
         else if c = ''mastra_threads'' then
           [(''t1'', [(''id'', Str ''t1''), (''resourceId'', Str ''u''),
                      (''createdAt'', Timestamp 10 0), (''updatedAt'', Timestamp 10 0)]),
            (''t2'', [(''id'', Str ''t2''), (''resourceId'', Str ''u''),
                      (''createdAt'', Timestamp 20 0), (''updatedAt'', Timestamp 20 0)])]
         else if c = ''mastra_messages'' then
           [(''m1'', [(''id'', Str ''m1''), (''threadId'', Str ''t1''), (''createdAt'', Timestamp 10 0)]),
            (''m2'', [(''id'', Str ''m2''), (''threadId'', Str ''t1''), (''createdAt'', Timestamp 20 0)])]
         else if c = ''mastra_traces'' then
           [(''x1'', [(''id'', Str ''x1''), (''timestamp'', Timestamp 10 0), (''createdAt'', Timestamp 10 0),
                      (''startTime'', Timestamp 10 0), (''endTime'', Timestamp 11 0)]),
            (''x2'', [(''id'', Str ''x2''), (''timestamp'', Timestamp 20 0), (''createdAt'', Timestamp 20 0),
                      (''startTime'', Timestamp 20 0), (''endTime'', Timestamp 21 0)])]
         else if c = ''mastra_ai_spans'' then
           [(''sp1'', [(''spanId'', Str ''sp1''), (''traceId'', Str ''tr1''), (''name'', Str ''llm'')])]
         else if c = ''mastra_workflow_snapshot'' then
           [(''wf_run1'', [(''workflowName'', Str ''wf''), (''runId'', Str ''run1''),
                           (''results'', Obj [(''a'', Num (Finite 1))])]),
            (''wf_run2'', [(''workflowName'', Str ''wf''), (''runId'', Str ''run2''),
                           (''results'', Obj [(''s'', Obj [(''x'', Num (Finite 1))])])])]
         else []),
       calls = [], next_auto = 0 \<rparr>"

definition empty_db :: firestore where
  "empty_db = \<lparr> collections = (\<lambda>c. []), calls = [], next_auto = 0 \<rparr>"

definition sparse_db :: firestore where
  \<comment> \<open>three evals of one agent, two of them stored without a creation time\<close>
  "sparse_db =
     \<lparr> collections = (\<lambda>c.
         if c = ''mastra_evals'' then
           [(''e1'', [(''id'', Str ''e1''), (''agentName'', Str ''a''), (''createdAt'', Timestamp 10 0)]),
            (''e2'', [(''id'', Str ''e2''), (''agentName'', Str ''a'')]),
            (''e3'', [(''id'', Str ''e3''), (''agentName'', Str ''a'')])]
         else []),
       calls = [], next_auto = 0 \<rparr>"

definition long_thread_db :: firestore where
  \<comment> \<open>a thread with 501 messages\<close>
  "long_thread_db =
     \<lparr> collections = (\<lambda>c.
         if c = ''mastra_threads'' then [(''T1'', [(''id'', Str ''T1''), (''resourceId'', Str ''u'')])]
         else if c = ''mastra_messages'' then
           map (\<lambda>n. (replicate (Suc n) (CHR ''m''),
                      [(''id'', Str (replicate (Suc n) (CHR ''m''))), (''threadId'', Str ''T1'')]))
             [0 ..< 501]
         else []),
       calls = [], next_auto = 0 \<rparr>"

definition ids25 :: "string list" where
  \<comment> \<open>25 message ids\<close>
  "ids25 = [''m1'', ''m2'', ''m3'', ''m4'', ''m5'', ''m6'', ''m7'', ''m8'', ''m9'', ''m10'', ''m11'', ''m12'', ''m13'', ''m14'', ''m15'', ''m16'', ''m17'', ''m18'', ''m19'', ''m20'', ''m21'', ''m22'', ''m23'', ''m24'', ''m25'']"

section \<open>Properties\<close>

subsection \<open>Paths\<close>

lemma split_on_absent: "c \<notin> set s \<Longrightarrow> split_on c s = [s]"
  by (induction s) auto

lemma has_double_slash_absent: "CHR ''/'' \<notin> set s \<Longrightarrow> \<not> has_double_slash s"
  by (induction s rule: has_double_slash.induct) auto

lemma doc_ref_simple: "id_ok s \<Longrightarrow> CHR ''/'' \<notin> set s \<Longrightarrow> doc_ref c (Str s) = Inr (c, s)"
  by (auto simp: doc_ref_def split_on_absent has_double_slash_absent path_join_def id_ok_def
      name_ok_def)

lemmas id_defs = id_ok_def name_ok_def reserved_name_def

lemma doc_ref_Str: "doc_ref c v = Inr r \<Longrightarrow> \<exists>s. v = Str s \<and> s \<noteq> []"
  by (cases v) (auto simp: doc_ref_def split: if_splits)

lemma field_of_plain: "CHR ''.'' \<notin> set f \<Longrightarrow> field_of d f = map_of d f"
  by (simp add: field_of_def split_on_absent)

lemma order_key_plain: "CHR ''.'' \<notin> set f \<Longrightarrow> order_key d f = fs_key (get d f)"
  by (simp add: order_key_def field_of_plain get_def)

subsection \<open>The codec\<close>

lemma plain_json_not_Undefined: "plain_json v \<Longrightarrow> v \<noteq> Undefined"
  by auto



lemma obj_set_fresh: "k \<notin> fst ` set kvs \<Longrightarrow> obj_set k v kvs = kvs @ [(k, v)]"
  by (induction kvs) auto

lemma fold_obj_set_distinct:
  "distinct (map fst xs) \<Longrightarrow> fst ` set acc \<inter> fst ` set xs = {} \<Longrightarrow>
   fold (\<lambda>(k, v) acc. obj_set k (f v) acc) xs acc = acc @ map (\<lambda>(k, v). (k, f v)) xs"
proof (induction xs arbitrary: acc)
  case Nil
  then show ?case by simp
next
  case (Cons x xs)
  obtain k v where x: "x = (k, v)" by (cases x)
  from Cons.prems have fresh: "k \<notin> fst ` set acc" by (auto simp: x)
  have "fst ` set (acc @ [(k, f v)]) \<inter> fst ` set xs = {}"
    using Cons.prems by (auto simp: x)
  with Cons.IH [of "acc @ [(k, f v)]"] Cons.prems fresh show ?case
    by (simp add: x obj_set_fresh)
qed

lemma serializeRecord_map:
  "distinct (map fst r) \<Longrightarrow> serializeRecord rt r = map (\<lambda>(k, v). (k, serialize_field rt v)) r"
  unfolding serializeRecord_def by (simp add: fold_obj_set_distinct)













subsection \<open>Unimplemented operations\<close>

text \<open>
  C10. The store advertises \<open>hasColumn\<close> among the features it supports, and the operation
  raises "Method not implemented." for every table and column instead of returning a
  boolean.
\<close>

theorem hasColumn_advertised_but_raises:
  "supports_hasColumn FirestoreStore_supports
   \<and> hasColumn table column = Inl (Error ''Method not implemented.'')
   \<and> (\<nexists>b. hasColumn table column = Inr b)"
  by (simp add: FirestoreStore_supports_def hasColumn_def)

theorem hasColumn_advertised_but_raises_witness:
  "supports_hasColumn FirestoreStore_supports
   \<and> hasColumn ''mastra_threads'' ''title'' = Inl (Error ''Method not implemented.'')
   \<and> (\<nexists>b. hasColumn ''mastra_threads'' ''title'' = Inr b)"
  using hasColumn_advertised_but_raises [of "''mastra_threads''" "''title''"] .

subsection \<open>Pagination\<close>

lemma matching_log_call [simp]: "matching (log_call c db) q = matching db q"
  by (simp add: matching_def log_call_def)

lemma matching_limit [simp]: "matching db (limit n q) = matching db q"
  by (simp add: matching_def limit_def)

lemma matching_offset [simp]: "matching db (offset n q) = matching db q"
  by (simp add: matching_def offset_def)

lemma q_limit_limit [simp]: "q_limit (limit n q) = Some n"
  by (simp add: limit_def)

lemma q_offset_limit [simp]: "q_offset (limit n q) = q_offset q"
  by (simp add: limit_def)

lemma q_offset_offset [simp]: "q_offset (offset n q) = Some n"
  by (simp add: offset_def)

lemma query_ok_limit [simp]: "query_ok (limit n q) = query_ok q"
  by (simp add: query_ok_def limit_def)

lemma query_ok_offset [simp]: "query_ok (offset n q) = query_ok q"
  by (simp add: query_ok_def offset_def)

lemma map_result_length: "map_result f xs = Inr ys \<Longrightarrow> length ys = length xs"
  by (induction xs arbitrary: ys) (auto split: sum.splits)

lemma window_length: "0 \<le> n \<Longrightarrow> int (length (window off (Some n) ds)) \<le> n"
  by (simp add: window_def Let_def split: option.splits)

lemma length_matching: "int (length (matching db q)) = counted db q"
proof (cases "q_orderBy q")
  case None
  then show ?thesis by (simp add: matching_def order_docs_def counted_def satisfying_def)
next
  case (Some p)
  obtain f dir where p: "p = (f, dir)" by (cases p)
  show ?thesis
    by (cases dir) (simp_all add: matching_def order_docs_def counted_def satisfying_def Some p)
qed

lemma counted_all:
  assumes "q_orderBy q = Some (f, dir)"
    and "\<forall>(i, d) \<in> set (satisfying db q). field_of d f \<noteq> None"
  shows "counted db q = int (length (satisfying db q))"
proof -
  have "filter (\<lambda>(i, d). field_of d f \<noteq> None) (satisfying db q) = satisfying db q"
    using assms(2) by (intro filter_True) auto
  then show ?thesis by (simp add: counted_def assms(1))
qed

lemma paginate_page_ok:
  assumes "paginate deser q page perPage db = (Inr (rows, info), db')"
  shows "page_ok rows info page perPage (counted db q)"
proof -
  let ?q = "limit perPage (offset ((page - 1) * perPage) q)"
  from assms have ok: "query_ok q"
    by (auto simp: paginate_def query_count_def split: if_splits)
  from assms ok have nn: "\<not> negative (q_limit ?q)"
    by (auto simp: paginate_def query_count_def query_get_def Let_def split: if_splits)
  then have pp: "0 \<le> perPage" by (simp add: negative_def)
  from assms ok obtain docs where
    docs: "docs = window (q_offset ?q) (Some perPage) (matching db q)"
    and rows: "map_result (\<lambda>(i, d). deser (Some d)) docs = Inr rows"
    and info: "info = \<lparr> pg_page = page, pg_perPage = perPage, pg_total = int (length (matching db q)),
                       pg_hasMore = (int (length (matching db q)) > (page - 1) * perPage + perPage) \<rparr>"
    by (auto simp: paginate_def query_count_def query_get_def Let_def
        split: if_splits sum.splits)
  have "int (length rows) \<le> perPage"
    using map_result_length [OF rows] window_length [OF pp] by (simp add: docs)
  then show ?thesis by (simp add: page_ok_def info length_matching)
qed

lemma map_result_total:
  "(\<And>x. x \<in> set xs \<Longrightarrow> \<exists>y. f x = Inr y) \<Longrightarrow> \<exists>ys. map_result f xs = Inr ys"
proof (induction xs)
  case Nil
  then show ?case by simp
next
  case (Cons x xs)
  then obtain y ys where "f x = Inr y" and "map_result f xs = Inr ys"
    by (metis list.set_intros(1) list.set_intros(2))
  then show ?case by simp
qed

lemma paginate_returns:
  assumes "query_ok q" and "1 \<le> page" and "0 \<le> perPage" and "\<And>d. \<exists>r. deser (Some d) = Inr r"
  shows "\<exists>rows info. fst (paginate deser q page perPage db) = Inr (rows, info)"
proof -
  let ?docs = "window (Some ((page - 1) * perPage)) (Some perPage) (matching db q)"
  have "\<exists>ys. map_result (\<lambda>(i, d). deser (Some d)) ?docs = Inr ys"
    by (rule map_result_total) (use assms(4) in \<open>auto split: prod.splits\<close>)
  then obtain ys where "map_result (\<lambda>(i, d). deser (Some d)) ?docs = Inr ys" ..
  moreover have "\<not> negative (Some ((page - 1) * perPage))" and "\<not> negative (Some perPage)"
    using assms(2,3) by (simp_all add: negative_def not_less)
  ultimately show ?thesis
    using assms(1) by (simp add: paginate_def query_count_def query_get_def Let_def)
qed

text \<open>
  C1, as the code has it. Scores, evals, threads and messages take page 1 and 20 per
  page when the caller leaves them out; traces are stated for a call that gives both. A
  returned page never holds more than \<open>perPage\<close> rows, it reports the page and the size it
  was computed with, its total is the number of records of the table that satisfy the
  filters and have the field the listing is ordered by, and \<open>hasMore\<close> says whether that
  total exceeds \<open>(page - 1) * perPage + perPage\<close>. When every record that satisfies the
  filters has the ordering field, the total is the number of records that satisfy the
  filters.
\<close>

theorem pagination_window:
  "(executePaginatedQuery rt q page perPage db = (Inr (rows, info), db')
      \<longrightarrow> page_ok rows info (dflt 1 page) (dflt 20 perPage)
            (counted db (orderBy ''createdAt'' Desc q)))
   \<and> (getEvals rt agentName type page perPage db = (Inr (rows, info), db')
      \<longrightarrow> page_ok rows info (dflt 1 page) (dflt 20 perPage)
            (counted db (evals_query agentName type)))
   \<and> (getThreadsByResourceIdPaginated rt resourceId page perPage ob sd db = (Inr (rows, info), db')
      \<longrightarrow> page_ok rows info (dflt 1 page) (dflt 20 perPage)
            (counted db (threads_query resourceId ob sd)))
   \<and> (getMessagesPaginated rt threadId selectBy format db = (Inr (rows, info), db')
      \<longrightarrow> page_ok rows info (messages_page selectBy) (messages_perPage selectBy)
            (counted db (messages_query threadId selectBy)))
   \<and> (getTracesPaginated rt (Some p) (Some pp) fromDate toDate db = (Inr (rows, info), db')
      \<longrightarrow> page_ok rows info p pp (counted db (traces_query fromDate toDate)))
   \<and> (q_orderBy q' = Some (f, dir) \<and> (\<forall>(i, d) \<in> set (satisfying db q'). field_of d f \<noteq> None)
      \<longrightarrow> counted db q' = int (length (satisfying db q')))"
proof (intro conjI impI)
  assume "executePaginatedQuery rt q page perPage db = (Inr (rows, info), db')"
  then show "page_ok rows info (dflt 1 page) (dflt 20 perPage)
      (counted db (orderBy ''createdAt'' Desc q))"
    unfolding executePaginatedQuery_def by (rule paginate_page_ok)
next
  assume "getEvals rt agentName type page perPage db = (Inr (rows, info), db')"
  then show "page_ok rows info (dflt 1 page) (dflt 20 perPage)
      (counted db (evals_query agentName type))"
    unfolding getEvals_def by (rule paginate_page_ok)
next
  assume "getThreadsByResourceIdPaginated rt resourceId page perPage ob sd db = (Inr (rows, info), db')"
  then show "page_ok rows info (dflt 1 page) (dflt 20 perPage)
      (counted db (threads_query resourceId ob sd))"
    unfolding getThreadsByResourceIdPaginated_def by (rule paginate_page_ok)
next
  assume "getMessagesPaginated rt threadId selectBy format db = (Inr (rows, info), db')"
  then show "page_ok rows info (messages_page selectBy) (messages_perPage selectBy)
      (counted db (messages_query threadId selectBy))"
    unfolding getMessagesPaginated_def by (rule paginate_page_ok)
next
  assume "getTracesPaginated rt (Some p) (Some pp) fromDate toDate db = (Inr (rows, info), db')"
  then have "paginate (deserializeTrace rt) (traces_query fromDate toDate) p pp db
      = (Inr (rows, info), db')"
    by (simp add: getTracesPaginated_def)
  then show "page_ok rows info p pp (counted db (traces_query fromDate toDate))"
    by (rule paginate_page_ok)
next
  assume "q_orderBy q' = Some (f, dir) \<and> (\<forall>(i, d) \<in> set (satisfying db q'). field_of d f \<noteq> None)"
  then show "counted db q' = int (length (satisfying db q'))"
    by (simp add: counted_all)
qed

lemmas eval_defs =
  paginate_def query_count_def query_get_def matching_def order_docs_def window_def demo_db_def
  TABLE_SCORERS_def TABLE_EVALS_def TABLE_THREADS_def TABLE_MESSAGES_def TABLE_TRACES_def
  collection_ref_def q_where_def where_if_def orderBy_def limit_def offset_def negative_def
  dflt_def log_call_def toDate_or_new_def and_then_def js_or_def get_def Let_def
  query_ok_def valid_field_path_def field_of_def order_key_def counted_def satisfying_def

theorem pagination_window_witness:
  "\<forall>rt.
     (\<exists>rows info db'.
        executePaginatedQuery rt (q_where ''runId'' Eq (Str ''r'') (collection_ref TABLE_SCORERS))
          None (Some 2) demo_db = (Inr (rows, info), db')
        \<and> page_ok rows info 1 2 3 \<and> length rows = 2 \<and> pg_hasMore info)
   \<and> (\<exists>rows info db'.
        getEvals rt (Some ''a'') None None None demo_db = (Inr (rows, info), db')
        \<and> page_ok rows info 1 20 2 \<and> length rows = 2 \<and> \<not> pg_hasMore info)
   \<and> (\<exists>rows info db'.
        getThreadsByResourceIdPaginated rt ''u'' (Some 2) (Some 1) None None demo_db = (Inr (rows, info), db')
        \<and> page_ok rows info 2 1 2 \<and> length rows = 1 \<and> \<not> pg_hasMore info)
   \<and> (\<exists>rows info db'.
        getMessagesPaginated rt ''t1'' None None demo_db = (Inr (rows, info), db')
        \<and> page_ok rows info 1 20 2 \<and> length rows = 2)
   \<and> (\<exists>rows info db'.
        getTracesPaginated rt (Some 1) (Some 1) Undefined Undefined demo_db = (Inr (rows, info), db')
        \<and> page_ok rows info 1 1 2 \<and> length rows = 1 \<and> pg_hasMore info)"
proof (intro allI conjI)
  fix rt
  have "\<exists>rows info db'.
      executePaginatedQuery rt (q_where ''runId'' Eq (Str ''r'') (collection_ref TABLE_SCORERS))
        None (Some 2) demo_db = (Inr (rows, info), db') \<and> length rows = 2 \<and> pg_hasMore info"
    by (simp add: executePaginatedQuery_def deserializeScore_def eval_defs)
  then obtain rows info db' where
    e: "executePaginatedQuery rt (q_where ''runId'' Eq (Str ''r'') (collection_ref TABLE_SCORERS))
        None (Some 2) demo_db = (Inr (rows, info), db')" and r: "length rows = 2" "pg_hasMore info"
    by blast
  have m: "counted demo_db
      (orderBy ''createdAt'' Desc (q_where ''runId'' Eq (Str ''r'') (collection_ref TABLE_SCORERS))) = 3"
    by (simp add: eval_defs)
  from pagination_window [THEN conjunct1, rule_format, OF e] m
  have "page_ok rows info 1 2 3" by (simp add: dflt_def)
  with e r show "\<exists>rows info db'.
      executePaginatedQuery rt (q_where ''runId'' Eq (Str ''r'') (collection_ref TABLE_SCORERS))
        None (Some 2) demo_db = (Inr (rows, info), db')
      \<and> page_ok rows info 1 2 3 \<and> length rows = 2 \<and> pg_hasMore info"
    by blast
next
  fix rt
  have "\<exists>rows info db'.
      getEvals rt (Some ''a'') None None None demo_db = (Inr (rows, info), db')
      \<and> length rows = 2 \<and> \<not> pg_hasMore info"
    by (simp add: getEvals_def evals_query_def deserializeEval_def toISOString_def eval_defs)
  then obtain rows info db' where
    e: "getEvals rt (Some ''a'') None None None demo_db = (Inr (rows, info), db')"
    and r: "length rows = 2" "\<not> pg_hasMore info"
    by blast
  have m: "counted demo_db (evals_query (Some ''a'') None) = 2"
    by (simp add: evals_query_def eval_defs)
  from pagination_window [THEN conjunct2, THEN conjunct1, rule_format, OF e] m
  have "page_ok rows info 1 20 2" by (simp add: dflt_def)
  with e r show "\<exists>rows info db'.
      getEvals rt (Some ''a'') None None None demo_db = (Inr (rows, info), db')
      \<and> page_ok rows info 1 20 2 \<and> length rows = 2 \<and> \<not> pg_hasMore info"
    by blast
next
  fix rt
  have "\<exists>rows info db'.
      getThreadsByResourceIdPaginated rt ''u'' (Some 2) (Some 1) None None demo_db = (Inr (rows, info), db')
      \<and> length rows = 1 \<and> \<not> pg_hasMore info"
    by (simp add: getThreadsByResourceIdPaginated_def threads_query_def deserializeThread_def eval_defs)
  then obtain rows info db' where
    e: "getThreadsByResourceIdPaginated rt ''u'' (Some 2) (Some 1) None None demo_db = (Inr (rows, info), db')"
    and r: "length rows = 1" "\<not> pg_hasMore info"
    by blast
  have m: "counted demo_db (threads_query ''u'' None None) = 2"
    by (simp add: threads_query_def eval_defs)
  from pagination_window [THEN conjunct2, THEN conjunct2, THEN conjunct1, rule_format, OF e] m
  have "page_ok rows info 2 1 2" by (simp add: dflt_def)
  with e r show "\<exists>rows info db'.
      getThreadsByResourceIdPaginated rt ''u'' (Some 2) (Some 1) None None demo_db = (Inr (rows, info), db')
      \<and> page_ok rows info 2 1 2 \<and> length rows = 1 \<and> \<not> pg_hasMore info"
    by blast
next
  fix rt
  have "\<exists>rows info db'.
      getMessagesPaginated rt ''t1'' None None demo_db = (Inr (rows, info), db') \<and> length rows = 2"
    by (simp add: getMessagesPaginated_def messages_query_def messages_page_def messages_perPage_def pagination_page_def pagination_perPage_def
        deserializeMessage_def spread_def eval_defs)
  then obtain rows info db' where
    e: "getMessagesPaginated rt ''t1'' None None demo_db = (Inr (rows, info), db')"
    and r: "length rows = 2"
    by blast
  have m: "counted demo_db (messages_query ''t1'' None) = 2"
    by (simp add: messages_query_def eval_defs)
  from pagination_window [THEN conjunct2, THEN conjunct2, THEN conjunct2, THEN conjunct1, rule_format, OF e] m
  have "page_ok rows info 1 20 2" by (simp add: messages_page_def messages_perPage_def pagination_page_def pagination_perPage_def)
  with e r show "\<exists>rows info db'.
      getMessagesPaginated rt ''t1'' None None demo_db = (Inr (rows, info), db')
      \<and> page_ok rows info 1 20 2 \<and> length rows = 2"
    by blast
next
  fix rt
  have "\<exists>rows info db'.
      getTracesPaginated rt (Some 1) (Some 1) Undefined Undefined demo_db = (Inr (rows, info), db')
      \<and> length rows = 1 \<and> pg_hasMore info"
    by (simp add: getTracesPaginated_def traces_query_def deserializeTrace_def eval_defs)
  then obtain rows info db' where
    e: "getTracesPaginated rt (Some 1) (Some 1) Undefined Undefined demo_db = (Inr (rows, info), db')"
    and r: "length rows = 1" "pg_hasMore info"
    by blast
  have m: "counted demo_db (traces_query Undefined Undefined) = 2"
    by (simp add: traces_query_def eval_defs)
  from pagination_window [THEN conjunct2, THEN conjunct2, THEN conjunct2, THEN conjunct2, THEN conjunct1,
      rule_format, OF e] m
  have "page_ok rows info 1 1 2" by simp
  with e r show "\<exists>rows info db'.
      getTracesPaginated rt (Some 1) (Some 1) Undefined Undefined demo_db = (Inr (rows, info), db')
      \<and> page_ok rows info 1 1 2 \<and> length rows = 1 \<and> pg_hasMore info"
    by blast
qed

text \<open>
  The evals of the store \<open>sparse_db\<close> are what the generic \<open>insert\<close> of the adapter stores
  for three eval records, two of which come without a creation time.
\<close>

lemma sparse_db_inserted:
  "\<forall>rt. \<exists>db1 db2 db3.
     insert_record rt TABLE_EVALS
       [(''id'', Str ''e1''), (''agentName'', Str ''a''), (''createdAt'', Date (Some 10000))] empty_db
       = (Inr (), db1)
   \<and> insert_record rt TABLE_EVALS [(''id'', Str ''e2''), (''agentName'', Str ''a'')] db1 = (Inr (), db2)
   \<and> insert_record rt TABLE_EVALS [(''id'', Str ''e3''), (''agentName'', Str ''a'')] db2 = (Inr (), db3)
   \<and> collections db3 TABLE_EVALS = collections sparse_db TABLE_EVALS"
  by (simp add: insert_record_def own_id_def serializeRecord_def serialize_field_def empty_db_def
      sparse_db_def TABLE_EVALS_def doc_ref_def path_join_def id_defs doc_set_def storable_doc_def
      encode_doc_def store_doc_def log_call_def get_def)

text \<open>
  The claim as stated fails in two places. The total counts the records that have the
  ordering field: of three evals of an agent, two of them stored without \<open>createdAt\<close>, the
  listing counts one and reports that there is no more, where the claim counts three. And
  traces take no default: with page and perPage left out the offset is not a number and the
  call raises after the count.
\<close>

theorem pagination_window_counterexample:
  "\<forall>rt.
     (\<exists>rows info db'.
        getEvals rt (Some ''a'') None None (Some 2) sparse_db = (Inr (rows, info), db')
        \<and> pg_total info = 1 \<and> \<not> pg_hasMore info
        \<and> length (filter (\<lambda>(i, d). map_of d ''agentName'' = Some (Str ''a''))
                     (collections sparse_db TABLE_EVALS)) = 3)
   \<and> (\<exists>db'. getTracesPaginated rt None None Undefined Undefined demo_db
          = (Inl (Error ''Value for argument offset is not a valid integer.''), db'))"
  by (simp add: getEvals_def evals_query_def deserializeEval_def toISOString_def sparse_db_def
      getTracesPaginated_def traces_query_def eval_defs)

subsection \<open>Ordering\<close>

lemma lex_le_fst:
  fixes a c :: "'a :: linorder" and b d :: "'b :: linorder"
  shows "(a, b) \<le> (c, d) \<Longrightarrow> a \<le> c"
  by (auto simp: less_eq_prod_def)

lemma sort_key_asc:
  fixes ds :: "(string \<times> doc) list"
  shows "sorted_wrt (\<lambda>a b. order_key (snd a) f \<le> order_key (snd b) f)
     (sort_key (\<lambda>(i, d). (order_key d f, i)) ds)"
proof -
  let ?k = "\<lambda>(i :: string, d :: doc). (order_key d f, i)"
  have "sorted (map ?k (sort_key ?k ds))" by (rule sorted_sort_key)
  then have "sorted_wrt (\<lambda>a b. ?k a \<le> ?k b) (sort_key ?k ds)"
    by (simp add: sorted_map)
  then show ?thesis
    by (rule sorted_wrt_mono_rel [rotated]) (auto dest: lex_le_fst split: prod.splits)
qed

lemma order_docs_asc: "asc_by f (order_docs (Some (f, Asc)) ds)"
  unfolding asc_by_def order_docs_def by (simp add: sort_key_asc)

lemma order_docs_desc: "desc_by f (order_docs (Some (f, Desc)) ds)"
  unfolding desc_by_def order_docs_def by (simp add: sorted_wrt_rev sort_key_asc)

lemma matching_asc: "q_orderBy q = Some (f, Asc) \<Longrightarrow> asc_by f (matching db q)"
  by (simp add: matching_def order_docs_asc)

lemma matching_desc: "q_orderBy q = Some (f, Desc) \<Longrightarrow> desc_by f (matching db q)"
  by (simp add: matching_def order_docs_desc)

lemma matching_by_id: "q_orderBy q = None \<Longrightarrow> sorted (map fst (matching db q))"
  by (simp add: matching_def order_docs_def)

lemma paginate_page_of:
  assumes "paginate deser q page perPage db = (Inr (rows, info), db')"
  shows "page_of deser (matching db q) page perPage rows"
  using assms
  by (auto simp: paginate_def query_count_def query_get_def Let_def window_def page_of_def
      split: if_splits sum.splits)

lemma threads_query_order:
  "q_orderBy (threads_query resourceId ob sd) =
     (if dflt ''createdAt'' ob = [] \<or> dflt ''ASC'' sd = [] then None
      else Some (dflt ''createdAt'' ob, if dflt ''ASC'' sd = ''ASC'' then Asc else Desc))"
  by (simp add: threads_query_def orderBy_def q_where_def collection_ref_def Let_def)

text \<open>
  C8, as the code has it. Before the page window is cut, the matched documents are
  ordered: descending by \<open>createdAt\<close> for scores and evals and descending by \<open>timestamp\<close>
  for traces, where the caller has no say; ascending by \<open>createdAt\<close> for messages; and for
  threads by the field the caller names (\<open>createdAt\<close> when none is named), ascending when
  the caller gives no direction or \<^verbatim>\<open>ASC\<close> and descending for any other direction. A
  thread listing that is given the empty string as field or as direction applies no
  ordering: its documents come by id.
\<close>

theorem default_order:
  "(executePaginatedQuery rt q page perPage db = (Inr (rows, info), db')
      \<longrightarrow> desc_by ''createdAt'' (matching db (orderBy ''createdAt'' Desc q))
        \<and> page_of (deserializeScore rt) (matching db (orderBy ''createdAt'' Desc q))
             (dflt 1 page) (dflt 20 perPage) rows)
   \<and> (getEvals rt agentName type page perPage db = (Inr (rows, info), db')
      \<longrightarrow> desc_by ''createdAt'' (matching db (evals_query agentName type))
        \<and> page_of (deserializeEval rt) (matching db (evals_query agentName type))
             (dflt 1 page) (dflt 20 perPage) rows)
   \<and> (getTracesPaginated rt (Some p) (Some pp) fromDate toDate db = (Inr (rows, info), db')
      \<longrightarrow> desc_by ''timestamp'' (matching db (traces_query fromDate toDate))
        \<and> page_of (deserializeTrace rt) (matching db (traces_query fromDate toDate)) p pp rows)
   \<and> (getThreadsByResourceIdPaginated rt resourceId page perPage ob sd db = (Inr (rows, info), db')
      \<longrightarrow> page_of (deserializeThread rt) (matching db (threads_query resourceId ob sd))
             (dflt 1 page) (dflt 20 perPage) rows
        \<and> (if dflt ''createdAt'' ob = [] \<or> dflt ''ASC'' sd = []
            then sorted (map fst (matching db (threads_query resourceId ob sd)))
            else if dflt ''ASC'' sd = ''ASC''
            then asc_by (dflt ''createdAt'' ob) (matching db (threads_query resourceId ob sd))
            else desc_by (dflt ''createdAt'' ob) (matching db (threads_query resourceId ob sd))))
   \<and> (getMessagesPaginated rt threadId selectBy format db = (Inr (rows, info), db')
      \<longrightarrow> asc_by ''createdAt'' (matching db (messages_query threadId selectBy))
        \<and> page_of (\<lambda>data. deserializeMessage rt data (dflt V2 format))
             (matching db (messages_query threadId selectBy))
             (messages_page selectBy) (messages_perPage selectBy) rows)"
proof (intro conjI impI)
  show "desc_by ''createdAt'' (matching db (orderBy ''createdAt'' Desc q))"
    by (rule matching_desc) (simp add: orderBy_def)
  show "desc_by ''createdAt'' (matching db (evals_query agentName type))"
    by (rule matching_desc) (simp add: evals_query_def orderBy_def Let_def)
  show "desc_by ''timestamp'' (matching db (traces_query fromDate toDate))"
    by (rule matching_desc) (simp add: traces_query_def orderBy_def Let_def)
  show "asc_by ''createdAt'' (matching db (messages_query threadId selectBy))"
    by (rule matching_asc) (simp add: messages_query_def orderBy_def Let_def)
  show "if dflt ''createdAt'' ob = [] \<or> dflt ''ASC'' sd = []
      then sorted (map fst (matching db (threads_query resourceId ob sd)))
      else if dflt ''ASC'' sd = ''ASC''
      then asc_by (dflt ''createdAt'' ob) (matching db (threads_query resourceId ob sd))
      else desc_by (dflt ''createdAt'' ob) (matching db (threads_query resourceId ob sd))"
    using threads_query_order [of resourceId ob sd]
    by (auto intro: matching_by_id matching_asc matching_desc split: if_splits)
next
  assume "executePaginatedQuery rt q page perPage db = (Inr (rows, info), db')"
  then show "page_of (deserializeScore rt) (matching db (orderBy ''createdAt'' Desc q))
      (dflt 1 page) (dflt 20 perPage) rows"
    unfolding executePaginatedQuery_def by (rule paginate_page_of)
next
  assume "getEvals rt agentName type page perPage db = (Inr (rows, info), db')"
  then show "page_of (deserializeEval rt) (matching db (evals_query agentName type))
      (dflt 1 page) (dflt 20 perPage) rows"
    unfolding getEvals_def by (rule paginate_page_of)
next
  assume "getTracesPaginated rt (Some p) (Some pp) fromDate toDate db = (Inr (rows, info), db')"
  then show "page_of (deserializeTrace rt) (matching db (traces_query fromDate toDate)) p pp rows"
    unfolding getTracesPaginated_def by (simp add: paginate_page_of)
next
  assume "getThreadsByResourceIdPaginated rt resourceId page perPage ob sd db = (Inr (rows, info), db')"
  then show "page_of (deserializeThread rt) (matching db (threads_query resourceId ob sd))
      (dflt 1 page) (dflt 20 perPage) rows"
    unfolding getThreadsByResourceIdPaginated_def by (rule paginate_page_of)
next
  assume "getMessagesPaginated rt threadId selectBy format db = (Inr (rows, info), db')"
  then show "page_of (\<lambda>data. deserializeMessage rt data (dflt V2 format))
      (matching db (messages_query threadId selectBy))
      (messages_page selectBy) (messages_perPage selectBy) rows"
    unfolding getMessagesPaginated_def by (rule paginate_page_of)
qed

theorem default_order_witness:
  "\<forall>rt.
     (\<exists>rows info db'.
        executePaginatedQuery rt (q_where ''runId'' Eq (Str ''r'') (collection_ref TABLE_SCORERS))
          None (Some 2) demo_db = (Inr (rows, info), db')
        \<and> desc_by ''createdAt'' (matching demo_db
              (orderBy ''createdAt'' Desc (q_where ''runId'' Eq (Str ''r'') (collection_ref TABLE_SCORERS))))
        \<and> map (\<lambda>r. get r ''createdAt'') rows = [Date (Some 30000), Date (Some 20000)])
   \<and> (\<exists>rows info db'.
        getEvals rt (Some ''a'') None None None demo_db = (Inr (rows, info), db')
        \<and> desc_by ''createdAt'' (matching demo_db (evals_query (Some ''a'') None))
        \<and> map fst (matching demo_db (evals_query (Some ''a'') None)) = [''e2'', ''e1''])
   \<and> (\<exists>rows info db'.
        getTracesPaginated rt (Some 1) (Some 1) Undefined Undefined demo_db = (Inr (rows, info), db')
        \<and> desc_by ''timestamp'' (matching demo_db (traces_query Undefined Undefined))
        \<and> map (\<lambda>r. get r ''id'') rows = [Str ''x2''])
   \<and> (\<exists>rows info db'.
        getThreadsByResourceIdPaginated rt ''u'' None None None None demo_db = (Inr (rows, info), db')
        \<and> asc_by ''createdAt'' (matching demo_db (threads_query ''u'' None None))
        \<and> map (\<lambda>r. get r ''id'') rows = [Str ''t1'', Str ''t2''])
   \<and> (\<exists>rows info db'.
        getThreadsByResourceIdPaginated rt ''u'' None None (Some ''updatedAt'') (Some ''DESC'') demo_db
          = (Inr (rows, info), db')
        \<and> desc_by ''updatedAt'' (matching demo_db (threads_query ''u'' (Some ''updatedAt'') (Some ''DESC'')))
        \<and> map (\<lambda>r. get r ''id'') rows = [Str ''t2'', Str ''t1''])
   \<and> (\<exists>rows info db'.
        getThreadsByResourceIdPaginated rt ''u'' None None (Some []) None demo_db = (Inr (rows, info), db')
        \<and> sorted (map fst (matching demo_db (threads_query ''u'' (Some []) None)))
        \<and> map (\<lambda>r. get r ''id'') rows = [Str ''t1'', Str ''t2''])
   \<and> (\<exists>rows info db'.
        getMessagesPaginated rt ''t1'' None None demo_db = (Inr (rows, info), db')
        \<and> asc_by ''createdAt'' (matching demo_db (messages_query ''t1'' None))
        \<and> map (\<lambda>r. get r ''id'') rows = [Str ''m1'', Str ''m2''])"
proof (intro allI conjI)
  fix rt
  have "\<exists>rows info db'.
      executePaginatedQuery rt (q_where ''runId'' Eq (Str ''r'') (collection_ref TABLE_SCORERS))
        None (Some 2) demo_db = (Inr (rows, info), db')
      \<and> map (\<lambda>r. get r ''createdAt'') rows = [Date (Some 30000), Date (Some 20000)]"
    by (simp add: executePaginatedQuery_def deserializeScore_def eval_defs)
  then obtain rows info db' where
    e: "executePaginatedQuery rt (q_where ''runId'' Eq (Str ''r'') (collection_ref TABLE_SCORERS))
        None (Some 2) demo_db = (Inr (rows, info), db')"
    and r: "map (\<lambda>r. get r ''createdAt'') rows = [Date (Some 30000), Date (Some 20000)]"
    by auto
  from default_order [THEN conjunct1, rule_format, OF e] e r
  show "\<exists>rows info db'.
      executePaginatedQuery rt (q_where ''runId'' Eq (Str ''r'') (collection_ref TABLE_SCORERS))
        None (Some 2) demo_db = (Inr (rows, info), db')
      \<and> desc_by ''createdAt'' (matching demo_db
            (orderBy ''createdAt'' Desc (q_where ''runId'' Eq (Str ''r'') (collection_ref TABLE_SCORERS))))
      \<and> map (\<lambda>r. get r ''createdAt'') rows = [Date (Some 30000), Date (Some 20000)]"
    by auto
next
  fix rt
  have "\<exists>rows info db'. getEvals rt (Some ''a'') None None None demo_db = (Inr (rows, info), db')"
    by (simp add: getEvals_def evals_query_def deserializeEval_def toISOString_def eval_defs)
  then obtain rows info db' where
    e: "getEvals rt (Some ''a'') None None None demo_db = (Inr (rows, info), db')"
    by auto
  have m: "map fst (matching demo_db (evals_query (Some ''a'') None)) = [''e2'', ''e1'']"
    by (simp add: evals_query_def eval_defs)
  from default_order [THEN conjunct2, THEN conjunct1, rule_format, OF e] e m
  show "\<exists>rows info db'.
      getEvals rt (Some ''a'') None None None demo_db = (Inr (rows, info), db')
      \<and> desc_by ''createdAt'' (matching demo_db (evals_query (Some ''a'') None))
      \<and> map fst (matching demo_db (evals_query (Some ''a'') None)) = [''e2'', ''e1'']"
    by auto
next
  fix rt
  have "\<exists>rows info db'.
      getTracesPaginated rt (Some 1) (Some 1) Undefined Undefined demo_db = (Inr (rows, info), db')
      \<and> map (\<lambda>r. get r ''id'') rows = [Str ''x2'']"
    by (simp add: getTracesPaginated_def traces_query_def deserializeTrace_def eval_defs)
  then obtain rows info db' where
    e: "getTracesPaginated rt (Some 1) (Some 1) Undefined Undefined demo_db = (Inr (rows, info), db')"
    and r: "map (\<lambda>r. get r ''id'') rows = [Str ''x2'']"
    by auto
  from default_order [THEN conjunct2, THEN conjunct2, THEN conjunct1, rule_format, OF e] e r
  show "\<exists>rows info db'.
      getTracesPaginated rt (Some 1) (Some 1) Undefined Undefined demo_db = (Inr (rows, info), db')
      \<and> desc_by ''timestamp'' (matching demo_db (traces_query Undefined Undefined))
      \<and> map (\<lambda>r. get r ''id'') rows = [Str ''x2'']"
    by auto
next
  fix rt
  have "\<exists>rows info db'.
      getThreadsByResourceIdPaginated rt ''u'' None None None None demo_db = (Inr (rows, info), db')
      \<and> map (\<lambda>r. get r ''id'') rows = [Str ''t1'', Str ''t2'']"
    by (simp add: getThreadsByResourceIdPaginated_def threads_query_def deserializeThread_def eval_defs)
  then obtain rows info db' where
    e: "getThreadsByResourceIdPaginated rt ''u'' None None None None demo_db = (Inr (rows, info), db')"
    and r: "map (\<lambda>r. get r ''id'') rows = [Str ''t1'', Str ''t2'']"
    by auto
  from default_order [THEN conjunct2, THEN conjunct2, THEN conjunct2, THEN conjunct1, rule_format, OF e] e r
  show "\<exists>rows info db'.
      getThreadsByResourceIdPaginated rt ''u'' None None None None demo_db = (Inr (rows, info), db')
      \<and> asc_by ''createdAt'' (matching demo_db (threads_query ''u'' None None))
      \<and> map (\<lambda>r. get r ''id'') rows = [Str ''t1'', Str ''t2'']"
    by (auto simp: dflt_def)
next
  fix rt
  have "\<exists>rows info db'.
      getThreadsByResourceIdPaginated rt ''u'' None None (Some ''updatedAt'') (Some ''DESC'') demo_db
        = (Inr (rows, info), db')
      \<and> map (\<lambda>r. get r ''id'') rows = [Str ''t2'', Str ''t1'']"
    by (simp add: getThreadsByResourceIdPaginated_def threads_query_def deserializeThread_def eval_defs)
  then obtain rows info db' where
    e: "getThreadsByResourceIdPaginated rt ''u'' None None (Some ''updatedAt'') (Some ''DESC'') demo_db
        = (Inr (rows, info), db')"
    and r: "map (\<lambda>r. get r ''id'') rows = [Str ''t2'', Str ''t1'']"
    by auto
  from default_order [THEN conjunct2, THEN conjunct2, THEN conjunct2, THEN conjunct1, rule_format, OF e] e r
  show "\<exists>rows info db'.
      getThreadsByResourceIdPaginated rt ''u'' None None (Some ''updatedAt'') (Some ''DESC'') demo_db
        = (Inr (rows, info), db')
      \<and> desc_by ''updatedAt'' (matching demo_db (threads_query ''u'' (Some ''updatedAt'') (Some ''DESC'')))
      \<and> map (\<lambda>r. get r ''id'') rows = [Str ''t2'', Str ''t1'']"
    by (auto simp: dflt_def)
next
  fix rt
  have "\<exists>rows info db'.
      getThreadsByResourceIdPaginated rt ''u'' None None (Some []) None demo_db = (Inr (rows, info), db')
      \<and> map (\<lambda>r. get r ''id'') rows = [Str ''t1'', Str ''t2'']"
    by (simp add: getThreadsByResourceIdPaginated_def threads_query_def deserializeThread_def eval_defs)
  then obtain rows info db' where
    e: "getThreadsByResourceIdPaginated rt ''u'' None None (Some []) None demo_db = (Inr (rows, info), db')"
    and r: "map (\<lambda>r. get r ''id'') rows = [Str ''t1'', Str ''t2'']"
    by auto
  from default_order [THEN conjunct2, THEN conjunct2, THEN conjunct2, THEN conjunct1, rule_format, OF e] e r
  show "\<exists>rows info db'.
      getThreadsByResourceIdPaginated rt ''u'' None None (Some []) None demo_db = (Inr (rows, info), db')
      \<and> sorted (map fst (matching demo_db (threads_query ''u'' (Some []) None)))
      \<and> map (\<lambda>r. get r ''id'') rows = [Str ''t1'', Str ''t2'']"
    by (auto simp: dflt_def)
next
  fix rt
  have "\<exists>rows info db'.
      getMessagesPaginated rt ''t1'' None None demo_db = (Inr (rows, info), db')
      \<and> map (\<lambda>r. get r ''id'') rows = [Str ''m1'', Str ''m2'']"
    by (simp add: getMessagesPaginated_def messages_query_def messages_page_def messages_perPage_def pagination_page_def pagination_perPage_def
        deserializeMessage_def spread_def eval_defs)
  then obtain rows info db' where
    e: "getMessagesPaginated rt ''t1'' None None demo_db = (Inr (rows, info), db')"
    and r: "map (\<lambda>r. get r ''id'') rows = [Str ''m1'', Str ''m2'']"
    by auto
  from default_order [THEN conjunct2, THEN conjunct2, THEN conjunct2, THEN conjunct2, rule_format, OF e] e r
  show "\<exists>rows info db'.
      getMessagesPaginated rt ''t1'' None None demo_db = (Inr (rows, info), db')
      \<and> asc_by ''createdAt'' (matching demo_db (messages_query ''t1'' None))
      \<and> map (\<lambda>r. get r ''id'') rows = [Str ''m1'', Str ''m2'']"
    by auto
qed

text \<open>
  The claim as stated fails for threads: with no sort direction given the two threads of
  the example come back oldest first.
\<close>

theorem default_order_counterexample:
  "\<forall>rt. \<exists>rows info db'.
     getThreadsByResourceIdPaginated rt ''u'' None None None None demo_db = (Inr (rows, info), db')
     \<and> map (\<lambda>r. get r ''createdAt'') rows = [Date (Some 10000), Date (Some 20000)]
     \<and> \<not> desc_by ''createdAt'' (matching demo_db (threads_query ''u'' None None))"
  by (simp add: getThreadsByResourceIdPaginated_def threads_query_def deserializeThread_def
      desc_by_def eval_defs less_eq_prod_def)

subsection \<open>AI traces\<close>

lemma obj_set_keys: "fst ` set (obj_set k v kvs) = insert k (fst ` set kvs)"
  by (induction k v kvs rule: obj_set.induct) (simp_all add: insert_commute)

lemma fold_q_where_offset:
  "q_offset (fold (\<lambda>(key, v) q. q_where key Eq (Str v) q) keys q0) = q_offset q0"
  by (induction keys arbitrary: q0) (auto simp: q_where_def)

lemma keys_query_offset [simp]: "q_offset (keys_query tableName keys) = None"
  by (simp add: keys_query_def fold_q_where_offset collection_ref_def)

lemma ai_keys_no_id: "map_of (ai_keys filters) ''id'' = None"
proof -
  have "fst ` set (ai_keys filters) \<subseteq> {''name'', ''spanType'', ''entityId'', ''entityType''}"
    by (auto simp: ai_keys_def Let_def obj_set_keys split: option.splits)
  then have "''id'' \<notin> fst ` set (ai_keys filters)" by auto
  then show ?thesis by (simp add: map_of_eq_None_iff)
qed

lemma fold_q_where_filters:
  "q_filters (fold (\<lambda>(key, v) q. q_where key Eq (Str v) q) keys q0)
     = q_filters q0 @ map (\<lambda>(key, v). (key, Eq, Str v)) keys"
  by (induction keys arbitrary: q0) (auto simp: q_where_def)

lemma fold_q_where_orderBy:
  "q_orderBy (fold (\<lambda>(key, v) q. q_where key Eq (Str v) q) keys q0) = q_orderBy q0"
  by (induction keys arbitrary: q0) (auto simp: q_where_def)

lemma query_ok_keys_query:
  "query_ok (keys_query tableName keys) = list_all (\<lambda>(key, v). valid_field_path key) keys"
  by (simp add: query_ok_def keys_query_def fold_q_where_filters fold_q_where_orderBy
      collection_ref_def list_all_iff case_prod_beta)

lemma valid_ai_fields:
  "valid_field_path ''name''" "valid_field_path ''spanType''"
  "valid_field_path ''entityId''" "valid_field_path ''entityType''"
  "valid_field_path ''spanId''" "valid_field_path ''traceId''"
  by (simp_all add: valid_field_path_def)

lemma query_ok_ai_keys: "query_ok (keys_query tableName (ai_keys filters))"
proof -
  have "fst ` set (ai_keys filters) \<subseteq> {''name'', ''spanType'', ''entityId'', ''entityType''}"
    by (auto simp: ai_keys_def Let_def obj_set_keys split: option.splits)
  then have "\<forall>x \<in> set (ai_keys filters). valid_field_path (fst x)"
    using valid_ai_fields by auto
  then show ?thesis by (simp add: query_ok_keys_query list_all_iff case_prod_beta)
qed

lemma load_without_id:
  assumes "map_of keys ''id'' = None" and "query_ok (keys_query tableName keys)"
  shows "fst (load rt tableName keys db) =
     (case matching db (keys_query tableName keys) of
        [] \<Rightarrow> Inr None
      | (i, data) # others \<Rightarrow> Inr (Some (deserializeRecord rt (Some data))))"
  using assms
  by (cases "matching db (keys_query tableName keys)")
     (auto simp: load_def query_get_def negative_def window_def Let_def split: prod.splits)

lemma js_gt_zero: "js_gt rt (Num (Finite 0)) n = (n < 0)"
  by (simp add: js_gt_def)

text \<open>
  C9. \<open>getAITracesPaginated\<close> never returns a span. Its fetch is the single-record load,
  which limits the query to one document and returns one record or \<^verbatim>\<open>null\<close>. When no span
  matches the filters the result is an empty page with total 0; when one or more spans
  match, the loaded record is used as an array and the call raises a type error.
\<close>

theorem getAITracesPaginated_never_returns_a_span:
  "fst (getAITracesPaginated rt filters pagination db) =
     (if matching db (keys_query TABLE_AI_SPANS (ai_keys filters)) = []
      then Inr \<lparr> ap_spans = Arr [],
                 ap_page = pagination_page pagination,
                 ap_perPage = pagination_perPage pagination,
                 ap_total = Num (Finite 0),
                 ap_hasMore = ((pagination_page pagination - 1) * pagination_perPage pagination
                                 + pagination_perPage pagination < 0) \<rparr>
      else Inl (TypeError ''spans.slice is not a function''))
   \<and> (\<forall>r. fst (getAITracesPaginated rt filters pagination db) = Inr r
          \<longrightarrow> ap_spans r = Arr [] \<and> ap_total r = Num (Finite 0)
              \<and> matching db (keys_query TABLE_AI_SPANS (ai_keys filters)) = [])"
proof -
  have l: "fst (load rt TABLE_AI_SPANS (ai_keys filters) db) =
     (case matching db (keys_query TABLE_AI_SPANS (ai_keys filters)) of
        [] \<Rightarrow> Inr None
      | (i, data) # others \<Rightarrow> Inr (Some (deserializeRecord rt (Some data))))"
    by (rule load_without_id [OF ai_keys_no_id query_ok_ai_keys])
  have first: "fst (getAITracesPaginated rt filters pagination db) =
     (if matching db (keys_query TABLE_AI_SPANS (ai_keys filters)) = []
      then Inr \<lparr> ap_spans = Arr [],
                 ap_page = pagination_page pagination,
                 ap_perPage = pagination_perPage pagination,
                 ap_total = Num (Finite 0),
                 ap_hasMore = ((pagination_page pagination - 1) * pagination_perPage pagination
                                 + pagination_perPage pagination < 0) \<rparr>
      else Inl (TypeError ''spans.slice is not a function''))"
    using l
    by (cases "load rt TABLE_AI_SPANS (ai_keys filters) db";
        cases "matching db (keys_query TABLE_AI_SPANS (ai_keys filters))")
       (auto simp: getAITracesPaginated_def Let_def call_slice_def js_slice_def js_gt_zero
          split: prod.splits)
  then show ?thesis by (auto split: if_splits)
qed

theorem getAITracesPaginated_never_returns_a_span_witness:
  "\<forall>rt.
     fst (getAITracesPaginated rt
            (Some \<lparr>f_name = Some ''llm'', f_spanType = None, f_entityId = None, f_entityType = None\<rparr>)
            None demo_db)
       = Inl (TypeError ''spans.slice is not a function'')
   \<and> fst (getAITracesPaginated rt None None demo_db) = Inl (TypeError ''spans.slice is not a function'')
   \<and> fst (getAITracesPaginated rt
            (Some \<lparr>f_name = Some ''other'', f_spanType = None, f_entityId = None, f_entityType = None\<rparr>)
            (Some (Some 2, None)) demo_db)
       = Inr \<lparr> ap_spans = Arr [], ap_page = 2, ap_perPage = 20, ap_total = Num (Finite 0),
               ap_hasMore = False \<rparr>"
proof (intro allI conjI)
  fix rt
  have m1: "matching demo_db (keys_query TABLE_AI_SPANS (ai_keys
      (Some \<lparr>f_name = Some ''llm'', f_spanType = None, f_entityId = None, f_entityType = None\<rparr>))) \<noteq> []"
    by (simp add: keys_query_def ai_keys_def TABLE_AI_SPANS_def eval_defs)
  show "fst (getAITracesPaginated rt
            (Some \<lparr>f_name = Some ''llm'', f_spanType = None, f_entityId = None, f_entityType = None\<rparr>)
            None demo_db)
       = Inl (TypeError ''spans.slice is not a function'')"
    using getAITracesPaginated_never_returns_a_span [THEN conjunct1, of rt _ None demo_db] m1
    by simp
  have m2: "matching demo_db (keys_query TABLE_AI_SPANS (ai_keys None)) \<noteq> []"
    by (simp add: keys_query_def ai_keys_def TABLE_AI_SPANS_def eval_defs)
  show "fst (getAITracesPaginated rt None None demo_db) = Inl (TypeError ''spans.slice is not a function'')"
    using getAITracesPaginated_never_returns_a_span [THEN conjunct1, of rt None None demo_db] m2
    by simp
  have m3: "matching demo_db (keys_query TABLE_AI_SPANS (ai_keys
      (Some \<lparr>f_name = Some ''other'', f_spanType = None, f_entityId = None, f_entityType = None\<rparr>))) = []"
    by (simp add: keys_query_def ai_keys_def TABLE_AI_SPANS_def eval_defs)
  show "fst (getAITracesPaginated rt
            (Some \<lparr>f_name = Some ''other'', f_spanType = None, f_entityId = None, f_entityType = None\<rparr>)
            (Some (Some 2, None)) demo_db)
       = Inr \<lparr> ap_spans = Arr [], ap_page = 2, ap_perPage = 20, ap_total = Num (Finite 0),
               ap_hasMore = False \<rparr>"
    using getAITracesPaginated_never_returns_a_span [THEN conjunct1, of rt _ "Some (Some 2, None)" demo_db] m3
    by (simp add: pagination_page_def pagination_perPage_def dflt_def)
qed

subsection \<open>Batches\<close>

lemma slices_unfold:
  "0 < n \<Longrightarrow> slices n i xs = (if i < length xs then take n (drop i xs) # slices n (i + n) xs else [])"
  by (subst slices.simps) simp

lemma slices_concat: "0 < n \<Longrightarrow> concat (slices n i xs) = drop i xs"
proof (induction n i xs rule: slices.induct)
  case (1 n i xs)
  show ?case
  proof (cases "i < length xs")
    case True
    with 1 have "concat (slices n (i + n) xs) = drop (i + n) xs" by simp
    then have "concat (slices n i xs) = take n (drop i xs) @ drop n (drop i xs)"
      using True 1(2) by (subst slices.simps) (simp add: add.commute)
    then show ?thesis by (simp only: append_take_drop_id)
  next
    case False
    then show ?thesis by (subst slices.simps) simp
  qed
qed

lemma slices_bounded: "s \<in> set (slices n i xs) \<Longrightarrow> length s \<le> n \<and> s \<noteq> []"
proof (induction n i xs rule: slices.induct)
  case (1 n i xs)
  from 1(2) have c: "i < length xs \<and> 0 < n"
    by (subst (asm) slices.simps) (auto split: if_splits)
  with 1(2) have "s = take n (drop i xs) \<or> s \<in> set (slices n (i + n) xs)"
    by (subst (asm) slices.simps) auto
  then show ?case
  proof
    assume "s = take n (drop i xs)"
    with c show ?thesis by auto
  next
    assume "s \<in> set (slices n (i + n) xs)"
    with 1(1) c show ?thesis by simp
  qed
qed

lemma slices_lengths:
  "0 < n \<Longrightarrow> map length (slices n i xs)
     = replicate ((length xs - i) div n) n @ (if (length xs - i) mod n = 0 then [] else [(length xs - i) mod n])"
proof (induction n i xs rule: slices.induct)
  case (1 n i xs)
  show ?case
  proof (cases "i < length xs")
    case False
    then show ?thesis by (subst slices.simps) simp
  next
    case True
    with 1 have ih: "map length (slices n (i + n) xs)
      = replicate ((length xs - (i + n)) div n) n
        @ (if (length xs - (i + n)) mod n = 0 then [] else [(length xs - (i + n)) mod n])"
      by simp
    let ?m = "length xs - i"
    have unf: "map length (slices n i xs) = min ?m n # map length (slices n (i + n) xs)"
      using True 1(2) by (subst slices.simps) (simp add: min.commute)
    show ?thesis
    proof (cases "n \<le> ?m")
      case True
      then have d: "?m div n = Suc ((?m - n) div n)" and m: "?m mod n = (?m - n) mod n"
        using 1(2) by (simp_all add: le_div_geq le_mod_geq)
      have e: "length xs - (i + n) = ?m - n" by simp
      show ?thesis unfolding unf ih e d m using True by (simp add: min_def)
    next
      case False
      then have "?m div n = 0" "?m mod n = ?m" "length xs - (i + n) = 0" by simp_all
      then show ?thesis unfolding unf ih using False True by (simp add: min_def)
    qed
  qed
qed

lemma ceil_div:
  "length xs div Suc m + (if length xs mod Suc m = 0 then 0 else 1) = (length xs + m) div Suc m"
proof -
  define q r where "q = length xs div Suc m" and "r = length xs mod Suc m"
  have qr: "length xs = r + q * Suc m"
    unfolding q_def r_def by (simp only: mod_div_mult_eq)
  have rn: "r < Suc m"
    by (simp add: r_def)
  have "(length xs + m) div Suc m = ((r + m) + q * Suc m) div Suc m"
    by (simp only: qr add_ac)
  also have "\<dots> = q + (r + m) div Suc m"
    using div_mult_self1 [of "Suc m" "r + m" q] by (simp only: nat.distinct add.commute) simp
  finally have e: "(length xs + m) div Suc m = q + (r + m) div Suc m" .
  show ?thesis
  proof (cases "r = 0")
    case True
    then show ?thesis unfolding e by (simp add: q_def r_def)
  next
    case False
    have "(r + m) div Suc m = 1"
      by (rule div_nat_eqI) (use False rn in simp_all)
    then show ?thesis unfolding e using False by (simp add: q_def r_def)
  qed
qed

lemma slices_count: "0 < n \<Longrightarrow> length (slices n 0 xs) = (length xs + n - 1) div n"
proof -
  assume n: "0 < n"
  then obtain m where m: "n = Suc m" by (cases n) auto
  have "length (slices n 0 xs) = length (map length (slices n 0 xs))" by simp
  also have "\<dots> = length xs div n + (if length xs mod n = 0 then 0 else 1)"
    using n by (simp add: slices_lengths)
  also have "\<dots> = (length xs + n - 1) div n"
    unfolding m using ceil_div [of xs m] by simp
  finally show ?thesis .
qed

lemma calls_store_doc [simp]: "calls (store_doc c i d db) = calls db"
  by (simp add: store_doc_def)

lemma calls_remove_doc [simp]: "calls (remove_doc c i db) = calls db"
  by (simp add: remove_doc_def)

lemma calls_apply_write [simp]: "calls (apply_write w db) = calls db"
  by (cases w) simp_all

lemma calls_fold_apply_write [simp]: "calls (fold apply_write ws db) = calls db"
  by (induction ws arbitrary: db) simp_all

lemma calls_commit [simp]: "calls (commit ws db) = calls db @ [Commit ws]"
  by (simp add: commit_def log_call_def)

lemma calls_auto_id [simp]: "calls (snd (auto_id db)) = calls db"
  by (simp add: auto_id_def)

lemma commit_sizes_append [simp]: "commit_sizes (xs @ ys) = commit_sizes xs @ commit_sizes ys"
  by (induction xs rule: commit_sizes.induct) simp_all

lemma commit_sizes_map_Commit [simp]: "commit_sizes (map Commit bs) = map length bs"
  by (induction bs) simp_all

lemma fold_snoc_length: "length (fold (\<lambda>x b. b @ [g x]) xs acc) = length acc + length xs"
  by (induction xs arbitrary: acc) simp_all

lemma fold_snoc_pair_length:
  "length (fold (\<lambda>(i, d) b. b @ [g i]) xs acc) = length acc + length xs"
  by (induction xs arbitrary: acc) (simp_all add: case_prod_beta)
lemma batch_set_length: "batch_set c i d batch = Inr b \<Longrightarrow> length b = Suc (length batch)"
  by (auto simp: batch_set_def split: if_splits)

lemma batchInsert_batch_props:
  "batchInsert_batch rt t rs batch db = (Inr b, db1) \<Longrightarrow>
   length b = length batch + length rs \<and> calls db1 = calls db"
proof (induction rs arbitrary: batch db)
  case Nil
  then show ?case by simp
next
  case (Cons r rs)
  show ?case
  proof (cases "own_id r")
    case None
    with Cons.prems obtain batch' where
      s: "batch_set t (fst (auto_id db)) (serializeRecord rt r) batch = Inr batch'"
      and l: "batchInsert_batch rt t rs batch' (snd (auto_id db)) = (Inr b, db1)"
      by (auto simp: case_prod_beta split: sum.splits)
    from Cons.IH [OF l] batch_set_length [OF s] show ?thesis by simp
  next
    case (Some i)
    with Cons.prems obtain c j batch' where
      s: "batch_set c j (serializeRecord rt r) batch = Inr batch'"
      and l: "batchInsert_batch rt t rs batch' db = (Inr b, db1)"
      by (auto split: sum.splits prod.splits)
    from Cons.IH [OF l] batch_set_length [OF s] show ?thesis by simp
  qed
qed

lemma batchInsert_loop_calls:
  "batchInsert_loop rt t chunks db = (Inr u, db') \<Longrightarrow>
   \<exists>bs. calls db' = calls db @ map Commit bs \<and> map length bs = map length chunks"
proof (induction chunks arbitrary: db)
  case Nil
  then show ?case by simp
next
  case (Cons c chunks)
  from Cons.prems obtain b db1 where e: "batchInsert_batch rt t c [] db = (Inr b, db1)"
    and l: "batchInsert_loop rt t chunks (commit b db1) = (Inr u, db')"
    by (auto split: prod.splits sum.splits)
  from batchInsert_batch_props [OF e] have p: "length b = length c" "calls db1 = calls db" by simp_all
  from Cons.IH [OF l] obtain bs where
    bs: "calls db' = calls (commit b db1) @ map Commit bs" "map length bs = map length chunks"
    by blast
  have "calls db' = calls db @ map Commit (b # bs)" using bs(1) p by simp
  moreover have "map length (b # bs) = map length (c # chunks)" using bs(2) p by simp
  ultimately show ?case by blast
qed

lemma batchInsert_batch_returns:
  "list_all (insertable rt t) rs \<Longrightarrow> \<exists>b db1. batchInsert_batch rt t rs batch db = (Inr b, db1)"
proof (induction rs arbitrary: batch db)
  case Nil
  show ?case by simp
next
  case (Cons r rs)
  then have r: "insertable rt t r" and rs: "list_all (insertable rt t) rs" by simp_all
  show ?case
  proof (cases "own_id r")
    case None
    from Cons.IH [OF rs] r show ?thesis
      by (simp add: None insertable_def batch_set_def case_prod_beta)
  next
    case (Some i)
    with r have "doc_ref t (Str i) = Inr (t, i)" by (simp add: insertable_def doc_ref_simple)
    with Cons.IH [OF rs] r show ?thesis
      by (simp add: Some insertable_def batch_set_def)
  qed
qed

lemma batchInsert_loop_returns:
  "list_all (list_all (insertable rt t)) chunks \<Longrightarrow>
   \<exists>db'. batchInsert_loop rt t chunks db = (Inr (), db')"
proof (induction chunks arbitrary: db)
  case Nil
  show ?case by simp
next
  case (Cons c chunks)
  then have c: "list_all (insertable rt t) c" and cs: "list_all (list_all (insertable rt t)) chunks"
    by simp_all
  from batchInsert_batch_returns [OF c] obtain b db1 where
    "batchInsert_batch rt t c [] db = (Inr b, db1)" by blast
  with Cons.IH [OF cs, of "commit b db1"] show ?case by simp
qed

lemma slices_subset: "s \<in> set (slices n i xs) \<Longrightarrow> set s \<subseteq> set xs"
proof (induction n i xs rule: slices.induct)
  case (1 n i xs)
  from 1(2) have c: "i < length xs \<and> 0 < n"
    by (subst (asm) slices.simps) (auto split: if_splits)
  with 1(2) have "s = take n (drop i xs) \<or> s \<in> set (slices n (i + n) xs)"
    by (subst (asm) slices.simps) auto
  then show ?case
  proof
    assume "s = take n (drop i xs)"
    then show ?thesis by (auto dest: in_set_takeD in_set_dropD)
  next
    assume "s \<in> set (slices n (i + n) xs)"
    with 1(1) c show ?thesis by simp
  qed
qed

lemma batchInsert_returns:
  assumes "list_all (insertable rt t) records"
  shows "\<exists>db'. batchInsert rt t records db = (Inr (), db')"
proof -
  have "list_all (list_all (insertable rt t)) (slices 500 0 records)"
    using assms slices_subset [of _ 500 0 records] by (auto simp: list_all_iff)
  then show ?thesis unfolding batchInsert_def by (rule batchInsert_loop_returns)
qed

lemma batchTraceInsert_batch_props:
  "batchTraceInsert_batch now rs batch db = (Inr b, db1) \<Longrightarrow>
   length b = length batch + length rs \<and> calls db1 = calls db"
proof (induction rs arbitrary: batch db)
  case Nil
  then show ?case by simp
next
  case (Cons r rs)
  show ?case
  proof (cases "truthy (get r ''id'')")
    case False
    with Cons.prems obtain batch' where
      s: "batch_set TABLE_TRACES (fst (auto_id db)) (serializeTrace now r) batch = Inr batch'"
      and l: "batchTraceInsert_batch now rs batch' (snd (auto_id db)) = (Inr b, db1)"
      by (auto simp: case_prod_beta split: sum.splits)
    from Cons.IH [OF l] batch_set_length [OF s] show ?thesis by simp
  next
    case True
    with Cons.prems obtain c j batch' where
      s: "batch_set c j (serializeTrace now r) batch = Inr batch'"
      and l: "batchTraceInsert_batch now rs batch' db = (Inr b, db1)"
      by (auto split: sum.splits prod.splits)
    from Cons.IH [OF l] batch_set_length [OF s] show ?thesis by simp
  qed
qed

lemma batchTraceInsert_loop_calls:
  "batchTraceInsert_loop now chunks db = (Inr u, db') \<Longrightarrow>
   \<exists>bs. calls db' = calls db @ map Commit bs \<and> map length bs = map length chunks"
proof (induction chunks arbitrary: db)
  case Nil
  then show ?case by simp
next
  case (Cons c chunks)
  from Cons.prems obtain b db1 where e: "batchTraceInsert_batch now c [] db = (Inr b, db1)"
    and l: "batchTraceInsert_loop now chunks (commit b db1) = (Inr u, db')"
    by (auto split: prod.splits sum.splits)
  from batchTraceInsert_batch_props [OF e] have p: "length b = length c" "calls db1 = calls db" by simp_all
  from Cons.IH [OF l] obtain bs where
    bs: "calls db' = calls (commit b db1) @ map Commit bs" "map length bs = map length chunks"
    by blast
  have "calls db' = calls db @ map Commit (b # bs)" using bs(1) p by simp
  moreover have "map length (b # bs) = map length (c # chunks)" using bs(2) p by simp
  ultimately show ?case by blast
qed

lemma deleteMessages_batch_length:
  "deleteMessages_batch ids batch = Inr b \<Longrightarrow> length b = length batch + length ids"
proof (induction ids arbitrary: batch)
  case Nil
  then show ?case by simp
next
  case (Cons i ids)
  from Cons.prems obtain c j where
    "deleteMessages_batch ids (batch @ [WDelete c j]) = Inr b"
    by (auto split: sum.splits prod.splits)
  from Cons.IH [OF this] show ?case by simp
qed

lemma deleteMessages_batch_returns:
  "list_all (\<lambda>i. id_ok i \<and> CHR ''/'' \<notin> set i) ids \<Longrightarrow> \<exists>b. deleteMessages_batch ids batch = Inr b"
  by (induction ids arbitrary: batch) (simp_all add: doc_ref_simple)

lemma deleteMessages_loop_calls:
  "deleteMessages_loop chunks db = (Inr u, db') \<Longrightarrow>
   \<exists>bs. calls db' = calls db @ map Commit bs \<and> map length bs = map length chunks"
proof (induction chunks arbitrary: db)
  case Nil
  then show ?case by simp
next
  case (Cons c chunks)
  from Cons.prems obtain b where e: "deleteMessages_batch c [] = Inr b"
    and l: "deleteMessages_loop chunks (commit b db) = (Inr u, db')"
    by (auto split: sum.splits)
  from deleteMessages_batch_length [OF e] have p: "length b = length c" by simp
  from Cons.IH [OF l] obtain bs where
    bs: "calls db' = calls (commit b db) @ map Commit bs" "map length bs = map length chunks"
    by blast
  have "calls db' = calls db @ map Commit (b # bs)" using bs(1) by simp
  moreover have "map length (b # bs) = map length (c # chunks)" using bs(2) p by simp
  ultimately show ?case by blast
qed

lemma deleteMessages_loop_returns:
  "list_all (list_all (\<lambda>i. id_ok i \<and> CHR ''/'' \<notin> set i)) chunks \<Longrightarrow>
   \<exists>db'. deleteMessages_loop chunks db = (Inr (), db')"
proof (induction chunks arbitrary: db)
  case Nil
  show ?case by simp
next
  case (Cons c chunks)
  then have c: "list_all (\<lambda>i. id_ok i \<and> CHR ''/'' \<notin> set i) c"
    and cs: "list_all (list_all (\<lambda>i. id_ok i \<and> CHR ''/'' \<notin> set i)) chunks"
    by simp_all
  from deleteMessages_batch_returns [OF c] obtain b where "deleteMessages_batch c [] = Inr b" by blast
  with Cons.IH [OF cs, of "commit b db"] show ?case by simp
qed

lemma deleteMessages_returns:
  assumes "list_all (\<lambda>i. id_ok i \<and> CHR ''/'' \<notin> set i) ids"
  shows "\<exists>db'. deleteMessages ids db = (Inr (), db')"
proof (cases "length ids = 0")
  case True
  then show ?thesis by (simp add: deleteMessages_def)
next
  case False
  have "list_all (list_all (\<lambda>i. id_ok i \<and> CHR ''/'' \<notin> set i)) (slices 500 0 ids)"
    using assms slices_subset [of _ 500 0 ids] by (auto simp: list_all_iff)
  from deleteMessages_loop_returns [OF this] False show ?thesis by (simp add: deleteMessages_def)
qed

text \<open>
  The three chunked batch operations: when they return, the generic batch insert, the
  batch trace insert and the deletion of messages have issued nothing but commits, one for
  each slice of 500 of their input, in order, each with as many writes as its slice holds.
  1200 records make commits of 500, 500 and 200 writes, 7 ids make one commit. The batch
  insert returns when every record is data a write accepts, under a generated id or a
  valid id of its own without a slash; the deletion when every id is valid and without a
  slash.
\<close>

theorem chunked_batches:
  "(batchInsert rt t records db = (Inr u, db')
        \<longrightarrow> (\<exists>bs. calls db' = calls db @ map Commit bs
                 \<and> map length bs = map length (slices 500 0 records)))
   \<and> (batchTraceInsert now records db = (Inr u, db')
        \<longrightarrow> (\<exists>bs. calls db' = calls db @ map Commit bs
                 \<and> map length bs = map length (slices 500 0 records)))
   \<and> (deleteMessages ids db = (Inr u, db')
        \<longrightarrow> (\<exists>bs. calls db' = calls db @ map Commit bs
                 \<and> map length bs = map length (slices 500 0 ids)))
   \<and> (\<forall>s \<in> set (slices 500 0 records). length s \<le> 500)
   \<and> concat (slices 500 0 records) = records
   \<and> (length records = 1200 \<longrightarrow> map length (slices 500 0 records) = [500, 500, 200])
   \<and> (length ids = 7 \<longrightarrow> map length (slices 500 0 ids) = [7])
   \<and> (list_all (insertable rt t) records \<longrightarrow> (\<exists>db'. batchInsert rt t records db = (Inr (), db')))
   \<and> (list_all (\<lambda>i. id_ok i \<and> CHR ''/'' \<notin> set i) ids
        \<longrightarrow> (\<exists>db'. deleteMessages ids db = (Inr (), db')))"
proof (intro conjI impI ballI)
  assume "batchInsert rt t records db = (Inr u, db')"
  then show "\<exists>bs. calls db' = calls db @ map Commit bs
         \<and> map length bs = map length (slices 500 0 records)"
    unfolding batchInsert_def by (rule batchInsert_loop_calls)
next
  assume a: "batchTraceInsert now records db = (Inr u, db')"
  show "\<exists>bs. calls db' = calls db @ map Commit bs \<and> map length bs = map length (slices 500 0 records)"
  proof (cases "length records = 0")
    case True
    with a have "db' = db" by (simp add: batchTraceInsert_def)
    moreover have "slices 500 0 records = []" using True by (subst slices.simps) simp
    ultimately show ?thesis by simp
  next
    case False
    with a have "batchTraceInsert_loop now (slices 500 0 records) db = (Inr u, db')"
      by (simp add: batchTraceInsert_def)
    then show ?thesis by (rule batchTraceInsert_loop_calls)
  qed
next
  assume a: "deleteMessages ids db = (Inr u, db')"
  show "\<exists>bs. calls db' = calls db @ map Commit bs \<and> map length bs = map length (slices 500 0 ids)"
  proof (cases "length ids = 0")
    case True
    with a have "db' = db" by (simp add: deleteMessages_def)
    moreover have "slices 500 0 ids = []" using True by (subst slices.simps) simp
    ultimately show ?thesis by simp
  next
    case False
    with a have "deleteMessages_loop (slices 500 0 ids) db = (Inr u, db')"
      by (simp add: deleteMessages_def)
    then show ?thesis by (rule deleteMessages_loop_calls)
  qed
next
  fix s assume "s \<in> set (slices 500 0 records)"
  then show "length s \<le> 500" by (simp add: slices_bounded)
next
  show "concat (slices 500 0 records) = records" by (simp add: slices_concat)
next
  assume "length records = 1200"
  then have "map length (slices 500 0 records) = replicate 2 500 @ [200]"
    by (simp add: slices_lengths)
  also have "replicate 2 (500 :: nat) = [500, 500]"
    by (simp add: numeral_2_eq_2)
  finally show "map length (slices 500 0 records) = [500, 500, 200]" by simp
next
  assume "length ids = 7"
  then show "map length (slices 500 0 ids) = [7]"
    by (simp add: slices_lengths)
next
  assume "list_all (insertable rt t) records"
  then show "\<exists>db'. batchInsert rt t records db = (Inr (), db')" by (rule batchInsert_returns)
next
  assume "list_all (\<lambda>i. id_ok i \<and> CHR ''/'' \<notin> set i) ids"
  then show "\<exists>db'. deleteMessages ids db = (Inr (), db')" by (rule deleteMessages_returns)
qed

lemma valid_threadId: "valid_field_path ''threadId''"
  by (simp add: valid_field_path_def)

lemma deleteThread_matching:
  "length (matching (doc_delete TABLE_THREADS i db)
             (q_where ''threadId'' Eq (Str threadId) (collection_ref TABLE_MESSAGES)))
   = length (thread_messages threadId db)"
proof -
  have "collections (doc_delete TABLE_THREADS i db) TABLE_MESSAGES = collections db TABLE_MESSAGES"
    by (simp add: doc_delete_def log_call_def remove_doc_def TABLE_THREADS_def TABLE_MESSAGES_def)
  then show ?thesis
    by (simp add: matching_def order_docs_def q_where_def collection_ref_def thread_messages_def
        field_of_plain)
qed

lemma deleteThread_commits:
  assumes "id_ok threadId" and "CHR ''/'' \<notin> set threadId"
  shows "commit_sizes (calls (snd (deleteThread threadId db)))
   = commit_sizes (calls db)
     @ (if 0 < length (thread_messages threadId db) then [length (thread_messages threadId db)] else [])"
proof -
  let ?q = "q_where ''threadId'' Eq (Str threadId) (collection_ref TABLE_MESSAGES)"
  let ?db1 = "doc_delete TABLE_THREADS threadId db"
  have r: "doc_ref TABLE_THREADS (Str threadId) = Inr (TABLE_THREADS, threadId)"
    using assms by (rule doc_ref_simple)
  have ok: "query_ok ?q"
    by (simp add: query_ok_def q_where_def collection_ref_def valid_threadId)
  have nn: "\<not> negative (q_offset ?q)" "\<not> negative (q_limit ?q)"
    by (simp_all add: q_where_def collection_ref_def negative_def)
  have w: "window (q_offset ?q) (q_limit ?q) (matching ?db1 ?q) = matching ?db1 ?q"
    by (simp add: q_where_def collection_ref_def window_def)
  have c1: "commit_sizes (calls ?db1) = commit_sizes (calls db)"
    by (simp add: doc_delete_def log_call_def)
  have fl: "length (fold (\<lambda>(i, d) b. b @ [WDelete TABLE_MESSAGES i]) (matching ?db1 ?q) [])
      = length (matching ?db1 ?q)"
    by (simp add: fold_snoc_pair_length)
  have lm: "length (matching ?db1 ?q) = length (thread_messages threadId db)"
    by (rule deleteThread_matching)
  have run: "snd (deleteThread threadId db) =
      (if length (matching ?db1 ?q) > 0
       then commit (fold (\<lambda>(i, d) b. b @ [WDelete TABLE_MESSAGES i]) (matching ?db1 ?q) [])
              (log_call (QueryGet ?q) ?db1)
       else log_call (QueryGet ?q) ?db1)"
    using nn ok by (simp add: deleteThread_def r query_get_def w Let_def)
  show ?thesis
    unfolding run using c1 fl by (simp add: lm log_call_def)
qed

text \<open>
  C2 at a thread with 501 messages: the cascade of \<open>deleteThread\<close> puts every message of
  the thread in one batch, so it issues one commit of 501 writes, where the claim (and
  the sibling \<open>deleteMessages\<close>) has commits of 500 writes at most.
\<close>

theorem deleteThread_one_commit_of_501:
  "commit_sizes (calls (snd (deleteThread ''T1'' long_thread_db))) = [501]
   \<and> length (thread_messages ''T1'' long_thread_db) = 501"
proof -
  have "thread_messages ''T1'' long_thread_db = collections long_thread_db TABLE_MESSAGES"
    unfolding thread_messages_def
    by (rule filter_True) (auto simp: long_thread_db_def TABLE_MESSAGES_def)
  then have n: "length (thread_messages ''T1'' long_thread_db) = 501"
    by (simp add: long_thread_db_def TABLE_MESSAGES_def)
  have "calls long_thread_db = []" by (simp add: long_thread_db_def)
  then show ?thesis using n by (simp add: deleteThread_commits id_defs)
qed

theorem chunked_batches_witness:
  "\<forall>rt. (\<exists>db' bs. batchInsert rt ''custom_data'' (replicate 1200 [(''data'', Null)]) demo_db = (Inr (), db')
                 \<and> calls db' = map Commit bs \<and> map length bs = [500, 500, 200])
      \<and> (\<exists>db' bs. deleteMessages [''1'', ''2'', ''3'', ''4'', ''5'', ''6'', ''7''] demo_db = (Inr (), db')
                 \<and> calls db' = map Commit bs \<and> map length bs = [7])"
proof (intro allI conjI)
  fix rt
  let ?rs = "replicate 1200 [(''data'', Null)]"
  let ?ids = "[''1'', ''2'', ''3'', ''4'', ''5'', ''6'', ''7'']"
  have c: "calls demo_db = []" by (simp add: demo_db_def)
  have l: "length ?rs = 1200" by simp
  have ins: "list_all (insertable rt ''custom_data'') ?rs"
    by (simp add: list_all_iff insertable_def storable_doc_def serializeRecord_def serialize_field_def
        own_id_def get_def id_defs)
  from chunked_batches [of rt "''custom_data''" ?rs demo_db, THEN conjunct2, THEN conjunct2,
      THEN conjunct2, THEN conjunct2, THEN conjunct2, THEN conjunct2, THEN conjunct2, THEN conjunct1,
      rule_format, OF ins]
  obtain db' where e: "batchInsert rt ''custom_data'' ?rs demo_db = (Inr (), db')"
    by blast
  from chunked_batches [of rt "''custom_data''" ?rs demo_db "()" db', THEN conjunct1, rule_format, OF e]
    chunked_batches [of rt "''custom_data''" ?rs demo_db, THEN conjunct2, THEN conjunct2,
      THEN conjunct2, THEN conjunct2, THEN conjunct2, THEN conjunct1, rule_format, OF l]
  obtain bs where "calls db' = calls demo_db @ map Commit bs" "map length bs = [500, 500, 200]"
    by (elim exE conjE) (simp only:)
  with e c show "\<exists>db' bs. batchInsert rt ''custom_data'' ?rs demo_db = (Inr (), db')
                 \<and> calls db' = map Commit bs \<and> map length bs = [500, 500, 200]"
    by auto
  have l7: "length ?ids = 7" by simp
  have ok: "list_all (\<lambda>i. id_ok i \<and> CHR ''/'' \<notin> set i) ?ids" by (simp add: id_defs)
  from chunked_batches [where ids = ?ids and db = demo_db, THEN conjunct2, THEN conjunct2,
      THEN conjunct2, THEN conjunct2, THEN conjunct2, THEN conjunct2, THEN conjunct2, THEN conjunct2,
      rule_format, OF ok]
  obtain db2 where e7: "deleteMessages ?ids demo_db = (Inr (), db2)"
    by blast
  from chunked_batches [where ids = ?ids and db = demo_db and u = "()" and db' = db2,
      THEN conjunct2, THEN conjunct2, THEN conjunct1, rule_format, OF e7]
    chunked_batches [where ids = ?ids and db = demo_db, THEN conjunct2, THEN conjunct2,
      THEN conjunct2, THEN conjunct2, THEN conjunct2, THEN conjunct2, THEN conjunct1, rule_format, OF l7]
  obtain bs where "calls db2 = calls demo_db @ map Commit bs" "map length bs = [7]"
    by (elim exE conjE) (simp only:)
  with e7 c show "\<exists>db' bs. deleteMessages ?ids demo_db = (Inr (), db')
                 \<and> calls db' = map Commit bs \<and> map length bs = [7]"
    by auto
qed

subsection \<open>Messages by id\<close>

lemma map_result_append:
  "map_result f xs = Inr a \<Longrightarrow> map_result f ys = Inr b \<Longrightarrow> map_result f (xs @ ys) = Inr (a @ b)"
  by (induction xs arbitrary: a) (auto split: sum.splits)

lemma matched_messages_log_call [simp]: "matched_messages (log_call c db) chunks = matched_messages db chunks"
  by (simp add: matched_messages_def)

lemma query_ok_ids_query: "query_ok (ids_query c) = (c \<noteq> [])"
  by (cases c)
     (simp_all add: query_ok_def ids_query_def q_where_def collection_ref_def valid_field_path_def
        list_all_iff)

lemma getMessagesById_loop_result:
  "getMessagesById_loop rt format chunks acc db = (Inr msgs, db') \<Longrightarrow>
   calls db' = calls db @ map (\<lambda>c. QueryGet (ids_query c)) chunks
   \<and> (\<exists>rows. map_result (\<lambda>(i, d). deserializeMessage rt (Some d) format) (matched_messages db chunks)
                 = Inr rows \<and> msgs = acc @ rows)"
proof (induction chunks arbitrary: acc db)
  case Nil
  then show ?case by (simp add: matched_messages_def)
next
  case (Cons c chunks)
  let ?db1 = "log_call (QueryGet (ids_query c)) db"
  have nn: "\<not> negative (q_offset (ids_query c))" "\<not> negative (q_limit (ids_query c))"
    and w: "window (q_offset (ids_query c)) (q_limit (ids_query c)) (matching db (ids_query c))
            = matching db (ids_query c)"
    by (simp_all add: ids_query_def q_where_def collection_ref_def negative_def window_def)
  from Cons.prems obtain part where
    part: "map_result (\<lambda>(i, d). deserializeMessage rt (Some d) format) (matching db (ids_query c)) = Inr part"
    and l: "getMessagesById_loop rt format chunks (acc @ part) ?db1 = (Inr msgs, db')"
    using nn by (auto simp: query_get_def w Let_def split: sum.splits if_splits)
  from Cons.IH [OF l] obtain rows where
    c: "calls db' = calls ?db1 @ map (\<lambda>c. QueryGet (ids_query c)) chunks"
    and rows: "map_result (\<lambda>(i, d). deserializeMessage rt (Some d) format) (matched_messages db chunks) = Inr rows"
    and m: "msgs = (acc @ part) @ rows"
    by auto
  have "matched_messages db (c # chunks) = matching db (ids_query c) @ matched_messages db chunks"
    by (simp add: matched_messages_def)
  with map_result_append [OF part rows]
  have "map_result (\<lambda>(i, d). deserializeMessage rt (Some d) format) (matched_messages db (c # chunks))
      = Inr (part @ rows)" by simp
  moreover have "calls db' = calls db @ map (\<lambda>c. QueryGet (ids_query c)) (c # chunks)"
    using c by (simp add: log_call_def)
  ultimately show ?case using m by auto
qed

lemma matching_ids_query:
  "set (matching db (ids_query c)) = messages_with_id db c"
  by (auto simp: matching_def order_docs_def ids_query_def q_where_def collection_ref_def
      messages_with_id_def comp_def list_ex_iff field_of_plain split: option.splits)

lemma matched_messages_set:
  "set (matched_messages db chunks) = messages_with_id db (concat chunks)"
proof -
  have "set (matched_messages db chunks) = (\<Union>c \<in> set chunks. messages_with_id db c)"
    by (simp add: matched_messages_def matching_ids_query)
  also have "\<dots> = messages_with_id db (concat chunks)"
    by (auto simp: messages_with_id_def list_ex_iff)
  finally show ?thesis .
qed

lemma getMessagesById_loop_returns:
  "\<forall>x \<in> set (collections db TABLE_MESSAGES). \<exists>m. deserializeMessage rt (Some (snd x)) format = Inr m
   \<Longrightarrow> \<forall>c \<in> set chunks. c \<noteq> []
   \<Longrightarrow> \<exists>msgs db'. getMessagesById_loop rt format chunks acc db = (Inr msgs, db')"
proof (induction chunks arbitrary: acc db)
  case Nil
  show ?case by simp
next
  case (Cons c chunks)
  from Cons.prems(2) have ok: "query_ok (ids_query c)" and rest: "\<forall>c \<in> set chunks. c \<noteq> []"
    by (simp_all add: query_ok_ids_query)
  let ?db1 = "log_call (QueryGet (ids_query c)) db"
  have nn: "\<not> negative (q_offset (ids_query c))" "\<not> negative (q_limit (ids_query c))"
    and w: "window (q_offset (ids_query c)) (q_limit (ids_query c)) (matching db (ids_query c))
            = matching db (ids_query c)"
    by (simp_all add: ids_query_def q_where_def collection_ref_def negative_def window_def)
  have "\<exists>part. map_result (\<lambda>(i, d). deserializeMessage rt (Some d) format) (matching db (ids_query c)) = Inr part"
  proof (rule map_result_total)
    fix x assume "x \<in> set (matching db (ids_query c))"
    then have "x \<in> set (collections db TABLE_MESSAGES)"
      by (auto simp: matching_ids_query messages_with_id_def)
    with Cons.prems(1)
    show "\<exists>y. (case x of (i, d) \<Rightarrow> deserializeMessage rt (Some d) format) = Inr y"
      by (simp add: case_prod_beta)
  qed
  then obtain part where
    part: "map_result (\<lambda>(i, d). deserializeMessage rt (Some d) format) (matching db (ids_query c)) = Inr part" ..
  have "collections ?db1 = collections db" by (simp add: log_call_def)
  with Cons.prems(1) have
    "\<forall>x \<in> set (collections ?db1 TABLE_MESSAGES). \<exists>m. deserializeMessage rt (Some (snd x)) format = Inr m"
    by simp
  from Cons.IH [OF this rest, where acc = "acc @ part"] obtain msgs db' where
    "getMessagesById_loop rt format chunks (acc @ part) ?db1 = (Inr msgs, db')" by blast
  then show ?case using nn part ok by (simp add: query_get_def w)
qed

text \<open>
  C6. \<open>getMessagesById\<close> slices the ids into groups of 10 at most, issues one query for
  each group, in order, and nothing else, and returns the records the groups match, one
  group after the other: together, the stored messages whose \<open>id\<close> is one of the ids. 25
  ids make 3 queries. The call returns whenever every stored message can be decoded.
\<close>

theorem getMessagesById_chunks:
  "(getMessagesById rt ids format db = (Inr msgs, db') \<longrightarrow>
      calls db' = calls db @ map (\<lambda>c. QueryGet (ids_query c)) (slices 10 0 ids)
      \<and> map_result (\<lambda>(i, d). deserializeMessage rt (Some d) (dflt V2 format))
            (matched_messages db (slices 10 0 ids)) = Inr msgs
      \<and> set (matched_messages db (slices 10 0 ids)) = messages_with_id db ids)
   \<and> (\<forall>c \<in> set (slices 10 0 ids). length c \<le> 10)
   \<and> concat (slices 10 0 ids) = ids
   \<and> length (slices 10 0 ids) = (length ids + 9) div 10
   \<and> (length ids = 25 \<longrightarrow> length (slices 10 0 ids) = 3)
   \<and> ((\<forall>(i, d) \<in> set (collections db TABLE_MESSAGES).
          \<exists>m. deserializeMessage rt (Some d) (dflt V2 format) = Inr m)
        \<longrightarrow> (\<exists>msgs db'. getMessagesById rt ids format db = (Inr msgs, db')))"
proof (intro conjI impI ballI)
  assume a: "getMessagesById rt ids format db = (Inr msgs, db')"
  have s: "set (matched_messages db (slices 10 0 ids)) = messages_with_id db ids"
    by (simp add: matched_messages_set slices_concat)
  show "calls db' = calls db @ map (\<lambda>c. QueryGet (ids_query c)) (slices 10 0 ids)"
    and "map_result (\<lambda>(i, d). deserializeMessage rt (Some d) (dflt V2 format))
            (matched_messages db (slices 10 0 ids)) = Inr msgs"
  proof -
    show "calls db' = calls db @ map (\<lambda>c. QueryGet (ids_query c)) (slices 10 0 ids)"
    proof (cases "length ids = 0")
      case True
      moreover have "slices 10 0 ids = []" using True by (subst slices.simps) simp
      ultimately show ?thesis using a by (simp add: getMessagesById_def)
    next
      case False
      with a have "getMessagesById_loop rt (dflt V2 format) (slices 10 0 ids) [] db = (Inr msgs, db')"
        by (simp add: getMessagesById_def)
      from getMessagesById_loop_result [OF this] show ?thesis by simp
    qed
    show "map_result (\<lambda>(i, d). deserializeMessage rt (Some d) (dflt V2 format))
            (matched_messages db (slices 10 0 ids)) = Inr msgs"
    proof (cases "length ids = 0")
      case True
      moreover have "slices 10 0 ids = []" using True by (subst slices.simps) simp
      ultimately show ?thesis using a by (auto simp: getMessagesById_def matched_messages_def)
    next
      case False
      with a have "getMessagesById_loop rt (dflt V2 format) (slices 10 0 ids) [] db = (Inr msgs, db')"
        by (simp add: getMessagesById_def)
      from getMessagesById_loop_result [OF this] show ?thesis by auto
    qed
  qed
  show "set (matched_messages db (slices 10 0 ids)) = messages_with_id db ids" by (rule s)
next
  fix c assume "c \<in> set (slices 10 0 ids)"
  then show "length c \<le> 10" by (simp add: slices_bounded)
next
  show "concat (slices 10 0 ids) = ids" by (simp add: slices_concat)
next
  show l: "length (slices 10 0 ids) = (length ids + 9) div 10"
    using slices_count [of 10 ids] by simp
  assume "length ids = 25"
  then show "length (slices 10 0 ids) = 3" using l by simp
next
  assume "\<forall>(i, d) \<in> set (collections db TABLE_MESSAGES).
          \<exists>m. deserializeMessage rt (Some d) (dflt V2 format) = Inr m"
  then have h: "\<forall>x \<in> set (collections db TABLE_MESSAGES).
      \<exists>m. deserializeMessage rt (Some (snd x)) (dflt V2 format) = Inr m" by auto
  show "\<exists>msgs db'. getMessagesById rt ids format db = (Inr msgs, db')"
  proof (cases "length ids = 0")
    case True
    then show ?thesis by (simp add: getMessagesById_def)
  next
    case False
    have "\<forall>c \<in> set (slices 10 0 ids). c \<noteq> []"
      by (simp add: slices_bounded)
    from getMessagesById_loop_returns [OF h this, where acc = "[]"] False
    show ?thesis by (simp add: getMessagesById_def)
  qed
qed

lemma slices_ids25:
  "slices 10 0 ids25 =
     [[''m1'', ''m2'', ''m3'', ''m4'', ''m5'', ''m6'', ''m7'', ''m8'', ''m9'', ''m10''],
      [''m11'', ''m12'', ''m13'', ''m14'', ''m15'', ''m16'', ''m17'', ''m18'', ''m19'', ''m20''],
      [''m21'', ''m22'', ''m23'', ''m24'', ''m25'']]"
  by (simp add: slices_unfold ids25_def)

theorem getMessagesById_chunks_witness:
  "\<forall>rt. \<exists>msgs db'.
     getMessagesById rt ids25 None demo_db = (Inr msgs, db')
     \<and> calls db' = map (\<lambda>c. QueryGet (ids_query c)) (slices 10 0 ids25)
     \<and> length (calls db') = 3
     \<and> map (\<lambda>r. get r ''id'') msgs = [Str ''m1'', Str ''m2'']"
proof
  fix rt
  have d: "\<forall>(i, d) \<in> set (collections demo_db TABLE_MESSAGES).
      \<exists>m. deserializeMessage rt (Some d) (dflt V2 None) = Inr m"
    by (simp add: demo_db_def TABLE_MESSAGES_def deserializeMessage_def toDate_or_new_def
        and_then_def get_def)
  note inst = getMessagesById_chunks [of rt ids25 None demo_db]
  from inst d obtain msgs db' where e: "getMessagesById rt ids25 None demo_db = (Inr msgs, db')"
    by blast
  have l: "length ids25 = 25" by (simp add: ids25_def)
  have c0: "calls demo_db = []" by (simp add: demo_db_def)
  from getMessagesById_chunks [of rt ids25 None demo_db msgs db'] e
  have c: "calls db' = calls demo_db @ map (\<lambda>c. QueryGet (ids_query c)) (slices 10 0 ids25)"
    and r: "map_result (\<lambda>(i, d). deserializeMessage rt (Some d) (dflt V2 None))
            (matched_messages demo_db (slices 10 0 ids25)) = Inr msgs"
    by blast+
  from inst l have n: "length (slices 10 0 ids25) = 3" by blast
  have "matched_messages demo_db (slices 10 0 ids25)
      = [(''m1'', [(''id'', Str ''m1''), (''threadId'', Str ''t1''), (''createdAt'', Timestamp 10 0)]),
         (''m2'', [(''id'', Str ''m2''), (''threadId'', Str ''t1''), (''createdAt'', Timestamp 20 0)])]"
    by (simp add: slices_ids25 matched_messages_def ids_query_def matching_def order_docs_def
        demo_db_def TABLE_MESSAGES_def q_where_def collection_ref_def field_of_def)
  with r have "map (\<lambda>r. get r ''id'') msgs = [Str ''m1'', Str ''m2'']"
    by (auto simp: deserializeMessage_def toDate_or_new_def and_then_def get_def spread_def Let_def)
  with e c c0 n show "\<exists>msgs db'.
     getMessagesById rt ids25 None demo_db = (Inr msgs, db')
     \<and> calls db' = map (\<lambda>c. QueryGet (ids_query c)) (slices 10 0 ids25)
     \<and> length (calls db') = 3
     \<and> map (\<lambda>r. get r ''id'') msgs = [Str ''m1'', Str ''m2'']"
    by simp
qed

subsection \<open>Updates of a missing record\<close>

lemma collections_log_call [simp]: "collections (log_call c db) = collections db"
  by (simp add: log_call_def)

text \<open>
  C4, as the code has it. The id of the record is first made into a document reference;
  an id that is no document path (the empty string, say) makes the call raise a path
  error. For a valid id without a slash the reference is the document of that id in the
  table.
  On a record that does not exist, \<open>updateThread\<close>, \<open>updateResource\<close> and
  \<open>updateAISpan\<close> raise an error whose message names the missing id, and write nothing.
  \<open>updateWorkflowState\<close> does not raise: it returns \<^verbatim>\<open>undefined\<close>, and writes nothing.
\<close>

theorem update_of_missing_record:
  "(doc_ref TABLE_THREADS (Str threadId) = Inr (c, i) \<and> map_of (collections db c) i = None \<longrightarrow>
      fst (updateThread rt now threadId title metadata db)
        = Inl (Error (''Thread '' @ threadId @ '' not found''))
      \<and> collections (snd (updateThread rt now threadId title metadata db)) = collections db)
   \<and> (doc_ref TABLE_THREADS (Str threadId) = Inl e \<longrightarrow>
      updateThread rt now threadId title metadata db = (Inl e, db))
   \<and> (doc_ref TABLE_RESOURCES (Str resourceId) = Inr (c, i) \<and> map_of (collections db c) i = None \<longrightarrow>
      fst (updateResource rt now resourceId workingMemory metadata db)
        = Inl (Error (''Resource '' @ resourceId @ '' not found''))
      \<and> collections (snd (updateResource rt now resourceId workingMemory metadata db)) = collections db)
   \<and> (doc_ref TABLE_RESOURCES (Str resourceId) = Inl e \<longrightarrow>
      updateResource rt now resourceId workingMemory metadata db = (Inl e, db))
   \<and> (matching db (keys_query TABLE_AI_SPANS [(''spanId'', spanId), (''traceId'', traceId)]) = [] \<longrightarrow>
      fst (updateAISpan rt now spanId traceId updates db)
        = Inl (Error (''Span '' @ spanId @ '' in trace '' @ traceId @ '' not found''))
      \<and> collections (snd (updateAISpan rt now spanId traceId updates db)) = collections db)
   \<and> (doc_ref TABLE_WORKFLOW_SNAPSHOT (Str (snapshot_id workflowName runId)) = Inr (c, i)
        \<and> map_of (collections db c) i = None \<longrightarrow>
      fst (updateWorkflowState rt now workflowName runId opts db) = Inr None
      \<and> collections (snd (updateWorkflowState rt now workflowName runId opts db)) = collections db)
   \<and> (doc_ref TABLE_WORKFLOW_SNAPSHOT (Str (snapshot_id workflowName runId)) = Inl e \<longrightarrow>
      updateWorkflowState rt now workflowName runId opts db = (Inl e, db))
   \<and> (id_ok s \<and> CHR ''/'' \<notin> set s \<longrightarrow> doc_ref t (Str s) = Inr (t, s))"
proof (intro conjI impI)
  assume "doc_ref TABLE_THREADS (Str threadId) = Inr (c, i) \<and> map_of (collections db c) i = None"
  then show "fst (updateThread rt now threadId title metadata db)
      = Inl (Error (''Thread '' @ threadId @ '' not found''))"
    and "collections (snd (updateThread rt now threadId title metadata db)) = collections db"
    by (simp_all add: updateThread_def doc_get_def)
next
  assume "doc_ref TABLE_THREADS (Str threadId) = Inl e"
  then show "updateThread rt now threadId title metadata db = (Inl e, db)"
    by (simp add: updateThread_def)
next
  assume "doc_ref TABLE_RESOURCES (Str resourceId) = Inr (c, i) \<and> map_of (collections db c) i = None"
  then show "fst (updateResource rt now resourceId workingMemory metadata db)
      = Inl (Error (''Resource '' @ resourceId @ '' not found''))"
    and "collections (snd (updateResource rt now resourceId workingMemory metadata db)) = collections db"
    by (simp_all add: updateResource_def doc_get_def)
next
  assume "doc_ref TABLE_RESOURCES (Str resourceId) = Inl e"
  then show "updateResource rt now resourceId workingMemory metadata db = (Inl e, db)"
    by (simp add: updateResource_def)
next
  assume m: "matching db (keys_query TABLE_AI_SPANS [(''spanId'', spanId), (''traceId'', traceId)]) = []"
  have ok: "query_ok (keys_query TABLE_AI_SPANS [(''spanId'', spanId), (''traceId'', traceId)])"
    by (simp add: query_ok_keys_query valid_ai_fields)
  have l: "load rt TABLE_AI_SPANS [(''spanId'', spanId), (''traceId'', traceId)] db
      = (Inr None, log_call (QueryGet (limit 1 (keys_query TABLE_AI_SPANS
            [(''spanId'', spanId), (''traceId'', traceId)]))) db)"
    using m ok by (simp add: load_def query_get_def negative_def window_def Let_def)
  show "fst (updateAISpan rt now spanId traceId updates db)
      = Inl (Error (''Span '' @ spanId @ '' in trace '' @ traceId @ '' not found''))"
    and "collections (snd (updateAISpan rt now spanId traceId updates db)) = collections db"
    by (simp_all add: updateAISpan_def l)
next
  assume "doc_ref TABLE_WORKFLOW_SNAPSHOT (Str (snapshot_id workflowName runId)) = Inr (c, i)
      \<and> map_of (collections db c) i = None"
  then show "fst (updateWorkflowState rt now workflowName runId opts db) = Inr None"
    and "collections (snd (updateWorkflowState rt now workflowName runId opts db)) = collections db"
    by (simp_all add: updateWorkflowState_def doc_get_def)
next
  assume "doc_ref TABLE_WORKFLOW_SNAPSHOT (Str (snapshot_id workflowName runId)) = Inl e"
  then show "updateWorkflowState rt now workflowName runId opts db = (Inl e, db)"
    by (simp add: updateWorkflowState_def)
next
  assume "id_ok s \<and> CHR ''/'' \<notin> set s"
  then show "doc_ref t (Str s) = Inr (t, s)" by (simp add: doc_ref_simple)
qed

theorem update_of_missing_record_witness:
  "\<forall>rt now title metadata updates opts.
     fst (updateThread rt now ''t9'' title metadata demo_db) = Inl (Error ''Thread t9 not found'')
   \<and> (\<exists>e. updateThread rt now '''' title metadata demo_db = (Inl e, demo_db))
   \<and> fst (updateResource rt now ''r9'' Undefined metadata demo_db) = Inl (Error ''Resource r9 not found'')
   \<and> (\<exists>e. updateResource rt now ''a/b'' Undefined metadata demo_db = (Inl e, demo_db))
   \<and> fst (updateAISpan rt now ''sp9'' ''tr1'' updates demo_db)
        = Inl (Error ''Span sp9 in trace tr1 not found'')
   \<and> fst (updateWorkflowState rt now ''wf'' ''run9'' opts demo_db) = Inr None
   \<and> (\<exists>e. updateWorkflowState rt now ''wf'' ''/run9'' opts demo_db = (Inl e, demo_db))
   \<and> doc_ref TABLE_THREADS (Str ''t9'') = Inr (TABLE_THREADS, ''t9'')"
proof (intro allI conjI)
  fix rt :: js_runtime and now :: int and title metadata :: jsval and updates :: doc
    and opts :: workflow_state_opts
  have t: "doc_ref TABLE_THREADS (Str ''t9'') = Inr (TABLE_THREADS, ''t9'')
      \<and> map_of (collections demo_db TABLE_THREADS) ''t9'' = None"
    by (simp add: doc_ref_simple id_defs demo_db_def TABLE_THREADS_def)
  from update_of_missing_record [THEN conjunct1, rule_format, OF t, of rt now title metadata]
  show "fst (updateThread rt now ''t9'' title metadata demo_db) = Inl (Error ''Thread t9 not found'')"
    by simp
  have te: "\<exists>e. doc_ref TABLE_THREADS (Str '''') = Inl e"
    by (simp add: doc_ref_def)
  then obtain e where "doc_ref TABLE_THREADS (Str '''') = Inl e" ..
  from update_of_missing_record [THEN conjunct2, THEN conjunct1, rule_format, OF this,
      of rt now title metadata demo_db]
  show "\<exists>e. updateThread rt now '''' title metadata demo_db = (Inl e, demo_db)" by blast
  have r: "doc_ref TABLE_RESOURCES (Str ''r9'') = Inr (TABLE_RESOURCES, ''r9'')
      \<and> map_of (collections demo_db TABLE_RESOURCES) ''r9'' = None"
    by (simp add: doc_ref_simple id_defs demo_db_def TABLE_RESOURCES_def)
  from update_of_missing_record [THEN conjunct2, THEN conjunct2, THEN conjunct1, rule_format, OF r,
      of rt now Undefined metadata]
  show "fst (updateResource rt now ''r9'' Undefined metadata demo_db) = Inl (Error ''Resource r9 not found'')"
    by simp
  have "\<exists>e. doc_ref TABLE_RESOURCES (Str ''a/b'') = Inl e"
    by (simp add: doc_ref_def)
  then obtain e2 where "doc_ref TABLE_RESOURCES (Str ''a/b'') = Inl e2" ..
  from update_of_missing_record [THEN conjunct2, THEN conjunct2, THEN conjunct2, THEN conjunct1,
      rule_format, OF this, of rt now Undefined metadata demo_db]
  show "\<exists>e. updateResource rt now ''a/b'' Undefined metadata demo_db = (Inl e, demo_db)" by blast
  have s: "matching demo_db (keys_query TABLE_AI_SPANS [(''spanId'', ''sp9''), (''traceId'', ''tr1'')]) = []"
    by (simp add: keys_query_def TABLE_AI_SPANS_def eval_defs)
  from update_of_missing_record [THEN conjunct2, THEN conjunct2, THEN conjunct2, THEN conjunct2,
      THEN conjunct1, rule_format, OF s, of rt now updates]
  show "fst (updateAISpan rt now ''sp9'' ''tr1'' updates demo_db)
        = Inl (Error ''Span sp9 in trace tr1 not found'')"
    by simp
  have w: "doc_ref TABLE_WORKFLOW_SNAPSHOT (Str (snapshot_id ''wf'' ''run9''))
        = Inr (TABLE_WORKFLOW_SNAPSHOT, ''wf_run9'')
      \<and> map_of (collections demo_db TABLE_WORKFLOW_SNAPSHOT) ''wf_run9'' = None"
    by (simp add: doc_ref_simple id_defs demo_db_def TABLE_WORKFLOW_SNAPSHOT_def snapshot_id_def)
  from update_of_missing_record [THEN conjunct2, THEN conjunct2, THEN conjunct2, THEN conjunct2,
      THEN conjunct2, THEN conjunct1, rule_format, OF w, of rt now opts]
  show "fst (updateWorkflowState rt now ''wf'' ''run9'' opts demo_db) = Inr None"
    by simp
  have "\<exists>e. doc_ref TABLE_WORKFLOW_SNAPSHOT (Str (snapshot_id ''wf'' ''/run9'')) = Inl e"
    by (simp add: doc_ref_def snapshot_id_def)
  then obtain e3 where "doc_ref TABLE_WORKFLOW_SNAPSHOT (Str (snapshot_id ''wf'' ''/run9'')) = Inl e3" ..
  from update_of_missing_record [THEN conjunct2, THEN conjunct2, THEN conjunct2, THEN conjunct2,
      THEN conjunct2, THEN conjunct2, THEN conjunct1, rule_format, OF this, of rt now opts demo_db]
  show "\<exists>e. updateWorkflowState rt now ''wf'' ''/run9'' opts demo_db = (Inl e, demo_db)" by blast
  have p: "id_ok ''t9'' \<and> CHR ''/'' \<notin> set ''t9''" by (simp add: id_defs)
  from update_of_missing_record [THEN conjunct2, THEN conjunct2, THEN conjunct2, THEN conjunct2,
      THEN conjunct2, THEN conjunct2, THEN conjunct2, rule_format, OF p]
  show "doc_ref TABLE_THREADS (Str ''t9'') = Inr (TABLE_THREADS, ''t9'')" .
qed

text \<open>
  The claim as stated fails for \<open>updateWorkflowState\<close>: on a run that has no snapshot it
  returns \<^verbatim>\<open>undefined\<close> and raises nothing.
\<close>

theorem update_of_missing_record_counterexample:
  "\<forall>rt now opts. \<exists>db'.
     updateWorkflowState rt now ''wf'' ''run9'' opts demo_db = (Inr None, db')
     \<and> map_of (collections demo_db TABLE_WORKFLOW_SNAPSHOT) (snapshot_id ''wf'' ''run9'') = None"
  by (simp add: updateWorkflowState_def doc_ref_def path_join_def id_defs doc_get_def demo_db_def
      TABLE_WORKFLOW_SNAPSHOT_def snapshot_id_def)

subsection \<open>Creation and update times\<close>

lemma map_of_obj_set: "map_of (obj_set k v d) k' = (if k' = k then Some v else map_of d k')"
  by (induction k v d rule: obj_set.induct) auto

lemma get_obj_set: "get (obj_set k v d) k' = (if k' = k then v else get d k')"
  by (simp add: get_def map_of_obj_set)

lemma keys_obj_set:
  "map fst (obj_set k v d) = (if k \<in> set (map fst d) then map fst d else map fst d @ [k])"
  by (induction k v d rule: obj_set.induct) auto

lemma distinct_obj_set: "distinct (map fst d) \<Longrightarrow> distinct (map fst (obj_set k v d))"
  by (simp add: keys_obj_set)

lemma map_of_encode_doc: "map_of (encode_doc d) k = map_option fs_encode (map_of d k)"
  by (induction d) (auto simp: encode_doc_def)

lemma get_encode_doc: "get (encode_doc d) k = fs_encode (get d k)"
  by (simp add: get_def map_of_encode_doc split: option.splits)

lemma stored_after_doc_set:
  "doc_set c i d db = (Inr u, db') \<Longrightarrow>
   map_of (collections db' c) i = Some (encode_doc d) \<and> calls db' = calls db @ [DocSet c i d]"
  by (auto simp: doc_set_def log_call_def store_doc_def map_of_obj_set split: if_splits)

lemma get_spread2:
  "get (spread d [(a, x), (b, y)]) k = (if k = b then y else if k = a then x else get d k)"
  by (simp add: spread_def get_obj_set)

lemma get_spread1: "get (spread d [(a, x)]) k = (if k = a then x else get d k)"
  by (simp add: spread_def get_obj_set)

lemma get_spread3:
  "get (spread d [(a, x), (b, y), (c, z)]) k
     = (if k = c then z else if k = b then y else if k = a then x else get d k)"
  by (simp add: spread_def get_obj_set)

lemma get_serializeRecord:
  "distinct (map fst r) \<Longrightarrow>
   get (serializeRecord rt r) k = (if k \<in> fst ` set r then serialize_field rt (get r k) else Undefined)"
proof -
  assume d: "distinct (map fst r)"
  have "map_of (map (\<lambda>(k, v). (k, serialize_field rt v)) r) k = map_option (serialize_field rt) (map_of r k)"
    by (induction r) auto
  then have g: "get (serializeRecord rt r) k
      = (case map_of r k of None \<Rightarrow> Undefined | Some v \<Rightarrow> serialize_field rt v)"
    using d by (simp add: serializeRecord_map get_def split: option.splits)
  show ?thesis
  proof (cases "map_of r k")
    case None
    then have "k \<notin> fst ` set r" by (simp add: map_of_eq_None_iff)
    with None show ?thesis by (simp add: g)
  next
    case (Some v)
    then have "k \<in> fst ` set r" by (metis map_of_eq_None_iff option.distinct(1))
    moreover have "get r k = v" using Some by (simp add: get_def)
    ultimately show ?thesis using Some by (simp add: g)
  qed
qed

lemma saveMessages_batch_writes:
  "saveMessages_batch now ms acc = Inr batch \<Longrightarrow>
   \<exists>ws. batch = acc @ ws \<and> list_all2 (message_write now) ms ws"
proof (induction ms arbitrary: acc)
  case Nil
  then show ?case by simp
next
  case (Cons m ms)
  let ?d = "serializeMessage (spread m [(''createdAt'', js_or (get m ''createdAt'') (Date (Some now)))])"
  from Cons.prems obtain c i where i: "doc_ref TABLE_MESSAGES (get m ''id'') = Inr (c, i)"
    by (cases "doc_ref TABLE_MESSAGES (get m ''id'')") auto
  from Cons.prems i have "saveMessages_batch now ms (acc @ [WSet c i ?d]) = Inr batch"
    by (auto simp: Let_def batch_set_def split: if_splits)
  from Cons.IH [OF this] obtain ws where
    ws: "batch = (acc @ [WSet c i ?d]) @ ws" "list_all2 (message_write now) ms ws"
    by blast
  have "message_write now m (WSet c i ?d)"
    by (simp add: i serializeMessage_def get_spread1)
  with ws show ?case by auto
qed

lemma insert_record_call:
  "insert_record rt t r db = (Inr u, db') \<Longrightarrow>
   \<exists>c i. calls db' = calls db @ [DocSet c i (serializeRecord rt r)]
        \<and> map_of (collections db' c) i = Some (encode_doc (serializeRecord rt r))"
proof (cases "own_id r")
  case None
  assume "insert_record rt t r db = (Inr u, db')"
  with None have "doc_set t (fst (auto_id db)) (serializeRecord rt r) (snd (auto_id db)) = (Inr u, db')"
    by (simp add: insert_record_def case_prod_beta)
  from stored_after_doc_set [OF this] show ?thesis by (auto simp: auto_id_def)
next
  case (Some j)
  assume "insert_record rt t r db = (Inr u, db')"
  with Some obtain c i where "doc_set c i (serializeRecord rt r) db = (Inr u, db')"
    by (auto simp: insert_record_def split: sum.splits)
  from stored_after_doc_set [OF this] show ?thesis by blast
qed

text \<open>
  C7, as the code has it. A save that returns has written the record: saving a thread, a
  resource or a score gives the record a \<open>createdAt\<close> (the caller's when it is given, the
  clock's otherwise; always the clock's for a score) and sets \<open>updatedAt\<close> to the clock, in
  the returned record and in the stored document. Saving messages and creating a span
  give each written document a \<open>createdAt\<close> in the same way and assign no \<open>updatedAt\<close>: the
  written document has the caller's \<open>updatedAt\<close> when the caller's record has one, and none
  otherwise.
\<close>

theorem write_timestamps:
  "(saveThread now thread db = (Inr threadData, db') \<longrightarrow>
      get threadData ''createdAt'' = js_or (get thread ''createdAt'') (Date (Some now))
      \<and> get threadData ''updatedAt'' = Date (Some now)
      \<and> (\<exists>c i stored. doc_ref TABLE_THREADS (get thread ''id'') = Inr (c, i)
            \<and> map_of (collections db' c) i = Some stored
            \<and> get stored ''createdAt'' = fs_encode (js_or (get thread ''createdAt'') (Date (Some now)))
            \<and> get stored ''updatedAt'' = fs_encode (Date (Some now))))
   \<and> (saveResource now resource db = (Inr resourceData, db') \<longrightarrow>
      get resourceData ''createdAt'' = js_or (get resource ''createdAt'') (Date (Some now))
      \<and> get resourceData ''updatedAt'' = Date (Some now)
      \<and> (\<exists>c i stored. doc_ref TABLE_RESOURCES (get resource ''id'') = Inr (c, i)
            \<and> map_of (collections db' c) i = Some stored
            \<and> get stored ''createdAt'' = fs_encode (js_or (get resource ''createdAt'') (Date (Some now)))
            \<and> get stored ''updatedAt'' = fs_encode (Date (Some now))))
   \<and> (saveScore now score db = (Inr scoreData, db') \<longrightarrow>
      get scoreData ''createdAt'' = Date (Some now)
      \<and> get scoreData ''updatedAt'' = Date (Some now)
      \<and> (\<exists>i stored. get scoreData ''id'' = Str i
            \<and> map_of (collections db' TABLE_SCORERS) i = Some stored
            \<and> get stored ''createdAt'' = fs_encode (Date (Some now))
            \<and> get stored ''updatedAt'' = fs_encode (Date (Some now))))
   \<and> (saveMessages now messages db = (Inr saved, db') \<and> messages \<noteq> [] \<longrightarrow>
      saved = messages
      \<and> (\<exists>batch. calls db' = calls db @ [Commit batch]
            \<and> list_all2 (message_write now) messages batch))
   \<and> (createAISpan rt now aispan db = (Inr u, db') \<and> distinct (map fst aispan) \<longrightarrow>
      (\<exists>c i d. calls db' = calls db @ [DocSet c i d]
         \<and> map_of (collections db' c) i = Some (encode_doc d)
         \<and> get d ''createdAt'' = serialize_field rt (js_or (get aispan ''createdAt'') (Date (Some now)))
         \<and> get d ''updatedAt''
             = (if ''updatedAt'' \<in> fst ` set aispan then serialize_field rt (get aispan ''updatedAt'')
                else Undefined)))"
proof (intro conjI impI)
  assume a: "saveThread now thread db = (Inr threadData, db')"
  then obtain c i where i: "doc_ref TABLE_THREADS (get thread ''id'') = Inr (c, i)"
    by (cases "doc_ref TABLE_THREADS (get thread ''id'')") (auto simp: saveThread_def)
  let ?td = "spread thread
      [(''createdAt'', js_or (get thread ''createdAt'') (Date (Some now))), (''updatedAt'', Date (Some now))]"
  from a i have td: "threadData = ?td"
    and w: "doc_set c i (serializeThread ?td) db = (Inr (), db')"
    by (auto simp: saveThread_def Let_def split: prod.splits sum.splits)
  show "get threadData ''createdAt'' = js_or (get thread ''createdAt'') (Date (Some now))"
    and "get threadData ''updatedAt'' = Date (Some now)"
    by (simp_all add: td get_spread2)
  from stored_after_doc_set [OF w]
  have "map_of (collections db' c) i = Some (encode_doc (serializeThread ?td))" by simp
  moreover have "get (encode_doc (serializeThread ?td)) ''createdAt''
      = fs_encode (js_or (get thread ''createdAt'') (Date (Some now)))"
    unfolding get_encode_doc by (simp add: serializeThread_def get_def get_spread2 [unfolded get_def])
  moreover have "get (encode_doc (serializeThread ?td)) ''updatedAt'' = fs_encode (Date (Some now))"
    unfolding get_encode_doc by (simp add: serializeThread_def get_def get_spread2 [unfolded get_def])
  ultimately show "\<exists>c i stored. doc_ref TABLE_THREADS (get thread ''id'') = Inr (c, i)
      \<and> map_of (collections db' c) i = Some stored
      \<and> get stored ''createdAt'' = fs_encode (js_or (get thread ''createdAt'') (Date (Some now)))
      \<and> get stored ''updatedAt'' = fs_encode (Date (Some now))"
    using i by blast
next
  assume a: "saveResource now resource db = (Inr resourceData, db')"
  then obtain c i where i: "doc_ref TABLE_RESOURCES (get resource ''id'') = Inr (c, i)"
    by (cases "doc_ref TABLE_RESOURCES (get resource ''id'')") (auto simp: saveResource_def)
  let ?td = "spread resource
      [(''createdAt'', js_or (get resource ''createdAt'') (Date (Some now))), (''updatedAt'', Date (Some now))]"
  from a i have td: "resourceData = ?td"
    and w: "doc_set c i (serializeResource ?td) db = (Inr (), db')"
    by (auto simp: saveResource_def Let_def split: prod.splits sum.splits)
  show "get resourceData ''createdAt'' = js_or (get resource ''createdAt'') (Date (Some now))"
    and "get resourceData ''updatedAt'' = Date (Some now)"
    by (simp_all add: td get_spread2)
  from stored_after_doc_set [OF w]
  have "map_of (collections db' c) i = Some (encode_doc (serializeResource ?td))" by simp
  moreover have "get (encode_doc (serializeResource ?td)) ''createdAt''
      = fs_encode (js_or (get resource ''createdAt'') (Date (Some now)))"
    unfolding get_encode_doc
    by (simp add: serializeResource_def get_def get_spread2 [unfolded get_def])
  moreover have "get (encode_doc (serializeResource ?td)) ''updatedAt'' = fs_encode (Date (Some now))"
    unfolding get_encode_doc
    by (simp add: serializeResource_def get_def get_spread2 [unfolded get_def])
  ultimately show "\<exists>c i stored. doc_ref TABLE_RESOURCES (get resource ''id'') = Inr (c, i)
      \<and> map_of (collections db' c) i = Some stored
      \<and> get stored ''createdAt'' = fs_encode (js_or (get resource ''createdAt'') (Date (Some now)))
      \<and> get stored ''updatedAt'' = fs_encode (Date (Some now))"
    using i by blast
next
  assume a: "saveScore now score db = (Inr scoreData, db')"
  let ?i = "fst (auto_id db)"
  let ?sd = "spread score
      [(''id'', Str ?i), (''createdAt'', Date (Some now)), (''updatedAt'', Date (Some now))]"
  obtain r db2 where ds: "doc_set TABLE_SCORERS ?i (serializeScore ?sd) (snd (auto_id db)) = (r, db2)"
    by (cases "doc_set TABLE_SCORERS ?i (serializeScore ?sd) (snd (auto_id db))")
  from a ds have sd: "scoreData = ?sd"
    and w: "doc_set TABLE_SCORERS ?i (serializeScore ?sd) (snd (auto_id db)) = (Inr (), db')"
    by (cases r; simp add: saveScore_def Let_def case_prod_beta)+
  show "get scoreData ''createdAt'' = Date (Some now)" and "get scoreData ''updatedAt'' = Date (Some now)"
    by (simp_all add: sd get_spread3)
  from stored_after_doc_set [OF w]
  have "map_of (collections db' TABLE_SCORERS) ?i = Some (encode_doc (serializeScore ?sd))" by simp
  moreover have "get (encode_doc (serializeScore ?sd)) ''createdAt'' = fs_encode (Date (Some now))"
    unfolding get_encode_doc
    by (simp add: serializeScore_def get_def get_spread3 [unfolded get_def])
  moreover have "get (encode_doc (serializeScore ?sd)) ''updatedAt'' = fs_encode (Date (Some now))"
    unfolding get_encode_doc
    by (simp add: serializeScore_def get_def get_spread3 [unfolded get_def])
  moreover have "get scoreData ''id'' = Str ?i" by (simp add: sd get_spread3)
  ultimately show "\<exists>i stored. get scoreData ''id'' = Str i
      \<and> map_of (collections db' TABLE_SCORERS) i = Some stored
      \<and> get stored ''createdAt'' = fs_encode (Date (Some now))
      \<and> get stored ''updatedAt'' = fs_encode (Date (Some now))"
    by blast
next
  assume a: "saveMessages now messages db = (Inr saved, db') \<and> messages \<noteq> []"
  then obtain batch where b: "saveMessages_batch now messages [] = Inr batch"
    and r: "saved = messages" "db' = commit batch db"
    by (cases "saveMessages_batch now messages []") (auto simp: saveMessages_def)
  from saveMessages_batch_writes [OF b] have "list_all2 (message_write now) messages batch" by simp
  moreover have "calls db' = calls db @ [Commit batch]" by (simp add: r)
  ultimately show "saved = messages"
    and "\<exists>batch. calls db' = calls db @ [Commit batch] \<and> list_all2 (message_write now) messages batch"
    using r by auto
next
  assume a: "createAISpan rt now aispan db = (Inr u, db') \<and> distinct (map fst aispan)"
  then have d: "distinct (map fst aispan)" by simp
  let ?r = "spread aispan [(''createdAt'', js_or (get aispan ''createdAt'') (Date (Some now)))]"
  have dr: "distinct (map fst ?r)" using d by (simp add: spread_def distinct_obj_set)
  have keys: "fst ` set ?r = insert ''createdAt'' (fst ` set aispan)"
    by (simp add: spread_def obj_set_keys)
  from a have "insert_record rt TABLE_AI_SPANS ?r db = (Inr u, db')"
    by (simp add: createAISpan_def)
  from insert_record_call [OF this] obtain c i where
    c: "calls db' = calls db @ [DocSet c i (serializeRecord rt ?r)]"
    and st: "map_of (collections db' c) i = Some (encode_doc (serializeRecord rt ?r))"
    by blast
  have "get (serializeRecord rt ?r) ''createdAt''
      = serialize_field rt (js_or (get aispan ''createdAt'') (Date (Some now)))"
    by (simp add: get_serializeRecord [OF dr] keys get_spread1)
  moreover have "get (serializeRecord rt ?r) ''updatedAt''
      = (if ''updatedAt'' \<in> fst ` set aispan then serialize_field rt (get aispan ''updatedAt'')
         else Undefined)"
    by (simp add: get_serializeRecord [OF dr] keys get_spread1)
  ultimately show "\<exists>c i d. calls db' = calls db @ [DocSet c i d]
      \<and> map_of (collections db' c) i = Some (encode_doc d)
      \<and> get d ''createdAt'' = serialize_field rt (js_or (get aispan ''createdAt'') (Date (Some now)))
      \<and> get d ''updatedAt''
          = (if ''updatedAt'' \<in> fst ` set aispan then serialize_field rt (get aispan ''updatedAt'')
             else Undefined)"
    using c st by blast
qed

lemmas write_defs =
  doc_ref_def path_join_def id_defs doc_set_def batch_set_def storable_doc_def encode_doc_def
  store_doc_def commit_def log_call_def spread_def get_def js_or_def Let_def

theorem write_timestamps_witness:
  "\<forall>rt.
     (\<exists>td db'. saveThread 5000 [(''id'', Str ''t3''), (''resourceId'', Str ''u''), (''title'', Str ''hi'')] demo_db
                  = (Inr td, db')
        \<and> get td ''createdAt'' = Date (Some 5000) \<and> get td ''updatedAt'' = Date (Some 5000)
        \<and> (\<exists>stored. map_of (collections db' TABLE_THREADS) ''t3'' = Some stored
              \<and> get stored ''createdAt'' = Timestamp 5 0 \<and> get stored ''updatedAt'' = Timestamp 5 0))
   \<and> (\<exists>rd db'. saveResource 5000 [(''id'', Str ''r1''), (''createdAt'', Date (Some 1000))] demo_db
                  = (Inr rd, db')
        \<and> get rd ''createdAt'' = Date (Some 1000) \<and> get rd ''updatedAt'' = Date (Some 5000)
        \<and> (\<exists>stored. map_of (collections db' TABLE_RESOURCES) ''r1'' = Some stored
              \<and> get stored ''createdAt'' = Timestamp 1 0 \<and> get stored ''updatedAt'' = Timestamp 5 0))
   \<and> (\<exists>sd db'. saveScore 5000
                   [(''scorerId'', Str ''s1''), (''entityId'', Str ''e1''), (''entityType'', Str ''AGENT''),
                    (''source'', Str ''LIVE''), (''runId'', Str ''r''), (''traceId'', Str ''tr1''),
                    (''spanId'', Str ''sp1''), (''score'', Num (Finite 1))] demo_db = (Inr sd, db')
        \<and> get sd ''createdAt'' = Date (Some 5000) \<and> get sd ''updatedAt'' = Date (Some 5000)
        \<and> (\<exists>i stored. get sd ''id'' = Str i \<and> map_of (collections db' TABLE_SCORERS) i = Some stored
              \<and> get stored ''createdAt'' = Timestamp 5 0 \<and> get stored ''updatedAt'' = Timestamp 5 0))
   \<and> (\<exists>db' d. saveMessages 5000 [[(''id'', Str ''m9''), (''threadId'', Str ''t1'')]] demo_db
                  = (Inr [[(''id'', Str ''m9''), (''threadId'', Str ''t1'')]], db')
        \<and> calls db' = [Commit [WSet TABLE_MESSAGES ''m9'' d]]
        \<and> get d ''createdAt'' = Date (Some 5000) \<and> get d ''updatedAt'' = Undefined)
   \<and> (\<exists>db' c i d. createAISpan rt 5000
                     [(''spanId'', Str ''sp2''), (''traceId'', Str ''tr1''), (''updatedAt'', Date (Some 7000))]
                     demo_db = (Inr (), db')
        \<and> calls db' = [DocSet c i d]
        \<and> map_of (collections db' c) i = Some (encode_doc d)
        \<and> get d ''createdAt'' = Date (Some 5000) \<and> get d ''updatedAt'' = Date (Some 7000))"
proof (intro allI conjI)
  let ?t = "[(''id'', Str ''t3''), (''resourceId'', Str ''u''), (''title'', Str ''hi'')]"
  have r: "doc_ref TABLE_THREADS (get ?t ''id'') = Inr (TABLE_THREADS, ''t3'')"
    by (simp add: doc_ref_simple id_defs get_def)
  have "\<exists>td db'. saveThread 5000 ?t demo_db = (Inr td, db')"
    by (simp add: saveThread_def serializeThread_def write_defs)
  then obtain td db' where e: "saveThread 5000 ?t demo_db = (Inr td, db')" by blast
  from write_timestamps [THEN conjunct1, rule_format, OF e] e r
  show "\<exists>td db'. saveThread 5000 ?t demo_db = (Inr td, db')
        \<and> get td ''createdAt'' = Date (Some 5000) \<and> get td ''updatedAt'' = Date (Some 5000)
        \<and> (\<exists>stored. map_of (collections db' TABLE_THREADS) ''t3'' = Some stored
              \<and> get stored ''createdAt'' = Timestamp 5 0 \<and> get stored ''updatedAt'' = Timestamp 5 0)"
    by (auto simp: get_def js_or_def)
next
  let ?r = "[(''id'', Str ''r1''), (''createdAt'', Date (Some 1000))]"
  have r: "doc_ref TABLE_RESOURCES (get ?r ''id'') = Inr (TABLE_RESOURCES, ''r1'')"
    by (simp add: doc_ref_simple id_defs get_def)
  have "\<exists>rd db'. saveResource 5000 ?r demo_db = (Inr rd, db')"
    by (simp add: saveResource_def serializeResource_def write_defs)
  then obtain rd db' where e: "saveResource 5000 ?r demo_db = (Inr rd, db')" by blast
  from write_timestamps [THEN conjunct2, THEN conjunct1, rule_format, OF e] e r
  show "\<exists>rd db'. saveResource 5000 ?r demo_db = (Inr rd, db')
        \<and> get rd ''createdAt'' = Date (Some 1000) \<and> get rd ''updatedAt'' = Date (Some 5000)
        \<and> (\<exists>stored. map_of (collections db' TABLE_RESOURCES) ''r1'' = Some stored
              \<and> get stored ''createdAt'' = Timestamp 1 0 \<and> get stored ''updatedAt'' = Timestamp 5 0)"
    by (auto simp: get_def js_or_def)
next
  let ?s = "[(''scorerId'', Str ''s1''), (''entityId'', Str ''e1''), (''entityType'', Str ''AGENT''),
             (''source'', Str ''LIVE''), (''runId'', Str ''r''), (''traceId'', Str ''tr1''),
             (''spanId'', Str ''sp1''), (''score'', Num (Finite 1))]"
  have "\<exists>sd db'. saveScore 5000 ?s demo_db = (Inr sd, db')"
    by (simp add: saveScore_def serializeScore_def auto_id_def demo_db_def write_defs)
  then obtain sd db' where e: "saveScore 5000 ?s demo_db = (Inr sd, db')" by blast
  from write_timestamps [THEN conjunct2, THEN conjunct2, THEN conjunct1, rule_format, OF e] e
  show "\<exists>sd db'. saveScore 5000 ?s demo_db = (Inr sd, db')
        \<and> get sd ''createdAt'' = Date (Some 5000) \<and> get sd ''updatedAt'' = Date (Some 5000)
        \<and> (\<exists>i stored. get sd ''id'' = Str i \<and> map_of (collections db' TABLE_SCORERS) i = Some stored
              \<and> get stored ''createdAt'' = Timestamp 5 0 \<and> get stored ''updatedAt'' = Timestamp 5 0)"
    by auto
next
  let ?m = "[(''id'', Str ''m9''), (''threadId'', Str ''t1'')]"
  have "\<exists>db'. saveMessages 5000 [?m] demo_db = (Inr [?m], db')"
    by (simp add: saveMessages_def serializeMessage_def write_defs)
  then obtain db' where e: "saveMessages 5000 [?m] demo_db = (Inr [?m], db')" by blast
  then have h: "saveMessages 5000 [?m] demo_db = (Inr [?m], db') \<and> [?m] \<noteq> []" by simp
  have c0: "calls demo_db = []" by (simp add: demo_db_def)
  from write_timestamps [THEN conjunct2, THEN conjunct2, THEN conjunct2, THEN conjunct1, rule_format, OF h]
  obtain batch where b: "calls db' = calls demo_db @ [Commit batch]"
    and l: "list_all2 (message_write 5000) [?m] batch"
    by blast
  from l obtain w where w: "batch = [w]" "message_write 5000 ?m w"
    by (auto simp: list_all2_Cons1)
  then obtain c i d where d: "w = WSet c i d" "doc_ref TABLE_MESSAGES (get ?m ''id'') = Inr (c, i)"
    "get d ''createdAt'' = js_or (get ?m ''createdAt'') (Date (Some 5000))"
    "get d ''updatedAt'' = get ?m ''updatedAt''"
    by (cases w) auto
  have "doc_ref TABLE_MESSAGES (get ?m ''id'') = Inr (TABLE_MESSAGES, ''m9'')"
    by (simp add: doc_ref_simple id_defs get_def)
  with d have "c = TABLE_MESSAGES" "i = ''m9''" "get d ''createdAt'' = Date (Some 5000)"
    "get d ''updatedAt'' = Undefined"
    by (simp_all add: get_def js_or_def)
  with e b c0 w d(1)
  show "\<exists>db' d. saveMessages 5000 [?m] demo_db = (Inr [?m], db')
        \<and> calls db' = [Commit [WSet TABLE_MESSAGES ''m9'' d]]
        \<and> get d ''createdAt'' = Date (Some 5000) \<and> get d ''updatedAt'' = Undefined"
    by auto
next
  fix rt
  let ?sp = "[(''spanId'', Str ''sp2''), (''traceId'', Str ''tr1''), (''updatedAt'', Date (Some 7000))]"
  have c0: "calls demo_db = []" by (simp add: demo_db_def)
  have "\<exists>db'. createAISpan rt 5000 ?sp demo_db = (Inr (), db')"
    by (simp add: createAISpan_def insert_record_def own_id_def serializeRecord_def serialize_field_def
        auto_id_def write_defs)
  then obtain db' where e: "createAISpan rt 5000 ?sp demo_db = (Inr (), db')" by blast
  then have h: "createAISpan rt 5000 ?sp demo_db = (Inr (), db') \<and> distinct (map fst ?sp)" by simp
  from write_timestamps [THEN conjunct2, THEN conjunct2, THEN conjunct2, THEN conjunct2, rule_format, OF h]
  obtain c i d where "calls db' = calls demo_db @ [DocSet c i d]"
    "map_of (collections db' c) i = Some (encode_doc d)"
    "get d ''createdAt'' = serialize_field rt (js_or (get ?sp ''createdAt'') (Date (Some 5000)))"
    "get d ''updatedAt''
       = (if ''updatedAt'' \<in> fst ` set ?sp then serialize_field rt (get ?sp ''updatedAt'') else Undefined)"
    by blast
  with e c0
  show "\<exists>db' c i d. createAISpan rt 5000 ?sp demo_db = (Inr (), db')
        \<and> calls db' = [DocSet c i d]
        \<and> map_of (collections db' c) i = Some (encode_doc d)
        \<and> get d ''createdAt'' = Date (Some 5000) \<and> get d ''updatedAt'' = Date (Some 7000)"
    by (auto simp: get_def js_or_def serialize_field_def)
qed

text \<open>
  The claim as stated fails for messages: the document written for a message that comes
  without \<open>updatedAt\<close> has none.
\<close>

theorem write_timestamps_counterexample:
  "\<exists>db'. saveMessages 5000 [[(''id'', Str ''m9''), (''threadId'', Str ''t1'')]] demo_db
            = (Inr [[(''id'', Str ''m9''), (''threadId'', Str ''t1'')]], db')
        \<and> map_of (collections db' TABLE_MESSAGES) ''m9''
            = Some [(''id'', Str ''m9''), (''threadId'', Str ''t1''), (''createdAt'', Timestamp 5 0)]
        \<and> get [(''id'', Str ''m9''), (''threadId'', Str ''t1''), (''createdAt'', Timestamp 5 0)] ''updatedAt''
            = Undefined"
  by (simp add: saveMessages_def serializeMessage_def demo_db_def TABLE_MESSAGES_def write_defs)

subsection \<open>Workflow results\<close>









lemma stored_after_doc_set_merge:
  "doc_set_merge c i d db = (Inr u, db') \<Longrightarrow>
   map_of (collections db' c) i
     = Some (merge_fields (case map_of (collections db c) i of Some old \<Rightarrow> old | None \<Rightarrow> [])
               (encode_doc d))"
  by (auto simp: doc_set_merge_def store_doc_def map_of_obj_set split: if_splits)





end
